theory Spec2Isabelle
  imports Main "HOL-Library.Word" "HOL-Library.Sublist" "HOL-Library.AList"
begin

unbundle bit_operations_syntax

section \<open>JavaScript primitives used by ebb.js\<close>

text \<open>
  The library is JavaScript. Strings are modelled as \<^typ>\<open>string\<close> (the wire format is
  plain ASCII), numeric parameters as \<^typ>\<open>int\<close> (a JavaScript number holding an
  integer; \<open>Number.isInteger\<close> is then true and \<open>Math.floor\<close> the identity), and the
  result of \<open>parseInt\<close> as \<open>number\<close>, which adds \<open>NaN\<close>. A destructured array element
  that is missing is \<open>undefined\<close>, modelled as \<open>None\<close>.
\<close>

abbreviation CR :: char where "CR \<equiv> CHR 0x0D"
abbreviation LF :: char where "LF \<equiv> CHR 0x0A"
abbreviation DQUOTE :: char where "DQUOTE \<equiv> CHR 0x22"

datatype number = Num int | NaN

subsection \<open>Template literals: \<open>${n}\<close> for an integer \<open>n\<close>\<close>

definition digit_char :: "nat \<Rightarrow> char" where
  "digit_char d = ''0123456789'' ! d"

fun digit_chars :: "nat \<Rightarrow> string" where
  "digit_chars n =
     (if n < 10 then [digit_char n]
      else digit_chars (n div 10) @ [digit_char (n mod 10)])"

declare digit_chars.simps [simp del]

text \<open>
  \<open>Number.prototype.toString\<close>, which a template literal applies, on a safe integer
  (of magnitude below \<open>2^53\<close>): the decimal digits. Larger numbers, which print the
  digits of the nearest double and from \<open>10^21\<close> an exponent, are outside the model; the
  properties below bound every number they print.
\<close>

definition Number_toString :: "int \<Rightarrow> string" where
  "Number_toString n =
     (if n < 0 then CHR ''-'' # digit_chars (nat (- n)) else digit_chars (nat n))"

text \<open>\<open>Math.floor\<close> and \<open>Number.isInteger\<close> on an integer-valued number.\<close>

definition Math_floor :: "int \<Rightarrow> int" where
  "Math_floor n = n"

definition Number_isInteger :: "int \<Rightarrow> bool" where
  "Number_isInteger n = True"

subsection \<open>\<open>String.prototype.split\<close>, \<open>startsWith\<close>, \<open>indexOf\<close>, \<open>Array.prototype.join\<close>\<close>

fun js_split_from :: "string \<Rightarrow> string \<Rightarrow> string \<Rightarrow> string list" where
  "js_split_from sep acc [] = [rev acc]"
| "js_split_from sep acc (c # cs) =
     (if sep \<noteq> [] \<and> prefix sep (c # cs)
      then rev acc # js_split_from sep [] (drop (length sep) (c # cs))
      else js_split_from sep (c # acc) cs)"

definition js_split :: "string \<Rightarrow> string \<Rightarrow> string list" where
  "js_split s sep = js_split_from sep [] s"

definition startsWith :: "string \<Rightarrow> string \<Rightarrow> bool" where
  "startsWith s p = prefix p s"

text \<open>\<open>s.indexOf(sub) !== -1\<close>\<close>

fun js_contains :: "string \<Rightarrow> string \<Rightarrow> bool" where
  "js_contains [] sub = (sub = [])"
| "js_contains (c # cs) sub = (prefix sub (c # cs) \<or> js_contains cs sub)"

fun js_join :: "string list \<Rightarrow> string \<Rightarrow> string" where
  "js_join [] sep = []"
| "js_join [x] sep = x"
| "js_join (x # y # ys) sep = x @ sep @ js_join (y # ys) sep"

text \<open>Array destructuring: the element at a position, \<open>undefined\<close> past the end.\<close>

definition element :: "'a list \<Rightarrow> nat \<Rightarrow> 'a option" where
  "element xs i = (if i < length xs then Some (xs ! i) else None)"

subsection \<open>\<open>parseInt(string, radix)\<close>\<close>

definition js_whitespace :: "char \<Rightarrow> bool" where
  "js_whitespace c \<longleftrightarrow> c \<in> set [CHR 0x09, CHR 0x0A, CHR 0x0B, CHR 0x0C, CHR 0x0D, CHR 0x20]"

definition digit_value :: "char \<Rightarrow> nat option" where
  "digit_value c =
     (let n = (of_char c :: nat) in
      if 48 \<le> n \<and> n \<le> 57 then Some (n - 48)
      else if 97 \<le> n \<and> n \<le> 122 then Some (n - 87)
      else if 65 \<le> n \<and> n \<le> 90 then Some (n - 55)
      else None)"

definition radix_digit :: "nat \<Rightarrow> char \<Rightarrow> nat option" where
  "radix_digit R c =
     (case digit_value c of None \<Rightarrow> None | Some d \<Rightarrow> if d < R then Some d else None)"

text \<open>The values of the longest prefix of radix-\<open>R\<close> digits.\<close>

fun radix_digits :: "nat \<Rightarrow> string \<Rightarrow> nat list" where
  "radix_digits R [] = []"
| "radix_digits R (c # cs) =
     (case radix_digit R c of None \<Rightarrow> [] | Some d \<Rightarrow> d # radix_digits R cs)"

definition parseInt :: "string \<Rightarrow> nat \<Rightarrow> number" where
  "parseInt s R =
     (let S = dropWhile js_whitespace s;
          sign = (if take 1 S = ''-'' then - 1 else 1);
          S1 = (if take 1 S = ''+'' \<or> take 1 S = ''-'' then drop 1 S else S);
          S2 = (if R = 16 \<and> (take 2 S1 = ''0x'' \<or> take 2 S1 = ''0X'') then drop 2 S1 else S1);
          Z = radix_digits R S2
      in if Z = [] then NaN
         else Num (sign * int (foldl (\<lambda>a d. a * R + d) 0 Z)))"

text \<open>\<open>parseInt\<close> of a destructured element: \<open>undefined\<close> becomes the string
  \<open>"undefined"\<close>, which has no digits.\<close>

definition parseInt_element :: "string option \<Rightarrow> nat \<Rightarrow> number" where
  "parseInt_element v R = (case v of None \<Rightarrow> NaN | Some s \<Rightarrow> parseInt s R)"

subsection \<open>Bitwise operators on 32-bit integers\<close>

definition ToInt32 :: "number \<Rightarrow> 32 word" where
  "ToInt32 x = (case x of NaN \<Rightarrow> 0 | Num n \<Rightarrow> word_of_int n)"

section \<open>Constants\<close>

definition PEN_DOWN :: int where "PEN_DOWN = 0"
definition PEN_UP :: int where "PEN_UP = 1"

definition MOTOR_DISABLE :: int where "MOTOR_DISABLE = 0"
definition MOTOR_STEP_DIV16 :: int where "MOTOR_STEP_DIV16 = 1"
definition MOTOR_STEP_DIV8 :: int where "MOTOR_STEP_DIV8 = 2"
definition MOTOR_STEP_DIV4 :: int where "MOTOR_STEP_DIV4 = 3"
definition MOTOR_STEP_DIV2 :: int where "MOTOR_STEP_DIV2 = 4"
definition MOTOR_STEP_DIV1 :: int where "MOTOR_STEP_DIV1 = 5"

definition SERVO_POWER_ON :: int where "SERVO_POWER_ON = 1"

definition MODE_DIGITAL :: int where "MODE_DIGITAL = 0"
definition MODE_ANALOG :: int where "MODE_ANALOG = 1"

section \<open>The command queue and the response router\<close>

text \<open>
  \<open>EiBotBoard.command\<close> creates, per call, a response promise, a timer, a line buffer and
  \<open>numResponseLines\<close> handler closures that share them. The closures of one call are kept
  in a store entry; \<open>this.pending\<close> and \<open>this.responseHandlers\<close> hold the indices of the
  entries their closures belong to.
\<close>

datatype promise = Pending | Fulfilled string | Rejected string

datatype write_progress = NotCalled | Writing | Flushed | WriteFailed

record pending_command =
  cmd :: string
  numResponseLines :: nat
  timeout :: nat
  timedOut :: bool
  timerArmed :: bool
  lines :: "string list"
  responsePromise :: promise
  printing :: write_progress
  returned :: promise

record board =
  store :: "pending_command list"
  pending :: "nat list"
  responseHandlers :: "nat list"
  port_written :: "string list"
  console :: "string list"

definition new_board :: board where
  "new_board = \<lparr>store = [], pending = [], responseHandlers = [],
                 port_written = [], console = []\<rparr>"

text \<open>Settling a promise that is already settled has no effect.\<close>

definition settle :: "promise \<Rightarrow> promise \<Rightarrow> promise" where
  "settle p v = (if p = Pending then v else p)"

text \<open>\<open>executeCommand\<close>: the call \<open>this.port.print(`${cmd}\r`)\<close>.\<close>

definition executeCommand :: "nat \<Rightarrow> board \<Rightarrow> board" where
  "executeCommand c b =
     (if c < length (store b)
      then b\<lparr>port_written := port_written b @ [cmd (store b ! c) @ [CR]],
             store := (store b)[c := (store b ! c)\<lparr>printing := Writing\<rparr>]\<rparr>
      else b)"

text \<open>\<open>command(cmd, numResponseLines, timeout)\<close>, up to its return.\<close>

definition command :: "string \<Rightarrow> nat \<Rightarrow> nat \<Rightarrow> board \<Rightarrow> board" where
  "command cmd0 n t b =
     (let c = length (store b);
          entry = \<lparr>cmd = cmd0, numResponseLines = n, timeout = t, timedOut = False,
                   timerArmed = True, lines = [], responsePromise = Pending,
                   printing = NotCalled, returned = Pending\<rparr>;
          othersPending = (length (pending b) > 0);
          b1 = b\<lparr>store := store b @ [entry],
                 responseHandlers := responseHandlers b @ replicate n c,
                 pending := pending b @ [c]\<rparr>
      in if \<not> othersPending then executeCommand c b1 else b1)"

text \<open>The handler closure pushed by call \<open>c\<close>, applied to a line.\<close>

definition handleResponse :: "nat \<Rightarrow> string \<Rightarrow> board \<Rightarrow> board" where
  "handleResponse c line b =
     (if c < length (store b) then
        (let e = store b ! c in
         if timedOut e then b
         else
           (let ls = lines e @ [line] in
            if length ls = numResponseLines e
            then b\<lparr>store := (store b)[c := e\<lparr>lines := ls, timerArmed := False,
                     responsePromise :=
                       settle (responsePromise e) (Fulfilled (js_join ls [CR, LF]))\<rparr>]\<rparr>
            else b\<lparr>store := (store b)[c := e\<lparr>lines := ls\<rparr>]\<rparr>))
      else b)"

text \<open>The listener of the port's \<open>line\<close> notification.\<close>

definition on_line :: "string \<Rightarrow> board \<Rightarrow> board" where
  "on_line line b =
     (case responseHandlers b of
        [] \<Rightarrow> b\<lparr>console := console b @ [''Received unexpected message from EBB: '' @ line]\<rparr>
      | c # rest \<Rightarrow> handleResponse c line (b\<lparr>responseHandlers := rest\<rparr>))"

text \<open>The timer callback of call \<open>c\<close>; it runs only while the timer is armed.\<close>

definition on_timeout :: "nat \<Rightarrow> board \<Rightarrow> board" where
  "on_timeout c b =
     (if c < length (store b) \<and> timerArmed (store b ! c) then
        (let e = store b ! c in
         b\<lparr>store := (store b)[c := e\<lparr>timedOut := True, timerArmed := False,
              responsePromise :=
                settle (responsePromise e)
                  (Rejected (''Command '' @ [DQUOTE] @ cmd e @ [DQUOTE] @ '' timed out''))\<rparr>]\<rparr>)
      else b)"

text \<open>The promise returned by \<open>this.port.print\<close> settles.\<close>

definition print_resolved :: "nat \<Rightarrow> board \<Rightarrow> board" where
  "print_resolved c b =
     (if c < length (store b) \<and> printing (store b ! c) = Writing
      then b\<lparr>store := (store b)[c := (store b ! c)\<lparr>printing := Flushed\<rparr>]\<rparr>
      else b)"

definition print_rejected :: "nat \<Rightarrow> board \<Rightarrow> board" where
  "print_rejected c b =
     (if c < length (store b) \<and> printing (store b ! c) = Writing
      then b\<lparr>store := (store b)[c := (store b ! c)\<lparr>printing := WriteFailed\<rparr>]\<rparr>
      else b)"

text \<open>
  The callback \<open>(response) => { fulfill(response); this.pending.shift(); ... }\<close> of call
  \<open>c\<close>. It is chained behind the print promise and the response promise, so it runs
  once, when both are fulfilled; no callback is chained for a rejection.
\<close>

definition continuation :: "nat \<Rightarrow> board \<Rightarrow> board" where
  "continuation c b =
     (if c < length (store b) then
        (let e = store b ! c in
         case responsePromise e of
           Fulfilled response \<Rightarrow>
             if printing e = Flushed \<and> returned e = Pending then
               (let b1 = b\<lparr>store := (store b)[c := e\<lparr>returned := Fulfilled response\<rparr>],
                           pending := tl (pending b)\<rparr>
                in if length (pending b1) > 0 then executeCommand (hd (pending b1)) b1 else b1)
             else b
         | _ \<Rightarrow> b)
      else b)"

text \<open>Everything that can happen to a board, and a schedule of such events.\<close>

datatype event =
    Call string nat nat
  | Line string
  | TimerFires nat
  | PrintResolves nat
  | PrintRejects nat
  | Continue nat

fun step :: "board \<Rightarrow> event \<Rightarrow> board" where
  "step b (Call c n t) = command c n t b"
| "step b (Line l) = on_line l b"
| "step b (TimerFires c) = on_timeout c b"
| "step b (PrintResolves c) = print_resolved c b"
| "step b (PrintRejects c) = print_rejected c b"
| "step b (Continue c) = continuation c b"

definition run :: "event list \<Rightarrow> board" where
  "run evs = foldl step new_board evs"

section \<open>Device operations\<close>

text \<open>
  An operation of the board is an \<open>async\<close> method: it may throw, or call
  \<open>this.command(cmd, numResponseLines)\<close> and go on with the response once the returned
  promise is fulfilled, or return. \<open>Await cmd n k\<close> is such a call with the rest of the
  method body \<open>k\<close>; every call in ebb.js leaves the timeout at its default.
\<close>

datatype 'a proc = Return 'a | Throw string | Await string nat "string \<Rightarrow> 'a proc"

definition assertByte :: "int \<Rightarrow> string option" where
  "assertByte v =
     (if v < 0 \<or> v > 255 then Some ''Byte value must be between 0 and 255.''
      else if \<not> Number_isInteger v then Some ''Byte values must be integers.''
      else None)"

definition assertValidPortLetter :: "string \<Rightarrow> string option" where
  "assertValidPortLetter portLetter =
     (if portLetter \<notin> set [''A'', ''B'', ''C'', ''D'', ''E'']
      then Some ''Port letter must be A, B, C, D, or E.''
      else None)"

text \<open>A call of an asserting helper, followed by the rest of the body.\<close>

definition asserting :: "string option \<Rightarrow> 'a proc \<Rightarrow> 'a proc" where
  "asserting thrown rest = (case thrown of Some e \<Rightarrow> Throw e | None \<Rightarrow> rest)"

text \<open>A computed property \<open>{...obj, [key]: value}\<close>.\<close>

definition with_property :: "('k \<times> 'v) list \<Rightarrow> 'k \<Rightarrow> 'v \<Rightarrow> ('k \<times> 'v) list" where
  "with_property obj k v = AList.update k v obj"

definition analogValueGet :: "(number option \<times> number option) list proc" where
  "analogValueGet =
     Await ''A'' 1 (\<lambda>response.
       Return (foldl
         (\<lambda>readings channelValueStr.
            let parsed = map (\<lambda>v. parseInt v 10) (js_split channelValueStr '':'');
                channel = element parsed 0;
                val = element parsed 1
            in with_property readings channel val)
         [] (drop 1 (js_split response '',''))))"

definition analogConfigure :: "int \<Rightarrow> bool \<Rightarrow> unit proc" where
  "analogConfigure channel enabled =
     (if channel < 0 \<or> channel > 15
      then Throw (''Channel must be between 0 and 15. Is '' @ Number_toString channel)
      else Await (''AC,'' @ Number_toString channel @ '','' @
                  Number_toString (if enabled then 1 else 0)) 1 (\<lambda>response.
        if response \<noteq> ''OK'' then Throw (''Received unexpected response: '' @ response)
        else Return ()))"

text \<open>\<open>enterBootloader\<close> and \<open>reboot\<close> end with \<open>this.port.disconnect()\<close>, a call
  of the transport, which is not part of the protocol core.\<close>

definition enterBootloader :: "unit proc" where
  "enterBootloader = Await ''BL'' 1 (\<lambda>response. Return ())"

definition configurePinDirections :: "int \<Rightarrow> int \<Rightarrow> int \<Rightarrow> int \<Rightarrow> int \<Rightarrow> unit proc" where
  "configurePinDirections portA portB portC portD portE =
     asserting (assertByte portA) (
     asserting (assertByte portB) (
     asserting (assertByte portC) (
     asserting (assertByte portD) (
     asserting (assertByte portE) (
       Await (''C,'' @ Number_toString portA @ '','' @ Number_toString portB @ '','' @
              Number_toString portC @ '','' @ Number_toString portD @ '','' @
              Number_toString portE) 1 (\<lambda>response.
         if response \<noteq> ''OK'' then Throw (''Received unexpected response: '' @ response)
         else Return ()))))))"

definition clearStepPosition :: "unit proc" where
  "clearStepPosition =
     Await ''CS'' 1 (\<lambda>response.
       if response \<noteq> ''OK'' then Throw (''Received unexpected response: '' @ response)
       else Return ())"

text \<open>Parameters with a default value are optional: \<open>None\<close> is an omitted argument.\<close>

definition configureUserOptions :: "bool option \<Rightarrow> bool option \<Rightarrow> bool option \<Rightarrow> unit proc" where
  "configureUserOptions enableOkResponse0 enableParameterLimitChecking0 enableFifoLedIndicator0 =
     (let enableOkResponse = (case enableOkResponse0 of None \<Rightarrow> True | Some v \<Rightarrow> v);
          enableParameterLimitChecking =
            (case enableParameterLimitChecking0 of None \<Rightarrow> True | Some v \<Rightarrow> v);
          enableFifoLedIndicator =
            (case enableFifoLedIndicator0 of None \<Rightarrow> False | Some v \<Rightarrow> v)
      in Await (''CU,1,'' @ Number_toString (if enableOkResponse then 1 else 0)) 1 (\<lambda>r1.
         Await (''CU,2,'' @ Number_toString (if enableParameterLimitChecking then 1 else 0)) 1 (\<lambda>r2.
         Await (''CU,3,'' @ Number_toString (if enableFifoLedIndicator then 1 else 0)) 1 (\<lambda>r3.
         Return ()))))"

definition enableMotors :: "int \<Rightarrow> int \<Rightarrow> unit proc" where
  "enableMotors m1Mode m2Mode =
     Await (''EM,'' @ Number_toString m1Mode @ '','' @ Number_toString m2Mode) 1 (\<lambda>response.
       if response \<noteq> ''OK'' then Throw (''Received unexpected response: '' @ response)
       else Return ())"

record EStopInfo =
  interrupted :: bool
  fifoSteps :: "number list"
  stepsRemaining :: "number list"

text \<open>Calling \<open>split\<close> on \<open>undefined\<close> is a \<open>TypeError\<close>.\<close>

definition TypeError_split :: string where
  "TypeError_split = ''Cannot read properties of undefined (reading 'split')''"

definition emergencyStop :: "bool \<Rightarrow> EStopInfo proc" where
  "emergencyStop disableMotors =
     Await (if disableMotors then ''ES,1'' else ''ES'') 2 (\<lambda>response.
       if \<not> js_contains response [CR, LF] then Throw (''Unexpected response: '' @ response)
       else
         (let parts = js_split response [CR, LF];
              info = element parts 0;
              status = element parts 1
          in if status \<noteq> Some ''OK'' then Throw (''Unexpected response: '' @ response)
             else
               (case info of
                  None \<Rightarrow> Throw TypeError_split
                | Some info' \<Rightarrow>
                    (let fields = js_split info' '','' in
                     Return \<lparr>interrupted = (element fields 0 = Some ''1''),
                             fifoSteps = [parseInt_element (element fields 1) 10,
                                          parseInt_element (element fields 2) 10],
                             stepsRemaining = [parseInt_element (element fields 3) 10,
                                               parseInt_element (element fields 4) 10]\<rparr>))))"

definition absoluteMove :: "int \<Rightarrow> int option \<Rightarrow> int option \<Rightarrow> unit proc" where
  "absoluteMove stepFrequency position1' position2' =
     (let position1 = (case position1' of None \<Rightarrow> 0 | Some p \<Rightarrow> p);
          position2 = (case position2' of None \<Rightarrow> 0 | Some p \<Rightarrow> p);
          maxPosition = 4294967
      in if stepFrequency < 2 \<or> stepFrequency > 25000
         then Throw ''Step frequency must be between 2 and 25000.''
         else if position1 < - maxPosition \<or> position1 > maxPosition
         then Throw ''Motor 1 position must be between -4294967 and 4294967.''
         else if position2 < - maxPosition \<or> position2 > maxPosition
         then Throw ''Motor 2 position must be between -4294967 and 4294967.''
         else Await (''HM,'' @ Number_toString stepFrequency @ '','' @
                     Number_toString position1 @ '','' @ Number_toString position2) 1
                (\<lambda>response.
                   if response \<noteq> ''OK''
                   then Throw (''Received unexpected response: '' @ response)
                   else Return ()))"

definition getInput :: "number list proc" where
  "getInput =
     Await ''I'' 1 (\<lambda>response.
       if \<not> startsWith response ''I'' then Throw (''Received unexpected response: '' @ response)
       else
         (let portStates = drop 1 (js_split response '','') in
          Return (map (\<lambda>state. parseInt state 10) portStates)))"

definition lowLevelMove ::
  "int \<Rightarrow> int \<Rightarrow> int \<Rightarrow> bool \<Rightarrow> int \<Rightarrow> int \<Rightarrow> int \<Rightarrow> bool \<Rightarrow> unit proc" where
  "lowLevelMove m1Rate m1Steps m1Accel m1Clear m2Rate m2Steps m2Accel m2Clear =
     (if m1Rate < 0 \<or> m1Rate > 2 ^ 31 - 1
      then Throw ''Motor 1 rate must be between 0 and 2^31-1.''
      else if m2Rate < 0 \<or> m2Rate > 2 ^ 31 - 1
      then Throw ''Motor 2 rate must be between 0 and 2^31-1.''
      else if m1Steps < - (2 ^ 31) \<or> m1Steps > 2 ^ 31 - 1
      then Throw ''Motor 1 steps must be between -2^31 and 2^31-1.''
      else if m2Steps < - (2 ^ 31) \<or> m2Steps > 2 ^ 31 - 1
      then Throw ''Motor 2 steps must be between -2^31 and 2^31-1.''
      else if m1Accel < - (2 ^ 31) \<or> m1Accel > 2 ^ 31 - 1
      then Throw ''Motor 1 acceleration must be between -2^31 and 2^31-1.''
      else if m2Accel < - (2 ^ 31) \<or> m2Accel > 2 ^ 31 - 1
      then Throw ''Motor 2 acceleration must be between -2^31 and 2^31-1.''
      else
        (let clearValue = (if m2Clear then 2 else 0) + (if m1Clear then 1 else 0) in
         Await (''LM,'' @ Number_toString m1Rate @ '','' @ Number_toString m1Steps @ '','' @
                Number_toString m1Accel @ '','' @ Number_toString m2Rate @ '','' @
                Number_toString m2Steps @ '','' @ Number_toString m2Accel @ '','' @
                Number_toString clearValue) 1 (\<lambda>response.
           if response \<noteq> ''OK'' then Throw (''Received unexpected response: '' @ response)
           else Return ())))"

definition lowLevelMoveTimeLimited ::
  "int \<Rightarrow> int \<Rightarrow> int \<Rightarrow> bool \<Rightarrow> int \<Rightarrow> int \<Rightarrow> bool \<Rightarrow> unit proc" where
  "lowLevelMoveTimeLimited intervals m1Rate m1Accel m1Clear m2Rate m2Accel m2Clear =
     (if m1Rate < 0 \<or> m1Rate > 2 ^ 31 - 1
      then Throw ''Motor 1 rate must be between 0 and 2^31-1.''
      else if m2Rate < 0 \<or> m2Rate > 2 ^ 31 - 1
      then Throw ''Motor 2 rate must be between 0 and 2^31-1.''
      else if m1Accel < - (2 ^ 31) \<or> m1Accel > 2 ^ 31 - 1
      then Throw ''Motor 1 acceleration must be between -2^31 and 2^31-1.''
      else if m2Accel < - (2 ^ 31) \<or> m2Accel > 2 ^ 31 - 1
      then Throw ''Motor 2 acceleration must be between -2^31 and 2^31-1.''
      else
        (let clearValue = (if m2Clear then 2 else 0) + (if m1Clear then 1 else 0) in
         Await (''LT,'' @ Number_toString intervals @ '','' @ Number_toString m1Rate @ '','' @
                Number_toString m1Accel @ '','' @ Number_toString m2Rate @ '','' @
                Number_toString m2Accel @ '','' @ Number_toString clearValue) 1 (\<lambda>response.
           if response \<noteq> ''OK'' then Throw (''Received unexpected response: '' @ response)
           else Return ())))"

definition memoryRead :: "int \<Rightarrow> number proc" where
  "memoryRead address =
     (if address < 0 \<or> address > 4095 then Throw ''Address must be between 0 and 4095.''
      else Await (''MR,'' @ Number_toString address) 1 (\<lambda>response.
        (let fields = js_split response '','';
             cmdName = element fields 0;
             val = element fields 1
         in if cmdName \<noteq> Some ''MR'' then Throw (''Received unexpected response: '' @ response)
            else Return (parseInt_element val 10))))"

definition memoryWrite :: "int \<Rightarrow> int \<Rightarrow> unit proc" where
  "memoryWrite address val =
     (if address < 0 \<or> address > 4095 then Throw ''Address must be between 0 and 4095.''
      else asserting (assertByte val) (
        Await (''MW,'' @ Number_toString address @ '','' @ Number_toString val) 1 (\<lambda>response.
          if response \<noteq> ''OK'' then Throw (''Received unexpected response: '' @ response)
          else Return ())))"

definition nodeCountDecrement :: "unit proc" where
  "nodeCountDecrement =
     Await ''ND'' 1 (\<lambda>response.
       if response \<noteq> ''OK'' then Throw (''Received unexpected response: '' @ response)
       else Return ())"

definition nodeCountIncrement :: "unit proc" where
  "nodeCountIncrement =
     Await ''NI'' 1 (\<lambda>response.
       if response \<noteq> ''OK'' then Throw (''Received unexpected response: '' @ response)
       else Return ())"

definition setOutputs :: "int \<Rightarrow> int \<Rightarrow> int \<Rightarrow> int \<Rightarrow> int \<Rightarrow> unit proc" where
  "setOutputs portA portB portC portD portE =
     asserting (assertByte portA) (
     asserting (assertByte portB) (
     asserting (assertByte portC) (
     asserting (assertByte portD) (
     asserting (assertByte portE) (
       Await (''O,'' @ Number_toString portA @ '','' @ Number_toString portB @ '','' @
              Number_toString portC @ '','' @ Number_toString portD @ '','' @
              Number_toString portE) 1 (\<lambda>response.
         if response \<noteq> ''OK'' then Throw (''Received unexpected response: '' @ response)
         else Return ()))))))"

definition pulseConfigure ::
  "int \<Rightarrow> int \<Rightarrow> int \<Rightarrow> int \<Rightarrow> int \<Rightarrow> int \<Rightarrow> int \<Rightarrow> int \<Rightarrow> unit proc" where
  "pulseConfigure duration0 period0 duration1 period1 duration2 period2 duration3 period3 =
     Await (''PC,'' @ Number_toString duration0 @ '','' @ Number_toString period0 @ '','' @
            Number_toString duration1 @ '','' @ Number_toString period1 @ '','' @
            Number_toString duration2 @ '','' @ Number_toString period2 @ '','' @
            Number_toString duration3 @ '','' @ Number_toString period3) 1 (\<lambda>response.
       if response \<noteq> ''OK'' then Throw (''Received unexpected response: '' @ response)
       else Return ())"

definition setPinDirection :: "string \<Rightarrow> int \<Rightarrow> bool \<Rightarrow> unit proc" where
  "setPinDirection portLetter pinIndex isOutput =
     asserting (assertValidPortLetter portLetter) (
       if pinIndex < 0 \<or> pinIndex > 7 then Throw ''Pin index must be between 0 and 7.''
       else Await (''PD,'' @ portLetter @ '','' @ Number_toString pinIndex @ '','' @
                   Number_toString (if isOutput then 0 else 1)) 1 (\<lambda>response.
         if response \<noteq> ''OK'' then Throw (''Received unexpected response: '' @ response)
         else Return ()))"

definition pulseGo :: "bool \<Rightarrow> unit proc" where
  "pulseGo enabled =
     Await (''PG,'' @ Number_toString (if enabled then 1 else 0)) 1 (\<lambda>response.
       if response \<noteq> ''OK'' then Throw (''Received unexpected response: '' @ response)
       else Return ())"

definition pinInput :: "string \<Rightarrow> int \<Rightarrow> bool proc" where
  "pinInput portLetter pinIndex =
     asserting (assertValidPortLetter portLetter) (
       if pinIndex < 0 \<or> pinIndex > 7 then Throw ''Pin index must be between 0 and 7.''
       else Await (''PI,'' @ portLetter @ '','' @ Number_toString pinIndex) 1 (\<lambda>response.
         (let fields = js_split response '','';
              cmd' = element fields 0;
              val = element fields 1
          in if cmd' \<noteq> Some ''PI'' then Throw (''Received unexpected response: '' @ response)
             else Return (val = Some ''1''))))"

definition pinOutput :: "string \<Rightarrow> int \<Rightarrow> bool \<Rightarrow> unit proc" where
  "pinOutput portLetter pinIndex setPinHigh =
     asserting (assertValidPortLetter portLetter) (
       if pinIndex < 0 \<or> pinIndex > 7 then Throw ''Pin index must be between 0 and 7.''
       else Await (''PO,'' @ portLetter @ '','' @ Number_toString pinIndex @ '','' @
                   Number_toString (if setPinHigh then 1 else 0)) 1 (\<lambda>response.
         if response \<noteq> ''OK'' then Throw (''Received unexpected response: '' @ response)
         else Return ()))"

text \<open>
  The query operations that reply with a data line and an \<open>OK\<close> line share their
  opening lines: the joined response must contain the line break, and its second part
  must be \<open>OK\<close>. \<open>data_and_OK response k\<close> is that check followed by the rest \<open>k\<close> of the
  body, applied to the first part.
\<close>

definition data_and_OK :: "string \<Rightarrow> (string option \<Rightarrow> 'a proc) \<Rightarrow> 'a proc" where
  "data_and_OK response k =
     (if \<not> js_contains response [CR, LF] then Throw (''Unexpected response: '' @ response)
      else
        (let parts = js_split response [CR, LF];
             first = element parts 0;
             status = element parts 1
         in if status \<noteq> Some ''OK'' then Throw (''Unexpected response: '' @ response)
            else k first))"

definition queryButton :: "bool proc" where
  "queryButton =
     Await ''QB'' 2 (\<lambda>response.
       data_and_OK response (\<lambda>buttonStatus. Return (buttonStatus = Some ''1'')))"

text \<open>
  \<open>queryCurrent\<close> converts the two raw ADC readings to a current and a voltage in
  floating point. The model stops at the raw readings and the board revision flag.
\<close>

definition queryCurrent :: "bool option \<Rightarrow> (bool \<times> number option \<times> number option) proc" where
  "queryCurrent oldBoard' =
     (let oldBoard = (case oldBoard' of None \<Rightarrow> False | Some v \<Rightarrow> v) in
      Await ''QC'' 2 (\<lambda>response.
        data_and_OK response (\<lambda>currentStatus.
          case currentStatus of
            None \<Rightarrow> Throw TypeError_split
          | Some currentStatus' \<Rightarrow>
              (let raw = map (\<lambda>voltage. parseInt voltage 10) (js_split currentStatus' '','');
                   ra0VoltageRaw = element raw 0;
                   vpVoltageRaw = element raw 1
               in Return (oldBoard, ra0VoltageRaw, vpVoltageRaw)))))"

text \<open>The object \<open>motorStates\<close>; its keys are the property keys of the parsed modes.\<close>

definition motorStates :: "number option \<Rightarrow> int option" where
  "motorStates k =
     (if k = Some (Num 0) then Some MOTOR_DISABLE
      else if k = Some (Num 1) then Some MOTOR_STEP_DIV1
      else if k = Some (Num 2) then Some MOTOR_STEP_DIV2
      else if k = Some (Num 4) then Some MOTOR_STEP_DIV4
      else if k = Some (Num 8) then Some MOTOR_STEP_DIV8
      else if k = Some (Num 16) then Some MOTOR_STEP_DIV16
      else None)"

definition queryMotorConfig :: "int option list proc" where
  "queryMotorConfig =
     Await ''QE'' 2 (\<lambda>response.
       data_and_OK response (\<lambda>motorStatus.
         case motorStatus of
           None \<Rightarrow> Throw TypeError_split
         | Some motorStatus' \<Rightarrow>
             (let modes = map (\<lambda>mode. parseInt mode 10) (js_split motorStatus' '','');
                  m1Mode = element modes 0;
                  m2Mode = element modes 1
              in if motorStates m1Mode = None \<or> motorStates m2Mode = None
                 then Throw (''Unexpected response: '' @ response)
                 else Return [motorStates m1Mode, motorStates m2Mode])))"

record GeneralStatus =
  pinRB5 :: bool
  pinRB2 :: bool
  buttonPrg :: bool
  penDown :: bool
  commandExecuting :: bool
  motor1Moving :: bool
  motor2Moving :: bool
  fifoEmpty :: bool

text \<open>\<open>(byte & (1 << bit)) > 0\<close>: the shift count is taken modulo 32, the comparison is
  on the signed 32-bit result.\<close>

definition bitSet :: "number \<Rightarrow> nat \<Rightarrow> bool" where
  "bitSet byte b = (sint (ToInt32 byte AND push_bit (b mod 32) 1) > 0)"

definition queryGeneral :: "GeneralStatus proc" where
  "queryGeneral =
     Await ''QG'' 1 (\<lambda>response.
       (let statusByte = parseInt response 16 in
        Return \<lparr>pinRB5 = bitSet statusByte 7,
                pinRB2 = bitSet statusByte 6,
                buttonPrg = bitSet statusByte 5,
                penDown = bitSet statusByte 4,
                commandExecuting = bitSet statusByte 3,
                motor1Moving = bitSet statusByte 2,
                motor2Moving = bitSet statusByte 1,
                fifoEmpty = (\<not> bitSet statusByte 0)\<rparr>))"

text \<open>\<open>queryLayer\<close> has no test for the line break; it destructures at once.\<close>

definition queryLayer :: "number proc" where
  "queryLayer =
     Await ''QL'' 2 (\<lambda>response.
       (let parts = js_split response [CR, LF];
            currentLayerStr = element parts 0;
            status = element parts 1
        in if status \<noteq> Some ''OK'' then Throw (''Unexpected response: '' @ response)
           else Return (parseInt_element currentLayerStr 10)))"

record MotorStatus =
  executingMotion :: bool
  motorMoving :: "bool list"
  motorFifoEmpty :: bool

text \<open>A comparison with \<open>NaN\<close> is false.\<close>

definition number_greater :: "number \<Rightarrow> int \<Rightarrow> bool" where
  "number_greater x n = (case x of NaN \<Rightarrow> False | Num m \<Rightarrow> m > n)"

definition number_equals :: "number \<Rightarrow> int \<Rightarrow> bool" where
  "number_equals x n = (case x of NaN \<Rightarrow> False | Num m \<Rightarrow> m = n)"

definition queryMotors :: "MotorStatus proc" where
  "queryMotors =
     Await ''QM'' 1 (\<lambda>response.
       if \<not> startsWith response ''QM,'' then Throw (''Unexpected response: '' @ response)
       else
         (let fields = js_split response '','';
              cmdStatus = element fields 1;
              m1Status = element fields 2;
              m2Status = element fields 3;
              fifoStatus = element fields 4
          in Return \<lparr>executingMotion = number_greater (parseInt_element cmdStatus 10) 0,
                     motorMoving = [m1Status = Some ''1'', m2Status = Some ''1''],
                     motorFifoEmpty = number_equals (parseInt_element fifoStatus 10) 0\<rparr>))"

definition queryPen :: "bool proc" where
  "queryPen =
     Await ''QP'' 2 (\<lambda>response.
       data_and_OK response (\<lambda>penStatus.
         Return (number_equals (parseInt_element penStatus 10) PEN_DOWN)))"

definition queryServoPower :: "bool proc" where
  "queryServoPower =
     Await ''QR'' 2 (\<lambda>response.
       data_and_OK response (\<lambda>servoPower.
         Return (number_equals (parseInt_element servoPower 10) SERVO_POWER_ON)))"

definition queryStepPosition :: "number list proc" where
  "queryStepPosition =
     Await ''QS'' 2 (\<lambda>response.
       data_and_OK response (\<lambda>stepPosition.
         case stepPosition of
           None \<Rightarrow> Throw TypeError_split
         | Some stepPosition' \<Rightarrow>
             (let fields = js_split stepPosition' '','';
                  m1Steps = element fields 0;
                  m2Steps = element fields 1
              in Return [parseInt_element m1Steps 10, parseInt_element m2Steps 10])))"

definition queryNickname :: "string option proc" where
  "queryNickname =
     Await ''QT'' 2 (\<lambda>response. data_and_OK response (\<lambda>name. Return name))"

definition reboot :: "unit proc" where
  "reboot = Await ''RB'' 1 (\<lambda>response. Return ())"

definition reset :: "unit proc" where
  "reset =
     Await ''R'' 1 (\<lambda>response.
       if response \<noteq> ''OK'' then Throw (''Unexpected response: '' @ response)
       else Return ())"

definition queryNodeCount :: "number proc" where
  "queryNodeCount =
     Await ''QN'' 2 (\<lambda>response.
       data_and_OK response (\<lambda>nodeCount. Return (parseInt_element nodeCount 10)))"

definition queryVersion :: "string proc" where
  "queryVersion = Await ''V'' 1 (\<lambda>response. Return response)"

definition servoOutput :: "int \<Rightarrow> int \<Rightarrow> int \<Rightarrow> int \<Rightarrow> unit proc" where
  "servoOutput position pinIndex rate delay =
     (if position < 0 \<or> position > 2 ^ 16 - 1
      then Throw ''Position must be between 0 and 2^16 - 1''
      else if pinIndex < 0 \<or> pinIndex > 24
      then Throw ''Pin index must be between 0 and 24''
      else if rate < 0 \<or> rate > 2 ^ 16 - 1
      then Throw ''Rate must be between 0 and 2^16 - 1''
      else if delay < 0 \<or> delay > 2 ^ 16 - 1
      then Throw ''Delay must be between 0 and 2^16 - 1''
      else Await (''S2,'' @ Number_toString position @ '','' @ Number_toString pinIndex @ '','' @
                  Number_toString rate @ '','' @ Number_toString delay) 1 (\<lambda>response.
        if response \<noteq> ''OK'' then Throw (''Unexpected response: '' @ response)
        else Return ()))"

text \<open>The \<open>switch\<close> of \<open>stepperAndServoModeConfigure\<close>: the command string, or the error
  thrown.\<close>

definition stepperAndServoModeConfigure_command :: "int \<Rightarrow> int \<Rightarrow> string + string" where
  "stepperAndServoModeConfigure_command paramIndex paramValue =
     (if paramIndex = 1 then
        (if paramValue < 0 \<or> paramValue > 2
         then Inl ''Parameter value must be between 0 and 2''
         else Inr (''SC,1,'' @ Number_toString paramValue))
      else if paramIndex = 2 then
        (if paramValue < 0 \<or> paramValue > 2
         then Inl ''Parameter value must be between 0 and 2''
         else Inr (''SC,2,'' @ Number_toString paramValue))
      else if paramIndex = 4 then
        (if paramValue < 1 \<or> paramValue > 2 ^ 16 - 1
         then Inl ''Parameter value must be between 1 and 2^16 - 1''
         else Inr (''SC,4,'' @ Number_toString paramValue))
      else if paramIndex = 5 then
        (if paramValue < 1 \<or> paramValue > 2 ^ 16 - 1
         then Inl ''Parameter value must be between 1 and 2^16 - 1''
         else Inr (''SC,5,'' @ Number_toString paramValue))
      else if paramIndex = 8 then
        (if paramValue < 1 \<or> paramValue > 24
         then Inl ''Parameter value must be between 1 and 24''
         else Inr (''SC,8,'' @ Number_toString paramValue))
      else if paramIndex = 9 then
        (if paramValue < 1 \<or> paramValue > 6
         then Inl ''Parameter value must be between 1 and 6''
         else Inr (''SC,9,'' @ Number_toString paramValue))
      else if paramIndex = 10 then
        (if paramValue < 0 \<or> paramValue > 2 ^ 16 - 1
         then Inl ''Parameter value must be between 0 and 2^16 - 1''
         else Inr (''SC,10,'' @ Number_toString paramValue))
      else if paramIndex = 11 then
        (if paramValue < 0 \<or> paramValue > 2 ^ 16 - 1
         then Inl ''Parameter value must be between 0 and 2^16 - 1''
         else Inr (''SC,11,'' @ Number_toString paramValue))
      else if paramIndex = 12 then
        (if paramValue < 0 \<or> paramValue > 2 ^ 16 - 1
         then Inl ''Parameter value must be between 0 and 2^16 - 1''
         else Inr (''SC,12,'' @ Number_toString paramValue))
      else if paramIndex = 13 then
        (if paramValue < 0 \<or> paramValue > 1
         then Inl ''Parameter value must be between 0 and 1''
         else Inr (''SC,13,'' @ Number_toString paramValue))
      else Inl (''Parameter index '' @ Number_toString paramIndex @ '' not allowed''))"

definition stepperAndServoModeConfigure :: "int \<Rightarrow> int \<Rightarrow> unit proc" where
  "stepperAndServoModeConfigure paramIndex paramValue =
     (case stepperAndServoModeConfigure_command paramIndex paramValue of
        Inl e \<Rightarrow> Throw e
      | Inr command' \<Rightarrow>
          Await command' 1 (\<lambda>response.
            if response \<noteq> ''OK'' then Throw (''Unexpected response: '' @ response)
            else Return ()))"

definition setEngraver :: "bool \<Rightarrow> int \<Rightarrow> bool \<Rightarrow> unit proc" where
  "setEngraver enableEngraver power' useMotionQueue =
     (if power' < 0 \<or> power' > 1023 then Throw ''Power must be between 0 and 1023''
      else Await (''SE,'' @ Number_toString (if enableEngraver then 1 else 0) @ '','' @
                  Number_toString power' @ '','' @
                  Number_toString (if useMotionQueue then 1 else 0)) 1 (\<lambda>response.
        if response \<noteq> ''OK'' then Throw (''Unexpected response: '' @ response)
        else Return ()))"

definition setLayer :: "int \<Rightarrow> unit proc" where
  "setLayer layerValue =
     (if layerValue < 0 \<or> layerValue > 127 then Throw ''Layer value must be between 0 and 127''
      else Await (''SL,'' @ Number_toString layerValue) 1 (\<lambda>response.
        if response \<noteq> ''OK'' then Throw (''Unexpected response: '' @ response)
        else Return ()))"

definition stepperMove :: "int \<Rightarrow> int \<Rightarrow> int \<Rightarrow> unit proc" where
  "stepperMove duration m1Steps m2Steps =
     (if duration < 1 \<or> duration > 2 ^ 24 - 1
      then Throw ''Duration must be between 1 and 2^24 - 1''
      else if m1Steps < - (2 ^ 24) \<or> m1Steps > 2 ^ 24 - 1
      then Throw ''M1 steps must be between -2^24 and 2^24 - 1''
      else if m2Steps < - (2 ^ 24) \<or> m2Steps > 2 ^ 24 - 1
      then Throw ''M2 steps must be between -2^24 and 2^24 - 1''
      else Await (''SM,'' @ Number_toString duration @ '','' @ Number_toString m1Steps @ '','' @
                  Number_toString m2Steps) 1 (\<lambda>response.
        if response \<noteq> ''OK'' then Throw (''Unexpected response: '' @ response)
        else Return ()))"

definition setNodeCount :: "int \<Rightarrow> unit proc" where
  "setNodeCount val =
     (if val < 0 \<or> val \<ge> 2 ^ 32 then Throw ''Node count must be between 0 and 2^32''
      else Await (''SN,'' @ Number_toString val) 1 (\<lambda>response.
        if response \<noteq> ''OK'' then Throw (''Unexpected response: '' @ response)
        else Return ()))"

text \<open>Optional parameters without a default: \<open>None\<close> is \<open>undefined\<close>.\<close>

definition setPenState :: "bool \<Rightarrow> int option \<Rightarrow> int option \<Rightarrow> unit proc" where
  "setPenState penDown' duration portBPin =
     (if duration \<noteq> None \<and> (the duration < 1 \<or> the duration \<ge> 2 ^ 16)
      then Throw ''Duration must be between 1 and 2^16''
      else if portBPin \<noteq> None \<and> (the portBPin < 0 \<or> the portBPin > 7)
      then Throw ''Port B pin must be between 0 and 7''
      else
        (let penState = (if penDown' then PEN_DOWN else PEN_UP);
             check = (\<lambda>response.
               if response \<noteq> ''OK'' then Throw (''Unexpected response: '' @ response)
               else Return ())
         in if duration \<noteq> None \<and> portBPin \<noteq> None
            then Await (''SP,'' @ Number_toString penState @ '','' @
                        Number_toString (the duration) @ '','' @
                        Number_toString (the portBPin)) 1 check
            else if duration \<noteq> None
            then Await (''SP,'' @ Number_toString penState @ '','' @
                        Number_toString (the duration)) 1 check
            else Await (''SP,'' @ Number_toString penState) 1 check))"

definition setServoPowerTimeout :: "int \<Rightarrow> bool \<Rightarrow> unit proc" where
  "setServoPowerTimeout duration setPowerOn =
     (if duration < 0 \<or> duration \<ge> 2 ^ 32 then Throw ''Duration must be between 0 and 2^32''
      else Await (''SR,'' @ Number_toString duration @ '','' @
                  Number_toString (if setPowerOn then 1 else 0)) 1 (\<lambda>response.
        if response \<noteq> ''OK'' then Throw (''Unexpected response: '' @ response)
        else Return ()))"

definition setNickname :: "string \<Rightarrow> unit proc" where
  "setNickname nickname =
     (if length nickname > 16 then Throw ''Nickname must be 16 characters or less''
      else Await (''ST,'' @ nickname) 1 (\<lambda>response.
        if response \<noteq> ''OK'' then Throw (''Unexpected response: '' @ response)
        else Return ()))"

definition timedRead :: "int \<Rightarrow> bool \<Rightarrow> unit proc" where
  "timedRead duration digitalMode =
     (if duration < 1 \<or> duration \<ge> 2 ^ 16 then Throw ''Duration must be between 1 and 2^16''
      else
        (let mode = (if digitalMode then MODE_DIGITAL else MODE_ANALOG) in
         Await (''T,'' @ Number_toString duration @ '','' @ Number_toString mode) 1 (\<lambda>response.
           if response \<noteq> ''OK'' then Throw (''Unexpected response: '' @ response)
           else Return ())))"

text \<open>The test \<open>if (duration)\<close>: \<open>undefined\<close> and \<open>0\<close> are falsy.\<close>

definition truthy :: "int option \<Rightarrow> bool" where
  "truthy v = (case v of None \<Rightarrow> False | Some n \<Rightarrow> n \<noteq> 0)"

definition togglePen :: "int option \<Rightarrow> unit proc" where
  "togglePen duration =
     (if truthy duration then
        (if the duration < 1 \<or> the duration \<ge> 2 ^ 16
         then Throw ''Duration must be between 0 and 2^16''
         else Await (''TP,'' @ Number_toString (Math_floor (the duration))) 1
                (\<lambda>response. Return ()))
      else
        Await ''TP'' 1 (\<lambda>response.
          if response \<noteq> ''OK'' then Throw (''Unexpected response: '' @ response)
          else Return ()))"

definition stepperMoveMixedAxis :: "int \<Rightarrow> int \<Rightarrow> int \<Rightarrow> unit proc" where
  "stepperMoveMixedAxis durationMs stepsA stepsB =
     (if durationMs < 1 \<or> durationMs \<ge> 2 ^ 24
      then Throw ''Duration must be between 1 and 2^24 milliseconds''
      else if stepsA \<le> - (2 ^ 24) \<or> stepsA \<ge> 2 ^ 24
      then Throw ''Steps A must be between 0 and 2^24''
      else if stepsB < - (2 ^ 24) \<or> stepsB \<ge> 2 ^ 24
      then Throw ''Steps B must be between 0 and 2^24''
      else Await (''XM,'' @ Number_toString (Math_floor durationMs) @ '','' @
                  Number_toString (Math_floor stepsA) @ '','' @
                  Number_toString (Math_floor stepsB)) 1 (\<lambda>response.
        if response \<noteq> ''OK'' then Throw (''Unexpected response: '' @ response)
        else Return ()))"

section \<open>Performing an operation against a device\<close>

text \<open>
  What the caller of an operation observes: the value its promise is fulfilled with, the
  error it is rejected with, or a promise that never settles.

  \<open>perform\<close> runs an operation on a board the way the test suite drives it: the device
  answers inside \<open>print\<close>, emitting its reply lines for the string written, then the
  print promise resolves and the chained callback runs. A command queued behind
  another is not written. When the reply does not fulfil the returned promise the timer
  fires.
\<close>

datatype 'a outcome = Resolved 'a | RejectedWith string | NeverSettles

primrec perform :: "'a proc \<Rightarrow> (string \<Rightarrow> string list) \<Rightarrow> board \<Rightarrow> 'a outcome \<times> board" where
  "perform (Return v) device b = (Resolved v, b)"
| "perform (Throw e) device b = (RejectedWith e, b)"
| "perform (Await c n k) device b =
     (let i = length (store b);
          b1 = command c n 3000 b;
          b2 = (if printing (store b1 ! i) = Writing
                then print_resolved i (foldl (\<lambda>s l. on_line l s) b1 (device (c @ [CR])))
                else b1);
          b3 = continuation i b2
      in case returned (store b3 ! i) of
           Fulfilled response \<Rightarrow> perform (k response) device b3
         | _ \<Rightarrow> (NeverSettles, on_timeout i b3))"

text \<open>Every operation of the board, with its arguments.\<close>

datatype request =
    AnalogValueGet
  | AnalogConfigure int bool
  | EnterBootloader
  | ConfigurePinDirections int int int int int
  | ClearStepPosition
  | ConfigureUserOptions "bool option" "bool option" "bool option"
  | EnableMotors int int
  | EmergencyStop bool
  | AbsoluteMove int "int option" "int option"
  | GetInput
  | LowLevelMove int int int bool int int int bool
  | LowLevelMoveTimeLimited int int int bool int int bool
  | MemoryRead int
  | MemoryWrite int int
  | NodeCountDecrement
  | NodeCountIncrement
  | SetOutputs int int int int int
  | PulseConfigure int int int int int int int int
  | SetPinDirection string int bool
  | PulseGo bool
  | PinInput string int
  | PinOutput string int bool
  | QueryButton
  | QueryCurrent "bool option"
  | QueryMotorConfig
  | QueryGeneral
  | QueryLayer
  | QueryMotors
  | QueryPen
  | QueryServoPower
  | QueryStepPosition
  | QueryNickname
  | Reboot
  | Reset
  | ServoOutput int int int int
  | StepperAndServoModeConfigure int int
  | SetEngraver bool int bool
  | SetLayer int
  | StepperMove int int int
  | SetNodeCount int
  | SetPenState bool "int option" "int option"
  | SetServoPowerTimeout int bool
  | SetNickname string
  | TimedRead int bool
  | TogglePen "int option"
  | QueryNodeCount
  | QueryVersion
  | StepperMoveMixedAxis int int int

text \<open>An operation with its result dropped: what is left is what it sends, what it
  expects, and whether it fails.\<close>

definition effect :: "'a proc \<Rightarrow> unit proc" where
  "effect p = map_proc (\<lambda>_. ()) p"

primrec invoke :: "request \<Rightarrow> unit proc" where
  "invoke AnalogValueGet = effect analogValueGet"
| "invoke (AnalogConfigure channel enabled) = effect (analogConfigure channel enabled)"
| "invoke EnterBootloader = effect enterBootloader"
| "invoke (ConfigurePinDirections a b c d e) = effect (configurePinDirections a b c d e)"
| "invoke ClearStepPosition = effect clearStepPosition"
| "invoke (ConfigureUserOptions a b c) = effect (configureUserOptions a b c)"
| "invoke (EnableMotors m1 m2) = effect (enableMotors m1 m2)"
| "invoke (EmergencyStop d) = effect (emergencyStop d)"
| "invoke (AbsoluteMove f p1 p2) = effect (absoluteMove f p1 p2)"
| "invoke GetInput = effect getInput"
| "invoke (LowLevelMove r1 s1 a1 c1 r2 s2 a2 c2) = effect (lowLevelMove r1 s1 a1 c1 r2 s2 a2 c2)"
| "invoke (LowLevelMoveTimeLimited i r1 a1 c1 r2 a2 c2) =
     effect (lowLevelMoveTimeLimited i r1 a1 c1 r2 a2 c2)"
| "invoke (MemoryRead a) = effect (memoryRead a)"
| "invoke (MemoryWrite a v) = effect (memoryWrite a v)"
| "invoke NodeCountDecrement = effect nodeCountDecrement"
| "invoke NodeCountIncrement = effect nodeCountIncrement"
| "invoke (SetOutputs a b c d e) = effect (setOutputs a b c d e)"
| "invoke (PulseConfigure d0 p0 d1 p1 d2 p2 d3 p3) = effect (pulseConfigure d0 p0 d1 p1 d2 p2 d3 p3)"
| "invoke (SetPinDirection l i out) = effect (setPinDirection l i out)"
| "invoke (PulseGo enabled) = effect (pulseGo enabled)"
| "invoke (PinInput l i) = effect (pinInput l i)"
| "invoke (PinOutput l i h) = effect (pinOutput l i h)"
| "invoke QueryButton = effect queryButton"
| "invoke (QueryCurrent old) = effect (queryCurrent old)"
| "invoke QueryMotorConfig = effect queryMotorConfig"
| "invoke QueryGeneral = effect queryGeneral"
| "invoke QueryLayer = effect queryLayer"
| "invoke QueryMotors = effect queryMotors"
| "invoke QueryPen = effect queryPen"
| "invoke QueryServoPower = effect queryServoPower"
| "invoke QueryStepPosition = effect queryStepPosition"
| "invoke QueryNickname = effect queryNickname"
| "invoke Reboot = effect reboot"
| "invoke Reset = effect reset"
| "invoke (ServoOutput p i r d) = effect (servoOutput p i r d)"
| "invoke (StepperAndServoModeConfigure i v) = effect (stepperAndServoModeConfigure i v)"
| "invoke (SetEngraver e p q) = effect (setEngraver e p q)"
| "invoke (SetLayer v) = effect (setLayer v)"
| "invoke (StepperMove d s1 s2) = effect (stepperMove d s1 s2)"
| "invoke (SetNodeCount v) = effect (setNodeCount v)"
| "invoke (SetPenState down d p) = effect (setPenState down d p)"
| "invoke (SetServoPowerTimeout d on) = effect (setServoPowerTimeout d on)"
| "invoke (SetNickname n) = effect (setNickname n)"
| "invoke (TimedRead d m) = effect (timedRead d m)"
| "invoke (TogglePen d) = effect (togglePen d)"
| "invoke QueryNodeCount = effect queryNodeCount"
| "invoke QueryVersion = effect queryVersion"
| "invoke (StepperMoveMixedAxis d a b) = effect (stepperMoveMixedAxis d a b)"

section \<open>Notions used in the properties\<close>

text \<open>The command strings passed to \<open>command\<close> by a schedule, in call order.\<close>

fun issued :: "event \<Rightarrow> string list" where
  "issued (Call c n t) = [c]"
| "issued _ = []"

definition calls :: "event list \<Rightarrow> string list" where
  "calls evs = concat (map issued evs)"

text \<open>A command is in flight from the call of \<open>print\<close> until the promise returned to its
  caller is settled.\<close>

definition in_flight :: "pending_command \<Rightarrow> bool" where
  "in_flight e \<longleftrightarrow> printing e \<noteq> NotCalled \<and> returned e = Pending"


text \<open>
  The shape of every reachable board: the calls before position \<open>k\<close> are complete, the
  call at \<open>k\<close> is the one written and awaited, the later ones wait in \<open>pending\<close>
  unwritten.
\<close>

definition queue_inv :: "board \<Rightarrow> bool" where
  "queue_inv b \<longleftrightarrow> (\<exists>k \<le> length (store b).
      pending b = [k..<length (store b)] \<and>
      port_written b = map (\<lambda>e. cmd e @ [CR]) (take (Suc k) (store b)) \<and>
      (\<forall>i<length (store b).
          (i < k \<longrightarrow> (\<exists>r. responsePromise (store b ! i) = Fulfilled r \<and> returned (store b ! i) = Fulfilled r)
                       \<and> printing (store b ! i) = Flushed) \<and>
          (k \<le> i \<longrightarrow> returned (store b ! i) = Pending) \<and>
          (k < i \<longrightarrow> printing (store b ! i) = NotCalled) \<and>
          (i = k \<longrightarrow> printing (store b ! i) \<noteq> NotCalled)))"


text \<open>A board whose head command has timed out.\<close>

definition stalled :: "nat \<Rightarrow> board \<Rightarrow> bool" where
  "stalled c b \<longleftrightarrow> queue_inv b \<and> c < length (store b) \<and> pending b \<noteq> [] \<and> hd (pending b) = c \<and>
     (\<exists>m. responsePromise (store b ! c) = Rejected m) \<and> returned (store b ! c) = Pending"


text \<open>Two commands are issued to a device that never answers, and the first timer fires.\<close>

definition silent_device :: "event list" where
  "silent_device = [Call ''QG'' 1 3000, Call ''QP'' 2 3000, PrintResolves 0, TimerFires 0]"


text \<open>Three commands are issued at once; the replies arrive as each is written.\<close>

definition three_commands :: "event list" where
  "three_commands =
     [Call ''QG'' 1 3000, Call ''QP'' 2 3000, Call ''EM,1,1'' 1 3000,
      PrintResolves 0, Line ''3E'', Continue 0,
      PrintResolves 1, Line ''1'', Line ''OK'', Continue 1,
      Line ''OK'', PrintResolves 2, Continue 2]"

text \<open>An operation that has no further command to send, and what its caller then
  observes.\<close>

fun final :: "'a proc \<Rightarrow> bool" where
  "final (Await c n k) = False"
| "final _ = True"

fun verdict :: "'a proc \<Rightarrow> 'a outcome" where
  "verdict (Return v) = Resolved v"
| "verdict (Throw e) = RejectedWith e"
| "verdict (Await c n k) = NeverSettles"

text \<open>The command string an operation passes to its first call of \<open>command\<close>.\<close>

definition sends :: "'a proc \<Rightarrow> string option" where
  "sends p = (case p of Await c n k \<Rightarrow> Some c | _ \<Rightarrow> None)"

text \<open>
  What each operation checks in its reply: the operations that require the single reply
  line to be \<open>OK\<close>, the operations whose reply line must start with a tag, and the
  queries whose reply is a data line followed by an \<open>OK\<close> line. The other operations
  (\<open>analogValueGet\<close>, \<open>enterBootloader\<close>, \<open>configureUserOptions\<close>, \<open>queryGeneral\<close>,
  \<open>reboot\<close>, \<open>queryVersion\<close>, and \<open>togglePen\<close> with a duration) check nothing.
\<close>

definition acknowledged :: "request \<Rightarrow> bool" where
  "acknowledged r =
     (case r of
        AnalogConfigure _ _ \<Rightarrow> True
      | ConfigurePinDirections _ _ _ _ _ \<Rightarrow> True
      | ClearStepPosition \<Rightarrow> True
      | EnableMotors _ _ \<Rightarrow> True
      | AbsoluteMove _ _ _ \<Rightarrow> True
      | LowLevelMove _ _ _ _ _ _ _ _ \<Rightarrow> True
      | LowLevelMoveTimeLimited _ _ _ _ _ _ _ \<Rightarrow> True
      | MemoryWrite _ _ \<Rightarrow> True
      | NodeCountDecrement \<Rightarrow> True
      | NodeCountIncrement \<Rightarrow> True
      | SetOutputs _ _ _ _ _ \<Rightarrow> True
      | PulseConfigure _ _ _ _ _ _ _ _ \<Rightarrow> True
      | SetPinDirection _ _ _ \<Rightarrow> True
      | PulseGo _ \<Rightarrow> True
      | PinOutput _ _ _ \<Rightarrow> True
      | Reset \<Rightarrow> True
      | ServoOutput _ _ _ _ \<Rightarrow> True
      | StepperAndServoModeConfigure _ _ \<Rightarrow> True
      | SetEngraver _ _ _ \<Rightarrow> True
      | SetLayer _ \<Rightarrow> True
      | StepperMove _ _ _ \<Rightarrow> True
      | SetNodeCount _ \<Rightarrow> True
      | SetPenState _ _ _ \<Rightarrow> True
      | SetServoPowerTimeout _ _ \<Rightarrow> True
      | SetNickname _ \<Rightarrow> True
      | TimedRead _ _ \<Rightarrow> True
      | TogglePen duration \<Rightarrow> \<not> truthy duration
      | StepperMoveMixedAxis _ _ _ \<Rightarrow> True
      | _ \<Rightarrow> False)"

definition reply_tag :: "request \<Rightarrow> string option" where
  "reply_tag r =
     (case r of
        GetInput \<Rightarrow> Some ''I''
      | MemoryRead _ \<Rightarrow> Some ''MR''
      | PinInput _ _ \<Rightarrow> Some ''PI''
      | QueryMotors \<Rightarrow> Some ''QM,''
      | _ \<Rightarrow> None)"

definition data_then_ack :: "request \<Rightarrow> bool" where
  "data_then_ack r =
     (case r of
        EmergencyStop _ \<Rightarrow> True
      | QueryButton \<Rightarrow> True
      | QueryCurrent _ \<Rightarrow> True
      | QueryMotorConfig \<Rightarrow> True
      | QueryLayer \<Rightarrow> True
      | QueryPen \<Rightarrow> True
      | QueryServoPower \<Rightarrow> True
      | QueryStepPosition \<Rightarrow> True
      | QueryNickname \<Rightarrow> True
      | QueryNodeCount \<Rightarrow> True
      | _ \<Rightarrow> False)"

text \<open>The arguments pass the operation's parameter checks.\<close>

definition accepted :: "request \<Rightarrow> bool" where
  "accepted r = (case invoke r of Throw e \<Rightarrow> False | _ \<Rightarrow> True)"

text \<open>The operation is rejected with an error whose message ends with the given text.\<close>

definition names_response :: "string \<Rightarrow> 'a outcome \<Rightarrow> bool" where
  "names_response text out = (case out of RejectedWith msg \<Rightarrow> suffix text msg | _ \<Rightarrow> False)"

definition passes :: "'a proc \<Rightarrow> bool" where
  "passes p = (case p of Throw e \<Rightarrow> False | _ \<Rightarrow> True)"

text \<open>The body of an operation that sends one command and requires the reply \<open>OK\<close>.\<close>

definition ack_shape :: "unit proc \<Rightarrow> bool" where
  "ack_shape p \<longleftrightarrow> (\<exists>e. p = Throw e) \<or>
     (\<exists>c pre. p = Await c 1 (\<lambda>response. if response \<noteq> ''OK'' then Throw (pre @ response)
                                          else Return ()))"

text \<open>
  The reply to \<open>A\<close> as the comment in \<open>analogValueGet\<close> describes it: after the tag
  \<open>A\<close>, one token \<open>,cc:vvvv\<close> for every enabled channel, the channel number padded
  with zeros to 2 characters and the reading to 4 characters.
\<close>

definition pad :: "nat \<Rightarrow> nat \<Rightarrow> string" where
  "pad width n = replicate (width - length (digit_chars n)) (CHR ''0'') @ digit_chars n"

definition analog_token :: "nat \<times> nat \<Rightarrow> string" where
  "analog_token r = pad 2 (fst r) @ '':'' @ pad 4 (snd r)"

definition analog_reply :: "(nat \<times> nat) list \<Rightarrow> string" where
  "analog_reply readings =
     ''A'' @ concat (map (\<lambda>(channel, val). '','' @ pad 2 channel @ '':'' @ pad 4 val) readings)"

definition is_digit :: "char \<Rightarrow> bool" where
  "is_digit c \<longleftrightarrow> c \<in> set ''0123456789''"

text \<open>
  The domain of each operation's parameters, as the parameter checks of the operation
  state it. The parameters are integers, so a bound \<open>x >= 2 ** 16\<close> of a check is the
  bound \<open>2^16 - 1\<close> of the domain. The step modes of \<open>enableMotors\<close>, the arguments of
  \<open>pulseConfigure\<close> and the intervals of \<open>lowLevelMoveTimeLimited\<close> have no check and
  so no bound.
\<close>

definition in_range :: "int \<Rightarrow> int \<Rightarrow> int \<Rightarrow> bool" where
  "in_range lo hi n \<longleftrightarrow> lo \<le> n \<and> n \<le> hi"

definition byte :: "int \<Rightarrow> bool" where
  "byte v = in_range 0 255 v"

definition port_letter :: "string \<Rightarrow> bool" where
  "port_letter l \<longleftrightarrow> l \<in> set [''A'', ''B'', ''C'', ''D'', ''E'']"

definition optional :: "('a \<Rightarrow> bool) \<Rightarrow> 'a option \<Rightarrow> bool" where
  "optional P v = (case v of None \<Rightarrow> True | Some x \<Rightarrow> P x)"

primrec within_domain :: "request \<Rightarrow> bool" where
  "within_domain AnalogValueGet = True"
| "within_domain (AnalogConfigure channel enabled) = in_range 0 15 channel"
| "within_domain EnterBootloader = True"
| "within_domain (ConfigurePinDirections portA portB portC portD portE) =
     (byte portA \<and> byte portB \<and> byte portC \<and> byte portD \<and> byte portE)"
| "within_domain ClearStepPosition = True"
| "within_domain (ConfigureUserOptions ok limits led) = True"
| "within_domain (EnableMotors m1Mode m2Mode) = True"
| "within_domain (EmergencyStop disableMotors) = True"
| "within_domain (AbsoluteMove stepFrequency position1 position2) =
     (in_range 2 25000 stepFrequency \<and>
      optional (in_range (- 4294967) 4294967) position1 \<and>
      optional (in_range (- 4294967) 4294967) position2)"
| "within_domain GetInput = True"
| "within_domain (LowLevelMove m1Rate m1Steps m1Accel m1Clear m2Rate m2Steps m2Accel m2Clear) =
     (in_range 0 (2 ^ 31 - 1) m1Rate \<and> in_range 0 (2 ^ 31 - 1) m2Rate \<and>
      in_range (- (2 ^ 31)) (2 ^ 31 - 1) m1Steps \<and> in_range (- (2 ^ 31)) (2 ^ 31 - 1) m2Steps \<and>
      in_range (- (2 ^ 31)) (2 ^ 31 - 1) m1Accel \<and> in_range (- (2 ^ 31)) (2 ^ 31 - 1) m2Accel)"
| "within_domain (LowLevelMoveTimeLimited intervals m1Rate m1Accel m1Clear m2Rate m2Accel m2Clear) =
     (in_range 0 (2 ^ 31 - 1) m1Rate \<and> in_range 0 (2 ^ 31 - 1) m2Rate \<and>
      in_range (- (2 ^ 31)) (2 ^ 31 - 1) m1Accel \<and> in_range (- (2 ^ 31)) (2 ^ 31 - 1) m2Accel)"
| "within_domain (MemoryRead address) = in_range 0 4095 address"
| "within_domain (MemoryWrite address val) = (in_range 0 4095 address \<and> byte val)"
| "within_domain NodeCountDecrement = True"
| "within_domain NodeCountIncrement = True"
| "within_domain (SetOutputs portA portB portC portD portE) =
     (byte portA \<and> byte portB \<and> byte portC \<and> byte portD \<and> byte portE)"
| "within_domain (PulseConfigure duration0 period0 duration1 period1 duration2 period2
                    duration3 period3) = True"
| "within_domain (SetPinDirection portLetter pinIndex isOutput) =
     (port_letter portLetter \<and> in_range 0 7 pinIndex)"
| "within_domain (PulseGo enabled) = True"
| "within_domain (PinInput portLetter pinIndex) = (port_letter portLetter \<and> in_range 0 7 pinIndex)"
| "within_domain (PinOutput portLetter pinIndex setPinHigh) =
     (port_letter portLetter \<and> in_range 0 7 pinIndex)"
| "within_domain QueryButton = True"
| "within_domain (QueryCurrent oldBoard) = True"
| "within_domain QueryMotorConfig = True"
| "within_domain QueryGeneral = True"
| "within_domain QueryLayer = True"
| "within_domain QueryMotors = True"
| "within_domain QueryPen = True"
| "within_domain QueryServoPower = True"
| "within_domain QueryStepPosition = True"
| "within_domain QueryNickname = True"
| "within_domain Reboot = True"
| "within_domain Reset = True"
| "within_domain (ServoOutput position pinIndex rate delay) =
     (in_range 0 (2 ^ 16 - 1) position \<and> in_range 0 24 pinIndex \<and>
      in_range 0 (2 ^ 16 - 1) rate \<and> in_range 0 (2 ^ 16 - 1) delay)"
| "within_domain (StepperAndServoModeConfigure paramIndex paramValue) =
     (if paramIndex = 1 \<or> paramIndex = 2 then in_range 0 2 paramValue
      else if paramIndex = 4 \<or> paramIndex = 5 then in_range 1 (2 ^ 16 - 1) paramValue
      else if paramIndex = 8 then in_range 1 24 paramValue
      else if paramIndex = 9 then in_range 1 6 paramValue
      else if paramIndex = 10 \<or> paramIndex = 11 \<or> paramIndex = 12
      then in_range 0 (2 ^ 16 - 1) paramValue
      else if paramIndex = 13 then in_range 0 1 paramValue
      else False)"
| "within_domain (SetEngraver enableEngraver pwr useMotionQueue) = in_range 0 1023 pwr"
| "within_domain (SetLayer layerValue) = in_range 0 127 layerValue"
| "within_domain (StepperMove duration m1Steps m2Steps) =
     (in_range 1 (2 ^ 24 - 1) duration \<and> in_range (- (2 ^ 24)) (2 ^ 24 - 1) m1Steps \<and>
      in_range (- (2 ^ 24)) (2 ^ 24 - 1) m2Steps)"
| "within_domain (SetNodeCount val) = in_range 0 (2 ^ 32 - 1) val"
| "within_domain (SetPenState down duration portBPin) =
     (optional (in_range 1 (2 ^ 16 - 1)) duration \<and> optional (in_range 0 7) portBPin)"
| "within_domain (SetServoPowerTimeout duration setPowerOn) = in_range 0 (2 ^ 32 - 1) duration"
| "within_domain (SetNickname nickname) = (length nickname \<le> 16)"
| "within_domain (TimedRead duration digitalMode) = in_range 1 (2 ^ 16 - 1) duration"
| "within_domain (TogglePen duration) = optional (in_range 1 (2 ^ 16 - 1)) duration"
| "within_domain QueryNodeCount = True"
| "within_domain QueryVersion = True"
| "within_domain (StepperMoveMixedAxis durationMs stepsA stepsB) =
     (in_range 1 (2 ^ 24 - 1) durationMs \<and> in_range (- (2 ^ 24) + 1) (2 ^ 24 - 1) stepsA \<and>
      in_range (- (2 ^ 24)) (2 ^ 24 - 1) stepsB)"

text \<open>
  A template literal prints a number that is a safe integer (\<open>Number.isSafeInteger\<close>:
  of magnitude below \<open>2^53\<close>) as its decimal digits, which is what \<open>Number_toString\<close>
  computes; beyond that the digits printed are those of the nearest double, and from
  \<open>10^21\<close> the notation has an exponent. The parameters that a check bounds are safe
  integers; \<open>unbounded\<close> lists the others.
\<close>

definition safe_integer :: "int \<Rightarrow> bool" where
  "safe_integer n \<longleftrightarrow> - (2 ^ 53) < n \<and> n < 2 ^ 53"

definition unbounded :: "request \<Rightarrow> int list" where
  "unbounded r =
     (case r of
        EnableMotors m1Mode m2Mode \<Rightarrow> [m1Mode, m2Mode]
      | LowLevelMoveTimeLimited intervals _ _ _ _ _ _ \<Rightarrow> [intervals]
      | PulseConfigure duration0 period0 duration1 period1 duration2 period2 duration3 period3 \<Rightarrow>
          [duration0, period0, duration1, period1, duration2, period2, duration3, period3]
      | _ \<Rightarrow> [])"

text \<open>
  The wire format: the command strings of each operation, as the command reference of
  the board gives them and the test suite of the repository expects them. A command is
  its name followed by its arguments, separated by commas; a number is written in
  decimal and a flag as \<open>1\<close> or \<open>0\<close>. \<open>configureUserOptions\<close> sends three commands,
  every other operation one.
\<close>

definition flag :: "bool \<Rightarrow> string" where
  "flag v = (if v then ''1'' else ''0'')"

definition comma_separated :: "string list \<Rightarrow> string" where
  "comma_separated xs = js_join xs '',''"

definition or_default :: "'a option \<Rightarrow> 'a \<Rightarrow> 'a" where
  "or_default v d = (case v of None \<Rightarrow> d | Some x \<Rightarrow> x)"

primrec wire_format :: "request \<Rightarrow> string list" where
  "wire_format AnalogValueGet = [''A'']"
| "wire_format (AnalogConfigure channel enabled) =
     [comma_separated [''AC'', Number_toString channel, flag enabled]]"
| "wire_format EnterBootloader = [''BL'']"
| "wire_format (ConfigurePinDirections portA portB portC portD portE) =
     [comma_separated [''C'', Number_toString portA, Number_toString portB, Number_toString portC,
              Number_toString portD, Number_toString portE]]"
| "wire_format ClearStepPosition = [''CS'']"
| "wire_format (ConfigureUserOptions ok limits led) =
     [comma_separated [''CU'', ''1'', flag (or_default ok True)],
      comma_separated [''CU'', ''2'', flag (or_default limits True)],
      comma_separated [''CU'', ''3'', flag (or_default led False)]]"
| "wire_format (EnableMotors m1Mode m2Mode) =
     [comma_separated [''EM'', Number_toString m1Mode, Number_toString m2Mode]]"
| "wire_format (EmergencyStop disableMotors) = [if disableMotors then ''ES,1'' else ''ES'']"
| "wire_format (AbsoluteMove stepFrequency position1 position2) =
     [comma_separated [''HM'', Number_toString stepFrequency, Number_toString (or_default position1 0),
              Number_toString (or_default position2 0)]]"
| "wire_format GetInput = [''I'']"
| "wire_format (LowLevelMove m1Rate m1Steps m1Accel m1Clear m2Rate m2Steps m2Accel m2Clear) =
     [comma_separated [''LM'', Number_toString m1Rate, Number_toString m1Steps, Number_toString m1Accel,
              Number_toString m2Rate, Number_toString m2Steps, Number_toString m2Accel,
              Number_toString ((if m1Clear then 1 else 0) + (if m2Clear then 2 else 0))]]"
| "wire_format (LowLevelMoveTimeLimited intervals m1Rate m1Accel m1Clear m2Rate m2Accel m2Clear) =
     [comma_separated [''LT'', Number_toString intervals, Number_toString m1Rate, Number_toString m1Accel,
              Number_toString m2Rate, Number_toString m2Accel,
              Number_toString ((if m1Clear then 1 else 0) + (if m2Clear then 2 else 0))]]"
| "wire_format (MemoryRead address) = [comma_separated [''MR'', Number_toString address]]"
| "wire_format (MemoryWrite address val) =
     [comma_separated [''MW'', Number_toString address, Number_toString val]]"
| "wire_format NodeCountDecrement = [''ND'']"
| "wire_format NodeCountIncrement = [''NI'']"
| "wire_format (SetOutputs portA portB portC portD portE) =
     [comma_separated [''O'', Number_toString portA, Number_toString portB, Number_toString portC,
              Number_toString portD, Number_toString portE]]"
| "wire_format (PulseConfigure duration0 period0 duration1 period1 duration2 period2
                  duration3 period3) =
     [comma_separated [''PC'', Number_toString duration0, Number_toString period0,
              Number_toString duration1, Number_toString period1,
              Number_toString duration2, Number_toString period2,
              Number_toString duration3, Number_toString period3]]"
| "wire_format (SetPinDirection portLetter pinIndex isOutput) =
     [comma_separated [''PD'', portLetter, Number_toString pinIndex, flag (\<not> isOutput)]]"
| "wire_format (PulseGo enabled) = [comma_separated [''PG'', flag enabled]]"
| "wire_format (PinInput portLetter pinIndex) =
     [comma_separated [''PI'', portLetter, Number_toString pinIndex]]"
| "wire_format (PinOutput portLetter pinIndex setPinHigh) =
     [comma_separated [''PO'', portLetter, Number_toString pinIndex, flag setPinHigh]]"
| "wire_format QueryButton = [''QB'']"
| "wire_format (QueryCurrent oldBoard) = [''QC'']"
| "wire_format QueryMotorConfig = [''QE'']"
| "wire_format QueryGeneral = [''QG'']"
| "wire_format QueryLayer = [''QL'']"
| "wire_format QueryMotors = [''QM'']"
| "wire_format QueryPen = [''QP'']"
| "wire_format QueryServoPower = [''QR'']"
| "wire_format QueryStepPosition = [''QS'']"
| "wire_format QueryNickname = [''QT'']"
| "wire_format Reboot = [''RB'']"
| "wire_format Reset = [''R'']"
| "wire_format (ServoOutput position pinIndex rate delay) =
     [comma_separated [''S2'', Number_toString position, Number_toString pinIndex, Number_toString rate,
              Number_toString delay]]"
| "wire_format (StepperAndServoModeConfigure paramIndex paramValue) =
     [comma_separated [''SC'', Number_toString paramIndex, Number_toString paramValue]]"
| "wire_format (SetEngraver enableEngraver pwr useMotionQueue) =
     [comma_separated [''SE'', flag enableEngraver, Number_toString pwr, flag useMotionQueue]]"
| "wire_format (SetLayer layerValue) = [comma_separated [''SL'', Number_toString layerValue]]"
| "wire_format (StepperMove duration m1Steps m2Steps) =
     [comma_separated [''SM'', Number_toString duration, Number_toString m1Steps, Number_toString m2Steps]]"
| "wire_format (SetNodeCount val) = [comma_separated [''SN'', Number_toString val]]"
| "wire_format (SetPenState down duration portBPin) =
     [comma_separated ([''SP'', flag (\<not> down)] @
              (case duration of
                 None \<Rightarrow> []
               | Some d \<Rightarrow> Number_toString d #
                   (case portBPin of None \<Rightarrow> [] | Some p \<Rightarrow> [Number_toString p])))]"
| "wire_format (SetServoPowerTimeout duration setPowerOn) =
     [comma_separated [''SR'', Number_toString duration, flag setPowerOn]]"
| "wire_format (SetNickname nickname) = [comma_separated [''ST'', nickname]]"
| "wire_format (TimedRead duration digitalMode) =
     [comma_separated [''T'', Number_toString duration, flag (\<not> digitalMode)]]"
| "wire_format (TogglePen duration) =
     [comma_separated (''TP'' # (case duration of None \<Rightarrow> [] | Some d \<Rightarrow> [Number_toString d]))]"
| "wire_format QueryNodeCount = [''QN'']"
| "wire_format QueryVersion = [''V'']"
| "wire_format (StepperMoveMixedAxis durationMs stepsA stepsB) =
     [comma_separated [''XM'', Number_toString durationMs, Number_toString stepsA,
              Number_toString stepsB]]"

text \<open>An operation that sends the one command \<open>c\<close> and then settles.\<close>

definition one_command :: "'a proc \<Rightarrow> string \<Rightarrow> bool" where
  "one_command p c \<longleftrightarrow> (\<exists>n k. p = Await c n k \<and> (\<forall>response. final (k response)))"

text \<open>An operation that sends no command outside the list \<open>cs\<close>, in its order.\<close>

primrec sends_only :: "'a proc \<Rightarrow> string list \<Rightarrow> bool" where
  "sends_only (Return v) cs = True"
| "sends_only (Throw e) cs = True"
| "sends_only (Await c n k) cs =
     (case cs of [] \<Rightarrow> False | c' # rest \<Rightarrow> c = c' \<and> (\<forall>response. sends_only (k response) rest))"

text \<open>
  What each operation requires of its reply. \<open>reply_lines\<close> is the number of lines it
  waits for. \<open>numeric_field line i\<close> is the number parsed from the \<open>i\<close>-th
  comma-separated field of a line, \<open>NaN\<close> when the field is missing or not a number;
  \<open>mode_numbers\<close> are the keys of the table \<open>motorStates\<close>. \<open>reply_conforms\<close> collects
  the checks: the acknowledgment \<open>OK\<close>, the tag of the four tagged replies, the second
  line \<open>OK\<close> of the two-line replies, and the two mode numbers of \<open>queryMotorConfig\<close>.
\<close>

definition reply_lines :: "request \<Rightarrow> nat" where
  "reply_lines r = (if data_then_ack r then 2 else 1)"

definition numeric_field :: "string \<Rightarrow> nat \<Rightarrow> number" where
  "numeric_field line i = parseInt_element (element (js_split line '','') i) 10"

definition mode_numbers :: "number list" where
  "mode_numbers = [Num 0, Num 1, Num 2, Num 4, Num 8, Num 16]"

definition reply_conforms :: "request \<Rightarrow> string list \<Rightarrow> bool" where
  "reply_conforms r ls =
     (if acknowledged r then ls ! 0 = ''OK''
      else if data_then_ack r then
        ls ! 1 = ''OK'' \<and>
        (if r = QueryMotorConfig
         then numeric_field (ls ! 0) 0 \<in> set mode_numbers \<and>
              numeric_field (ls ! 0) 1 \<in> set mode_numbers
         else True)
      else
        (case r of
           GetInput \<Rightarrow> prefix ''I'' (ls ! 0)
         | QueryMotors \<Rightarrow> prefix ''QM,'' (ls ! 0)
         | MemoryRead _ \<Rightarrow> element (js_split (ls ! 0) '','') 0 = Some ''MR''
         | PinInput _ _ \<Rightarrow> element (js_split (ls ! 0) '','') 0 = Some ''PI''
         | _ \<Rightarrow> True))"

text \<open>
  Three commands are called at once. The reply to the first arrives late, but in time;
  the timer of the second, which has been running since the call, fires before its reply
  arrives. \<open>completed\<close> is a call whose caller has been answered.
\<close>

definition late_reply :: "event list" where
  "late_reply =
     [Call ''CS'' 1 3000, Call ''ND'' 1 3000, Call ''NI'' 1 3000,
      PrintResolves 0, Line ''OK'', Continue 0,
      TimerFires 1,
      PrintResolves 1, Line ''OK'', Continue 1]"

definition completed :: "pending_command \<Rightarrow> bool" where
  "completed e \<longleftrightarrow> returned e \<noteq> Pending"

section \<open>Properties of the command queue\<close>

lemma inv_new: "queue_inv new_board"
  by (simp add: queue_inv_def new_board_def)

lemma take_update_same_cmd:
  "cmd e = cmd (xs ! c) \<Longrightarrow> map (\<lambda>e. cmd e @ [CR]) (take n (xs[c := e])) = map (\<lambda>e. cmd e @ [CR]) (take n xs)"
proof (rule nth_equalityI)
  show "length (map (\<lambda>e. cmd e @ [CR]) (take n (xs[c := e]))) = length (map (\<lambda>e. cmd e @ [CR]) (take n xs))"
    by simp
next
  fix i
  assume a: "cmd e = cmd (xs ! c)" "i < length (map (\<lambda>e. cmd e @ [CR]) (take n (xs[c := e])))"
  then show "map (\<lambda>e. cmd e @ [CR]) (take n (xs[c := e])) ! i = map (\<lambda>e. cmd e @ [CR]) (take n xs) ! i"
    by (cases "i = c") auto
qed

lemma inv_timeout: "queue_inv b \<Longrightarrow> queue_inv (on_timeout c b)"
  unfolding queue_inv_def on_timeout_def Let_def
  apply (clarsimp simp: take_update_same_cmd)
  subgoal for k
    apply (rule exI[of _ k])
    apply (auto simp: nth_list_update settle_def)
    done
  done

lemma inv_print_resolved: "queue_inv b \<Longrightarrow> queue_inv (print_resolved c b)"
  unfolding queue_inv_def print_resolved_def Let_def
  apply (clarsimp simp: take_update_same_cmd)
  subgoal for k
    apply (rule exI[of _ k])
    apply (auto simp: nth_list_update)
    done
  done


lemma inv_print_rejected: "queue_inv b \<Longrightarrow> queue_inv (print_rejected c b)"
  unfolding queue_inv_def print_rejected_def Let_def
  apply (clarsimp simp: take_update_same_cmd)
  subgoal for k
    apply (rule exI[of _ k])
    apply (auto simp: nth_list_update)
    done
  done

lemma inv_handle: "queue_inv b \<Longrightarrow> queue_inv (handleResponse c l b)"
  unfolding queue_inv_def handleResponse_def Let_def
  apply (clarsimp simp: take_update_same_cmd)
  apply (intro conjI impI)
  subgoal for k
    apply (rule exI[of _ k])
    apply (auto simp: nth_list_update settle_def)
    done
  subgoal for k
    apply (rule exI[of _ k])
    apply (auto simp: nth_list_update settle_def)
    done
  done

lemma inv_handlers_irrelevant: "queue_inv (b\<lparr>responseHandlers := hs\<rparr>) = queue_inv b"
  by (simp add: queue_inv_def)

lemma inv_console_irrelevant: "queue_inv (b\<lparr>console := cs\<rparr>) = queue_inv b"
  by (simp add: queue_inv_def)

lemma inv_line: "queue_inv b \<Longrightarrow> queue_inv (on_line l b)"
  by (auto simp: on_line_def inv_handlers_irrelevant inv_console_irrelevant intro: inv_handle split: list.splits)


lemma upt_snoc: "k \<le> n \<Longrightarrow> [k..<n] @ [n] = [k..<Suc n]"
  by simp

lemma inv_command: "queue_inv b \<Longrightarrow> queue_inv (command c0 n0 t0 b)"
proof -
  assume "queue_inv b"
  then obtain k where k: "k \<le> length (store b)" "pending b = [k..<length (store b)]"
      "port_written b = map (\<lambda>e. cmd e @ [CR]) (take (Suc k) (store b))"
      "\<forall>i<length (store b).
          (i < k \<longrightarrow> (\<exists>r. responsePromise (store b ! i) = Fulfilled r \<and> returned (store b ! i) = Fulfilled r)
                       \<and> printing (store b ! i) = Flushed) \<and>
          (k \<le> i \<longrightarrow> returned (store b ! i) = Pending) \<and>
          (k < i \<longrightarrow> printing (store b ! i) = NotCalled) \<and>
          (i = k \<longrightarrow> printing (store b ! i) \<noteq> NotCalled)"
    unfolding queue_inv_def by blast
  show ?thesis
  proof (cases "k = length (store b)")
    case True
    with k show ?thesis
      unfolding queue_inv_def command_def executeCommand_def Let_def
      apply simp
      apply (rule exI[of _ "length (store b)"])
      apply (auto simp: nth_append)
      done
  next
    case False
    with k have lt: "k < length (store b)" by simp
    with k show ?thesis
      unfolding queue_inv_def command_def executeCommand_def Let_def
      apply simp
      apply (rule exI[of _ k])
      apply (auto simp: nth_append)
      done
  qed
qed


lemma inv_continuation: "queue_inv b \<Longrightarrow> queue_inv (continuation c b)"
proof -
  assume "queue_inv b"
  then obtain k where k: "k \<le> length (store b)" "pending b = [k..<length (store b)]"
      "port_written b = map (\<lambda>e. cmd e @ [CR]) (take (Suc k) (store b))"
      and all: "\<forall>i<length (store b).
          (i < k \<longrightarrow> (\<exists>r. responsePromise (store b ! i) = Fulfilled r \<and> returned (store b ! i) = Fulfilled r)
                       \<and> printing (store b ! i) = Flushed) \<and>
          (k \<le> i \<longrightarrow> returned (store b ! i) = Pending) \<and>
          (k < i \<longrightarrow> printing (store b ! i) = NotCalled) \<and>
          (i = k \<longrightarrow> printing (store b ! i) \<noteq> NotCalled)"
    unfolding queue_inv_def by blast
  show ?thesis
  proof (cases "c < length (store b) \<and> printing (store b ! c) = Flushed \<and> returned (store b ! c) = Pending
                 \<and> (\<exists>r. responsePromise (store b ! c) = Fulfilled r)")
    case False
    then have "continuation c b = b"
      by (auto simp: continuation_def Let_def split: promise.splits)
    with \<open>queue_inv b\<close> show ?thesis by simp
  next
    case True
    then obtain r where c: "c < length (store b)" "printing (store b ! c) = Flushed"
       "returned (store b ! c) = Pending" "responsePromise (store b ! c) = Fulfilled r" by blast
    from all c have ck: "c = k"
      by (metis linorder_neqE_nat promise.distinct(1) write_progress.distinct(3))
    show ?thesis
    proof (cases "Suc k < length (store b)")
      case True
      have hd: "hd [Suc k..<length (store b)] = Suc k" using True by (simp add: upt_conv_Cons)
      have tk: "take (Suc (Suc k)) (store b) = take (Suc k) (store b) @ [store b ! Suc k]"
        using True by (simp add: take_Suc_conv_app_nth)
      from True k all c ck hd tk show ?thesis
        unfolding queue_inv_def continuation_def executeCommand_def Let_def
        apply (simp add: take_update_same_cmd tl_upt)
        apply (rule exI[of _ "Suc k"])
        apply (auto simp: nth_list_update take_update_same_cmd)
        done
    next
      case False
      with c ck have e: "Suc k = length (store b)" by simp
      from e k all c ck show ?thesis
        unfolding queue_inv_def continuation_def executeCommand_def Let_def
        apply (simp add: take_update_same_cmd tl_upt)
        apply (rule exI[of _ "Suc k"])
        apply (auto simp: nth_list_update take_update_same_cmd)
        done
    qed
  qed
qed

lemma inv_step: "queue_inv b \<Longrightarrow> queue_inv (step b e)"
  by (cases e) (simp_all add: inv_command inv_line inv_timeout inv_print_resolved inv_print_rejected inv_continuation)

lemma inv_foldl: "queue_inv b \<Longrightarrow> queue_inv (foldl step b evs)"
  by (induction evs arbitrary: b) (simp_all add: inv_step)

lemma inv_run: "queue_inv (run evs)"
  by (simp add: run_def inv_foldl inv_new)


lemma map_cmd_update: "cmd e = cmd (xs ! c) \<Longrightarrow> map cmd (xs[c := e]) = map cmd xs"
  by (metis list_update_beyond list_update_id map_update not_le_imp_less nth_map length_map)

lemma cmds_handle: "map cmd (store (handleResponse c l b)) = map cmd (store b)"
  by (simp add: handleResponse_def Let_def map_cmd_update)

lemma cmds_step: "map cmd (store (step b e)) = map cmd (store b) @ issued e"
proof (cases e)
  case (Call c n t)
  then show ?thesis by (simp add: command_def executeCommand_def Let_def map_cmd_update nth_append)
next
  case (Line l)
  then show ?thesis by (simp add: on_line_def cmds_handle split: list.splits)
next
  case (TimerFires c)
  then show ?thesis by (simp add: on_timeout_def Let_def map_cmd_update)
next
  case (PrintResolves c)
  then show ?thesis by (simp add: print_resolved_def map_cmd_update)
next
  case (PrintRejects c)
  then show ?thesis by (simp add: print_rejected_def map_cmd_update)
next
  case (Continue c)
  then show ?thesis
    by (simp add: continuation_def executeCommand_def Let_def map_cmd_update nth_list_update split: promise.splits)
qed

lemma cmds_foldl: "map cmd (store (foldl step b evs)) = map cmd (store b) @ calls evs"
  by (induction evs arbitrary: b) (simp_all add: calls_def cmds_step)

lemma cmds_run: "map cmd (store (run evs)) = calls evs"
  by (simp add: run_def cmds_foldl new_board_def)

lemma filter_at_most_one:
  "(\<forall>i<length xs. P (xs ! i) \<longrightarrow> i = k) \<Longrightarrow> length (filter P xs) \<le> 1"
proof (induction xs arbitrary: k)
  case Nil
  then show ?case by simp
next
  case (Cons x xs)
  show ?case
  proof (cases "P x")
    case True
    with Cons.prems have k0: "k = 0" by auto
    have "filter P xs = []"
    proof (rule ccontr)
      assume "filter P xs \<noteq> []"
      then obtain y where "y \<in> set xs" "P y" by (auto simp: filter_empty_conv)
      then obtain j where "j < length xs" "xs ! j = y" by (auto simp: in_set_conv_nth)
      with Cons.prems[rule_format, of "Suc j"] \<open>P y\<close> k0 show False by simp
    qed
    with True show ?thesis by simp
  next
    case False
    have "\<forall>i<length xs. P (xs ! i) \<longrightarrow> i = k - 1"
    proof (intro allI impI)
      fix i assume "i < length xs" "P (xs ! i)"
      with Cons.prems[rule_format, of "Suc i"] show "i = k - 1" by simp
    qed
    from Cons.IH[OF this] False show ?thesis by simp
  qed
qed

text \<open>
  Whatever the schedule of calls, reply lines, timers and completions, the port sees
  the command strings in call order (what is written is a prefix of the calls, each
  followed by a carriage return); a command is written only once every earlier command
  has had its response promise fulfilled and its caller's promise settled; and at most
  one command is in flight.
\<close>

theorem serial_dispatch:
  "map cmd (store (run evs)) = calls evs \<and>
   prefix (port_written (run evs)) (map (\<lambda>c. c @ [CR]) (calls evs)) \<and>
   (\<forall>i j. i < j \<and> j < length (store (run evs)) \<and> printing (store (run evs) ! j) \<noteq> NotCalled \<longrightarrow>
      (\<exists>r. responsePromise (store (run evs) ! i) = Fulfilled r \<and>
           returned (store (run evs) ! i) = Fulfilled r)) \<and>
   length (filter in_flight (store (run evs))) \<le> 1"
proof -
  let ?b = "run evs"
  from inv_run[of evs] obtain k where k: "k \<le> length (store ?b)" "pending ?b = [k..<length (store ?b)]"
      "port_written ?b = map (\<lambda>e. cmd e @ [CR]) (take (Suc k) (store ?b))"
      and all: "\<forall>i<length (store ?b).
          (i < k \<longrightarrow> (\<exists>r. responsePromise (store ?b ! i) = Fulfilled r \<and> returned (store ?b ! i) = Fulfilled r)
                       \<and> printing (store ?b ! i) = Flushed) \<and>
          (k \<le> i \<longrightarrow> returned (store ?b ! i) = Pending) \<and>
          (k < i \<longrightarrow> printing (store ?b ! i) = NotCalled) \<and>
          (i = k \<longrightarrow> printing (store ?b ! i) \<noteq> NotCalled)"
    unfolding queue_inv_def by blast
  have a: "map cmd (store ?b) = calls evs" by (rule cmds_run)
  have "port_written ?b = take (Suc k) (map (\<lambda>c. c @ [CR]) (map cmd (store ?b)))"
    by (simp add: k(3) take_map)
  then have b: "prefix (port_written ?b) (map (\<lambda>c. c @ [CR]) (calls evs))"
    by (simp add: a take_is_prefix)
  have c: "\<forall>i j. i < j \<and> j < length (store ?b) \<and> printing (store ?b ! j) \<noteq> NotCalled \<longrightarrow>
      (\<exists>r. responsePromise (store ?b ! i) = Fulfilled r \<and> returned (store ?b ! i) = Fulfilled r)"
  proof (intro allI impI)
    fix i j assume h: "i < j \<and> j < length (store ?b) \<and> printing (store ?b ! j) \<noteq> NotCalled"
    with all have "j \<le> k" by (meson not_le_imp_less)
    with h have "i < k" "i < length (store ?b)" by simp_all
    with all show "\<exists>r. responsePromise (store ?b ! i) = Fulfilled r \<and> returned (store ?b ! i) = Fulfilled r"
      by blast
  qed
  have "\<forall>i<length (store ?b). in_flight (store ?b ! i) \<longrightarrow> i = k"
    using all unfolding in_flight_def
    by (metis linorder_neqE_nat nat_less_le promise.distinct(1))
  then have d: "length (filter in_flight (store ?b)) \<le> 1" by (rule filter_at_most_one)
  from a b c d show ?thesis by blast
qed

lemmas board_simps =
  run_def new_board_def command_def executeCommand_def on_line_def handleResponse_def
  on_timeout_def print_resolved_def print_rejected_def continuation_def settle_def Let_def

theorem serial_dispatch_three_commands:
  "port_written (run three_commands) = [''QG'' @ [CR], ''QP'' @ [CR], ''EM,1,1'' @ [CR]] \<and>
   (0 :: nat) < 1 \<and> 1 < length (store (run three_commands)) \<and>
   printing (store (run three_commands) ! 1) \<noteq> NotCalled \<and>
   (\<exists>r. responsePromise (store (run three_commands) ! 0) = Fulfilled r \<and>
        returned (store (run three_commands) ! 0) = Fulfilled r)"
proof -
  have w: "port_written (run three_commands) = [''QG'' @ [CR], ''QP'' @ [CR], ''EM,1,1'' @ [CR]]"
    by (simp add: three_commands_def board_simps numeral_2_eq_2)
  have h: "(0 :: nat) < 1 \<and> 1 < length (store (run three_commands)) \<and>
           printing (store (run three_commands) ! 1) \<noteq> NotCalled"
    by (simp add: three_commands_def board_simps numeral_2_eq_2)
  from serial_dispatch[of three_commands]
  have "\<forall>i j. i < j \<and> j < length (store (run three_commands)) \<and>
            printing (store (run three_commands) ! j) \<noteq> NotCalled \<longrightarrow>
      (\<exists>r. responsePromise (store (run three_commands) ! i) = Fulfilled r \<and>
           returned (store (run three_commands) ! i) = Fulfilled r)"
    by blast
  from this[rule_format, of 0 1] h w show ?thesis by blast
qed


lemma stalled_continuation:
  assumes "stalled c b"
  shows "continuation c' b = b"
proof -
  from assms have inv: "queue_inv b" and c: "c < length (store b)" "pending b \<noteq> []" "hd (pending b) = c"
    and rej: "\<exists>m. responsePromise (store b ! c) = Rejected m"
    by (simp_all add: stalled_def)
  from inv obtain k where k: "k \<le> length (store b)" "pending b = [k..<length (store b)]"
      and all: "\<forall>i<length (store b).
          (i < k \<longrightarrow> (\<exists>r. responsePromise (store b ! i) = Fulfilled r \<and> returned (store b ! i) = Fulfilled r)
                       \<and> printing (store b ! i) = Flushed) \<and>
          (k \<le> i \<longrightarrow> returned (store b ! i) = Pending) \<and>
          (k < i \<longrightarrow> printing (store b ! i) = NotCalled) \<and>
          (i = k \<longrightarrow> printing (store b ! i) \<noteq> NotCalled)"
    unfolding queue_inv_def by blast
  from k c have klt: "k < length (store b)" by auto
  then have "hd [k..<length (store b)] = k" by (simp add: upt_conv_Cons)
  with k c have ck: "c = k" by simp
  show ?thesis
  proof (cases "c' < length (store b) \<and> printing (store b ! c') = Flushed \<and> returned (store b ! c') = Pending
                 \<and> (\<exists>r. responsePromise (store b ! c') = Fulfilled r)")
    case False
    then show ?thesis
      by (auto simp: continuation_def Let_def split: promise.splits)
  next
    case True
    then obtain r where t: "c' < length (store b)" "printing (store b ! c') = Flushed"
        "returned (store b ! c') = Pending" "responsePromise (store b ! c') = Fulfilled r"
      by blast
    from all t(1) have a': "(c' < k \<longrightarrow> (\<exists>r. returned (store b ! c') = Fulfilled r))"
         "(k < c' \<longrightarrow> printing (store b ! c') = NotCalled)" by blast+
    with t(2,3) have "c' = k" by (cases "c' < k"; cases "k < c'") auto
    with t(4) rej ck show ?thesis by simp
  qed
qed


lemma stalled_step:
  assumes "stalled c b"
  shows "stalled c (step b e) \<and> port_written (step b e) = port_written b"
proof (cases e)
  case (Call c0 n t)
  with assms inv_command[of b c0 n t] show ?thesis
    by (auto simp: stalled_def command_def Let_def nth_append)
next
  case (Line l)
  with assms inv_line[of b l] show ?thesis
    by (auto simp: stalled_def on_line_def handleResponse_def Let_def nth_list_update settle_def
             split: list.splits)
next
  case (TimerFires c')
  with assms inv_timeout[of b c'] show ?thesis
    by (auto simp: stalled_def on_timeout_def Let_def nth_list_update settle_def)
next
  case (PrintResolves c')
  with assms inv_print_resolved[of b c'] show ?thesis
    by (auto simp: stalled_def print_resolved_def nth_list_update)
next
  case (PrintRejects c')
  with assms inv_print_rejected[of b c'] show ?thesis
    by (auto simp: stalled_def print_rejected_def nth_list_update)
next
  case (Continue c')
  with assms stalled_continuation[OF assms, of c'] show ?thesis by simp
qed

lemma stalled_forever:
  "stalled c b \<Longrightarrow> stalled c (foldl step b evs) \<and> port_written (foldl step b evs) = port_written b"
proof (induction evs arbitrary: b)
  case Nil
  then show ?case by simp
next
  case (Cons e evs)
  from stalled_step[OF Cons.prems, of e]
  have s: "stalled c (step b e)" and w: "port_written (step b e) = port_written b" by blast+
  from Cons.IH[OF s] w show ?case by simp
qed

lemma run_append: "run (evs @ evs') = foldl step (run evs) evs'"
  by (simp add: run_def)

lemma silent_device_pending: "pending (run silent_device) = [0,1]"
  by (simp add: silent_device_def run_def new_board_def command_def executeCommand_def on_timeout_def
       print_resolved_def settle_def Let_def)

lemma silent_device_written: "port_written (run silent_device) = [''QG'' @ [CR]]"
  by (simp add: silent_device_def run_def new_board_def command_def executeCommand_def on_timeout_def
       print_resolved_def settle_def Let_def)

lemma silent_device_head: "store (run silent_device) ! 0 = \<lparr>cmd = ''QG'', numResponseLines = 1, timeout = 3000, timedOut = True,
        timerArmed = False, lines = [],
        responsePromise = Rejected (''Command '' @ [DQUOTE] @ ''QG'' @ [DQUOTE] @ '' timed out''),
        printing = Flushed, returned = Pending\<rparr>"
  by (simp add: silent_device_def run_def new_board_def command_def executeCommand_def on_timeout_def
       print_resolved_def settle_def Let_def)

lemma silent_device_length: "length (store (run silent_device)) = 2"
  by (simp add: silent_device_def run_def new_board_def command_def executeCommand_def on_timeout_def
       print_resolved_def settle_def Let_def)

text \<open>
  C1: The first of two commands times out. Its response promise is rejected with the
  timeout error, but whatever happens later, the promise returned to the caller stays
  pending, the entry stays at the head of \<open>pending\<close>, and the second command is never
  written: the queue does not advance.
\<close>

theorem timeout_stalls_queue:
  "responsePromise (store (run silent_device) ! 0)
     = Rejected (''Command '' @ [DQUOTE] @ ''QG'' @ [DQUOTE] @ '' timed out'') \<and>
   (\<forall>later. returned (store (run (silent_device @ later)) ! 0) = Pending \<and>
            hd (pending (run (silent_device @ later))) = 0 \<and>
            port_written (run (silent_device @ later)) = [''QG'' @ [CR]])"
proof -
  have st: "stalled 0 (run silent_device)"
    unfolding stalled_def using inv_run[of silent_device] by (simp add: silent_device_pending silent_device_head silent_device_length)
  have "\<And>later. stalled 0 (run (silent_device @ later)) \<and> port_written (run (silent_device @ later)) = [''QG'' @ [CR]]"
    using stalled_forever[OF st] by (simp add: run_append silent_device_written)
  then show ?thesis
    by (simp add: stalled_def silent_device_head)
qed

text \<open>
  What the port has received is exactly the commands called, up to and including the
  first one that is not completed.
\<close>

lemma filter_split_at:
  "k \<le> length xs \<Longrightarrow> \<forall>i<length xs. P (xs ! i) \<longleftrightarrow> i < k \<Longrightarrow> length (filter P xs) = k"
proof (induction xs arbitrary: k)
  case Nil
  then show ?case by simp
next
  case (Cons x xs)
  show ?case
  proof (cases k)
    case 0
    with Cons.prems(2) have "\<forall>i<length (x # xs). \<not> P ((x # xs) ! i)" by simp
    then have "\<forall>y \<in> set (x # xs). \<not> P y" by (metis in_set_conv_nth)
    then have "filter P (x # xs) = []" by (simp only: filter_False)
    with 0 show ?thesis by simp
  next
    case (Suc j)
    from Cons.prems(2) Suc have px: "P x" by (auto dest: spec[of _ 0])
    have "\<forall>i<length xs. P (xs ! i) \<longleftrightarrow> i < j"
    proof (intro allI impI)
      fix i assume "i < length xs"
      with Cons.prems(2)[rule_format, of "Suc i"] Suc show "P (xs ! i) \<longleftrightarrow> i < j" by simp
    qed
    from Cons.IH[OF _ this] Cons.prems(1) Suc px show ?thesis by simp
  qed
qed

lemma written_exactly:
  "port_written (run evs)
     = map (\<lambda>c. c @ [CR]) (take (Suc (length (filter completed (store (run evs))))) (calls evs))"
proof -
  let ?b = "run evs"
  from inv_run[of evs] obtain k where k: "k \<le> length (store ?b)"
      "port_written ?b = map (\<lambda>e. cmd e @ [CR]) (take (Suc k) (store ?b))"
      and all: "\<forall>i<length (store ?b).
          (i < k \<longrightarrow> (\<exists>r. responsePromise (store ?b ! i) = Fulfilled r \<and> returned (store ?b ! i) = Fulfilled r)
                       \<and> printing (store ?b ! i) = Flushed) \<and>
          (k \<le> i \<longrightarrow> returned (store ?b ! i) = Pending) \<and>
          (k < i \<longrightarrow> printing (store ?b ! i) = NotCalled) \<and>
          (i = k \<longrightarrow> printing (store ?b ! i) \<noteq> NotCalled)"
    unfolding queue_inv_def by blast
  have "\<forall>i<length (store ?b). completed (store ?b ! i) \<longleftrightarrow> i < k"
  proof (intro allI impI)
    fix i assume i: "i < length (store ?b)"
    show "completed (store ?b ! i) \<longleftrightarrow> i < k"
    proof (cases "i < k")
      case True
      with all i obtain r where "returned (store ?b ! i) = Fulfilled r" by blast
      with True show ?thesis by (simp add: completed_def)
    next
      case False
      with all i have "returned (store ?b ! i) = Pending" by simp
      with False show ?thesis by (simp add: completed_def)
    qed
  qed
  from filter_split_at[OF k(1) this] have "length (filter completed (store ?b)) = k" .
  moreover have "port_written ?b = map (\<lambda>c. c @ [CR]) (take (Suc k) (map cmd (store ?b)))"
    by (simp add: k(2) take_map)
  ultimately show ?thesis by (simp add: cmds_run)
qed

lemma late_reply_facts:
  "pending (run late_reply) = [1, 2]"
  "port_written (run late_reply) = [''CS'' @ [CR], ''ND'' @ [CR]]"
  "length (store (run late_reply)) = 3"
  "responsePromise (store (run late_reply) ! Suc 0)
     = Rejected (''Command '' @ [DQUOTE] @ ''ND'' @ [DQUOTE] @ '' timed out'')"
  "returned (store (run late_reply) ! Suc 0) = Pending"
  "lines (store (run late_reply) ! Suc 0) = []"
  by (simp_all add: late_reply_def board_simps)

text \<open>
  C3: Three commands are called in order. The first completes; the timer of the second
  fires before its reply arrives, and the reply is dropped. Whatever happens later, the
  promise returned for the second command stays pending, the command stays at the head
  of \<open>pending\<close>, and the third command is never written: the port sees the first two
  writes only.
\<close>

theorem late_reply_blocks_queue:
  "calls late_reply = [''CS'', ''ND'', ''NI''] \<and>
   lines (store (run late_reply) ! 1) = [] \<and>
   (\<forall>later. port_written (run (late_reply @ later)) = [''CS'' @ [CR], ''ND'' @ [CR]] \<and>
            returned (store (run (late_reply @ later)) ! 1) = Pending \<and>
            hd (pending (run (late_reply @ later))) = 1)"
proof -
  have c: "calls late_reply = [''CS'', ''ND'', ''NI'']"
    by (simp add: late_reply_def calls_def)
  have st: "stalled 1 (run late_reply)"
    unfolding stalled_def using inv_run[of late_reply] by (simp add: late_reply_facts)
  have "\<And>later. stalled 1 (run (late_reply @ later)) \<and>
      port_written (run (late_reply @ later)) = [''CS'' @ [CR], ''ND'' @ [CR]]"
    using stalled_forever[OF st] by (simp add: run_append late_reply_facts)
  with c show ?thesis
    by (simp add: stalled_def late_reply_facts)
qed

section \<open>Properties of the operations\<close>

lemma handle_frame:
  "pending (handleResponse c l b) = pending b"
  "port_written (handleResponse c l b) = port_written b"
  "length (store (handleResponse c l b)) = length (store b)"
  "printing (store (handleResponse c l b) ! i) = printing (store b ! i)"
  "returned (store (handleResponse c l b) ! i) = returned (store b ! i)"
  by (auto simp: handleResponse_def Let_def nth_list_update)

lemma line_frame:
  "pending (on_line l b) = pending b"
  "port_written (on_line l b) = port_written b"
  "length (store (on_line l b)) = length (store b)"
  "printing (store (on_line l b) ! i) = printing (store b ! i)"
  "returned (store (on_line l b) ! i) = returned (store b ! i)"
  by (auto simp: on_line_def handle_frame split: list.splits)

lemma lines_frame:
  "pending (foldl (\<lambda>s l. on_line l s) b ls) = pending b"
  "port_written (foldl (\<lambda>s l. on_line l s) b ls) = port_written b"
  "length (store (foldl (\<lambda>s l. on_line l s) b ls)) = length (store b)"
  "printing (store (foldl (\<lambda>s l. on_line l s) b ls) ! i) = printing (store b ! i)"
  "returned (store (foldl (\<lambda>s l. on_line l s) b ls) ! i) = returned (store b ! i)"
  by (induction ls arbitrary: b) (simp_all add: line_frame)

lemma print_resolved_frame:
  "pending (print_resolved c b) = pending b"
  "port_written (print_resolved c b) = port_written b"
  "length (store (print_resolved c b)) = length (store b)"
  by (auto simp: print_resolved_def)

lemma timeout_frame:
  "pending (on_timeout c b) = pending b"
  "port_written (on_timeout c b) = port_written b"
  by (auto simp: on_timeout_def Let_def)

lemma continuation_last:
  "pending b = [i] \<Longrightarrow> port_written (continuation c b) = port_written b"
  by (auto simp: continuation_def Let_def split: promise.splits)

lemma command_idle:
  assumes "pending b = []"
  shows "port_written (command c n t b) = port_written b @ [c @ [CR]]"
    and "pending (command c n t b) = [length (store b)]"
    and "printing (store (command c n t b) ! length (store b)) = Writing"
  using assms by (simp_all add: command_def executeCommand_def Let_def)

lemma perform_final: "final p \<Longrightarrow> perform p device b = (verdict p, b)"
  by (cases p) simp_all

lemma perform_writes:
  assumes "pending b = []" and "\<forall>r. final (k r)"
  shows "port_written (snd (perform (Await c n k) device b)) = port_written b @ [c @ [CR]]"
proof -
  let ?i = "length (store b)"
  let ?b1 = "command c n 3000 b"
  let ?b2 = "print_resolved ?i (foldl (\<lambda>s l. on_line l s) ?b1 (device (c @ [CR])))"
  let ?b3 = "continuation ?i ?b2"
  have w2: "port_written ?b2 = port_written b @ [c @ [CR]]" and p2: "pending ?b2 = [?i]"
    using assms(1) by (simp_all add: print_resolved_frame lines_frame command_idle)
  have w3: "port_written ?b3 = port_written b @ [c @ [CR]]"
    using continuation_last[OF p2] w2 by simp
  show ?thesis
    using assms(2) w3
    by (simp add: Let_def command_idle[OF assms(1)] perform_final timeout_frame split: promise.splits)
qed


lemma executeCommand_grows: "prefix (port_written b) (port_written (executeCommand c b))"
  by (simp add: executeCommand_def)

lemma command_grows: "prefix (port_written b) (port_written (command c n t b))"
  by (simp add: command_def executeCommand_def Let_def)

lemma continuation_grows: "prefix (port_written b) (port_written (continuation c b))"
  by (auto simp: continuation_def executeCommand_def Let_def split: promise.splits)

lemma perform_grows: "prefix (port_written b) (port_written (snd (perform p device b)))"
proof (induction p arbitrary: b)
  case (Return x)
  then show ?case by simp
next
  case (Throw x)
  then show ?case by simp
next
  case (Await c n k)
  let ?i = "length (store b)"
  let ?b1 = "command c n 3000 b"
  let ?b2 = "if printing (store ?b1 ! ?i) = Writing
             then print_resolved ?i (foldl (\<lambda>s l. on_line l s) ?b1 (device (c @ [CR]))) else ?b1"
  let ?b3 = "continuation ?i ?b2"
  have eq: "perform (Await c n k) device b =
      (case returned (store ?b3 ! ?i) of
         Fulfilled response \<Rightarrow> perform (k response) device ?b3
       | _ \<Rightarrow> (NeverSettles, on_timeout ?i ?b3))"
    by (simp only: perform.simps Let_def)
  have 1: "prefix (port_written b) (port_written ?b1)" by (rule command_grows)
  have 2: "port_written ?b2 = port_written ?b1" by (simp add: print_resolved_frame lines_frame)
  have 3: "prefix (port_written ?b2) (port_written ?b3)" by (rule continuation_grows)
  from 1 2 have 12: "prefix (port_written b) (port_written ?b2)" by simp
  have b3: "prefix (port_written b) (port_written ?b3)" by (rule prefix_order.order_trans[OF 12 3])
  show ?case
  proof (cases "returned (store ?b3 ! ?i)")
    case Pending
    have "snd (perform (Await c n k) device b) = on_timeout ?i ?b3"
      by (simp only: eq Pending promise.case snd_conv)
    with b3 show ?thesis by (simp only: timeout_frame)
  next
    case (Fulfilled r)
    have e: "snd (perform (Await c n k) device b) = snd (perform (k r) device ?b3)"
      by (simp only: eq Fulfilled promise.case)
    have ih: "prefix (port_written ?b3) (port_written (snd (perform (k r) device ?b3)))"
      by (rule Await.IH) simp
    have "prefix (port_written b) (port_written (snd (perform (k r) device ?b3)))"
      by (rule prefix_order.order_trans[OF b3 ih])
    with e show ?thesis by (simp only:)
  next
    case (Rejected r)
    have "snd (perform (Await c n k) device b) = on_timeout ?i ?b3"
      by (simp only: eq Rejected promise.case snd_conv)
    with b3 show ?thesis by (simp only: timeout_frame)
  qed
qed

lemma perform_first_write:
  assumes "sends p = Some c" "pending b = []"
  shows "prefix (port_written b @ [c @ [CR]]) (port_written (snd (perform p device b)))"
proof -
  from assms(1) obtain n k where p: "p = Await c n k"
    by (cases p) (simp_all add: sends_def)
  let ?i = "length (store b)"
  let ?b1 = "command c n 3000 b"
  let ?b2 = "if printing (store ?b1 ! ?i) = Writing
             then print_resolved ?i (foldl (\<lambda>s l. on_line l s) ?b1 (device (c @ [CR]))) else ?b1"
  let ?b3 = "continuation ?i ?b2"
  have eq: "perform (Await c n k) device b =
      (case returned (store ?b3 ! ?i) of
         Fulfilled response \<Rightarrow> perform (k response) device ?b3
       | _ \<Rightarrow> (NeverSettles, on_timeout ?i ?b3))"
    by (simp only: perform.simps Let_def)
  have 1: "port_written ?b1 = port_written b @ [c @ [CR]]" by (rule command_idle(1)[OF assms(2)])
  have 2: "port_written ?b2 = port_written ?b1" by (simp add: print_resolved_frame lines_frame)
  have 3: "prefix (port_written ?b2) (port_written ?b3)" by (rule continuation_grows)
  from 1 2 3 have b3: "prefix (port_written b @ [c @ [CR]]) (port_written ?b3)" by simp
  show ?thesis
  proof (cases "returned (store ?b3 ! ?i)")
    case Pending
    have "snd (perform p device b) = on_timeout ?i ?b3"
      by (simp only: p eq Pending promise.case snd_conv)
    with b3 show ?thesis by (simp only: timeout_frame)
  next
    case (Fulfilled r)
    have e: "snd (perform p device b) = snd (perform (k r) device ?b3)"
      by (simp only: p eq Fulfilled promise.case)
    have g: "prefix (port_written ?b3) (port_written (snd (perform (k r) device ?b3)))"
      by (rule perform_grows)
    have "prefix (port_written b @ [c @ [CR]]) (port_written (snd (perform (k r) device ?b3)))"
      by (rule prefix_order.order_trans[OF b3 g])
    with e show ?thesis by (simp only:)
  next
    case (Rejected r)
    have "snd (perform p device b) = on_timeout ?i ?b3"
      by (simp only: p eq Rejected promise.case snd_conv)
    with b3 show ?thesis by (simp only: timeout_frame)
  qed
qed

lemma exchange_one_line:
  assumes "pending b = []" "responseHandlers b = []" "device (c @ [CR]) = [l]" "final (k l)"
  shows "fst (perform (Await c 1 k) device b) = verdict (k l)"
  using assms
  by (simp add: Let_def command_def executeCommand_def on_line_def handleResponse_def
       print_resolved_def continuation_def settle_def perform_final)

lemma exchange_two_lines:
  assumes "pending b = []" "responseHandlers b = []" "device (c @ [CR]) = [l1, l2]"
    "final (k (l1 @ [CR, LF] @ l2))"
  shows "fst (perform (Await c 2 k) device b) = verdict (k (l1 @ [CR, LF] @ l2))"
  using assms
  by (simp add: Let_def command_def executeCommand_def on_line_def handleResponse_def
       print_resolved_def continuation_def settle_def perform_final numeral_2_eq_2)

lemma bitSet_Num:
  assumes "b < 31"
  shows "bitSet (Num v) b = bit v b"
proof -
  let ?w = "word_of_int v :: 32 word"
  have m: "b mod 32 = b" using assms by simp
  have p: "push_bit b (1 :: 32 word) = 2 ^ b" by simp
  show ?thesis
  proof (cases "bit v b")
    case True
    then have "bit ?w b" using assms by (simp add: bit_word_of_int_iff)
    then have "?w AND 2 ^ b = 2 ^ b"
      by (auto intro!: bit_word_eqI simp: bit_and_iff bit_exp_iff)
    moreover have "sint (2 ^ b :: 32 word) = 2 ^ b"
    proof -
      have lt: "(2 :: int) ^ b < 2 ^ 31" using assms by (intro power_strict_increasing) simp_all
      have ge: "- ((2 :: int) ^ 31) \<le> 2 ^ b" by (rule order_trans[of _ 0]) simp_all
      have "sint (2 ^ b :: 32 word) = sint (word_of_int (2 ^ b) :: 32 word)" by simp
      also have "\<dots> = signed_take_bit 31 ((2 :: int) ^ b)" by (simp only: sint_sbintrunc') simp
      also have "\<dots> = 2 ^ b" by (rule signed_take_bit_int_eq_self[OF ge lt])
      finally show ?thesis .
    qed
    ultimately show ?thesis using True by (simp add: bitSet_def ToInt32_def m)
  next
    case False
    then have "\<not> bit ?w b" by (simp add: bit_word_of_int_iff)
    then have "?w AND 2 ^ b = 0"
      by (auto intro!: bit_word_eqI simp: bit_and_iff bit_exp_iff)
    then show ?thesis using False by (simp add: bitSet_def ToInt32_def m)
  qed
qed

lemma bitSet_NaN: "bitSet NaN b = False"
  by (simp add: bitSet_def ToInt32_def)

lemmas number_simps = Number_toString_def digit_chars.simps digit_char_def Math_floor_def
lemmas parse_simps = parseInt_def parseInt_element_def js_whitespace_def radix_digit_def
  digit_value_def element_def js_split_def Let_def

lemma new_board_idle: "pending new_board = []" "responseHandlers new_board = []" "port_written new_board = []"
  by (simp_all add: new_board_def)

lemma one_command_Await [simp]:
  "one_command (Await c n k) c' \<longleftrightarrow> c = c' \<and> (\<forall>response. final (k response))"
  by (auto simp: one_command_def)

lemma one_command_Throw [simp]: "\<not> one_command (Throw e) c"
  by (simp add: one_command_def)

lemma one_command_Return [simp]: "\<not> one_command (Return v) c"
  by (simp add: one_command_def)

lemma one_command_asserting [simp]:
  "one_command (asserting chk p) c \<longleftrightarrow> chk = None \<and> one_command p c"
  by (cases chk) (simp_all add: asserting_def)

lemma final_map [simp]: "final (map_proc f p) = final p"
  by (cases p) simp_all

lemma one_command_effect: "one_command p c \<Longrightarrow> one_command (effect p) c"
  by (auto simp: one_command_def effect_def)

lemma final_data_and_OK [simp]: "(\<And>x. final (k x)) \<Longrightarrow> final (data_and_OK response k)"
  by (simp add: data_and_OK_def Let_def)

lemma one_command_writes:
  assumes "one_command p c"
  shows "port_written (snd (perform p device new_board)) = [c @ [CR]]"
proof -
  from assms obtain n k where p: "p = Await c n k" and f: "\<forall>response. final (k response)"
    by (auto simp: one_command_def)
  show ?thesis unfolding p using perform_writes[OF _ f, of new_board c n device]
    by (simp add: new_board_idle)
qed

lemma Number_toString_flag: "Number_toString (if v then 1 else 0) = flag v"
  by (simp add: flag_def number_simps)

lemma Number_toString_flag': "Number_toString (if v then 0 else 1) = flag (\<not> v)"
  by (simp add: flag_def number_simps)

lemma assertByte_byte: "assertByte v = None \<longleftrightarrow> byte v"
  by (auto simp: assertByte_def byte_def in_range_def Number_isInteger_def)

lemma assertValidPortLetter_letter: "assertValidPortLetter l = None \<longleftrightarrow> port_letter l"
  by (simp add: assertValidPortLetter_def port_letter_def)

lemma constant_strings:
  "Number_toString PEN_UP = ''1''" "Number_toString PEN_DOWN = ''0''"
  "Number_toString MODE_ANALOG = ''1''" "Number_toString MODE_DIGITAL = ''0''"
  by (simp_all add: PEN_UP_def PEN_DOWN_def MODE_ANALOG_def MODE_DIGITAL_def number_simps)

lemma index_strings:
  "Number_toString 1 = ''1''" "Number_toString 2 = ''2''" "Number_toString 4 = ''4''"
  "Number_toString 5 = ''5''" "Number_toString 8 = ''8''" "Number_toString 9 = ''9''"
  "Number_toString 10 = ''10''" "Number_toString 11 = ''11''" "Number_toString 12 = ''12''"
  "Number_toString 13 = ''13''"
  by (simp_all add: number_simps)

lemmas wire_simps = constant_strings truthy_def comma_separated_def flag_def or_default_def optional_def in_range_def
  assertByte_byte assertValidPortLetter_letter Number_toString_flag Number_toString_flag'
  Let_def Math_floor_def
lemma shape_AnalogValueGet:
  "within_domain AnalogValueGet \<Longrightarrow> one_command analogValueGet (hd (wire_format AnalogValueGet))"
  by (simp add: analogValueGet_def wire_simps split: option.splits)

lemma shape_AnalogConfigure:
  "within_domain (AnalogConfigure channel enabled) \<Longrightarrow> one_command (analogConfigure channel enabled) (hd (wire_format (AnalogConfigure channel enabled)))"
  by (simp add: analogConfigure_def wire_simps split: option.splits)

lemma shape_EnterBootloader:
  "within_domain EnterBootloader \<Longrightarrow> one_command enterBootloader (hd (wire_format EnterBootloader))"
  by (simp add: enterBootloader_def wire_simps split: option.splits)

lemma shape_ConfigurePinDirections:
  "within_domain (ConfigurePinDirections portA portB portC portD portE) \<Longrightarrow> one_command (configurePinDirections portA portB portC portD portE) (hd (wire_format (ConfigurePinDirections portA portB portC portD portE)))"
  by (simp add: configurePinDirections_def wire_simps split: option.splits)

lemma shape_ClearStepPosition:
  "within_domain ClearStepPosition \<Longrightarrow> one_command clearStepPosition (hd (wire_format ClearStepPosition))"
  by (simp add: clearStepPosition_def wire_simps split: option.splits)

lemma shape_EnableMotors:
  "within_domain (EnableMotors m1Mode m2Mode) \<Longrightarrow> one_command (enableMotors m1Mode m2Mode) (hd (wire_format (EnableMotors m1Mode m2Mode)))"
  by (simp add: enableMotors_def wire_simps split: option.splits)

lemma shape_EmergencyStop:
  "within_domain (EmergencyStop disableMotors) \<Longrightarrow> one_command (emergencyStop disableMotors) (hd (wire_format (EmergencyStop disableMotors)))"
  by (simp add: emergencyStop_def wire_simps split: option.splits)

lemma shape_AbsoluteMove:
  "within_domain (AbsoluteMove stepFrequency position1 position2) \<Longrightarrow> one_command (absoluteMove stepFrequency position1 position2) (hd (wire_format (AbsoluteMove stepFrequency position1 position2)))"
  by (simp add: absoluteMove_def wire_simps split: option.splits)

lemma shape_GetInput:
  "within_domain GetInput \<Longrightarrow> one_command getInput (hd (wire_format GetInput))"
  by (simp add: getInput_def wire_simps split: option.splits)

lemma shape_LowLevelMove:
  "within_domain (LowLevelMove m1Rate m1Steps m1Accel m1Clear m2Rate m2Steps m2Accel m2Clear) \<Longrightarrow> one_command (lowLevelMove m1Rate m1Steps m1Accel m1Clear m2Rate m2Steps m2Accel m2Clear) (hd (wire_format (LowLevelMove m1Rate m1Steps m1Accel m1Clear m2Rate m2Steps m2Accel m2Clear)))"
  by (simp add: lowLevelMove_def wire_simps split: option.splits)

lemma shape_LowLevelMoveTimeLimited:
  "within_domain (LowLevelMoveTimeLimited intervals m1Rate m1Accel m1Clear m2Rate m2Accel m2Clear) \<Longrightarrow> one_command (lowLevelMoveTimeLimited intervals m1Rate m1Accel m1Clear m2Rate m2Accel m2Clear) (hd (wire_format (LowLevelMoveTimeLimited intervals m1Rate m1Accel m1Clear m2Rate m2Accel m2Clear)))"
  by (simp add: lowLevelMoveTimeLimited_def wire_simps split: option.splits)

lemma shape_MemoryRead:
  "within_domain (MemoryRead address) \<Longrightarrow> one_command (memoryRead address) (hd (wire_format (MemoryRead address)))"
  by (simp add: memoryRead_def wire_simps split: option.splits)

lemma shape_MemoryWrite:
  "within_domain (MemoryWrite address val) \<Longrightarrow> one_command (memoryWrite address val) (hd (wire_format (MemoryWrite address val)))"
  by (simp add: memoryWrite_def wire_simps split: option.splits)

lemma shape_NodeCountDecrement:
  "within_domain NodeCountDecrement \<Longrightarrow> one_command nodeCountDecrement (hd (wire_format NodeCountDecrement))"
  by (simp add: nodeCountDecrement_def wire_simps split: option.splits)

lemma shape_NodeCountIncrement:
  "within_domain NodeCountIncrement \<Longrightarrow> one_command nodeCountIncrement (hd (wire_format NodeCountIncrement))"
  by (simp add: nodeCountIncrement_def wire_simps split: option.splits)

lemma shape_SetOutputs:
  "within_domain (SetOutputs portA portB portC portD portE) \<Longrightarrow> one_command (setOutputs portA portB portC portD portE) (hd (wire_format (SetOutputs portA portB portC portD portE)))"
  by (simp add: setOutputs_def wire_simps split: option.splits)

lemma shape_PulseConfigure:
  "within_domain (PulseConfigure duration0 period0 duration1 period1 duration2 period2 duration3 period3) \<Longrightarrow> one_command (pulseConfigure duration0 period0 duration1 period1 duration2 period2 duration3 period3) (hd (wire_format (PulseConfigure duration0 period0 duration1 period1 duration2 period2 duration3 period3)))"
  by (simp add: pulseConfigure_def wire_simps split: option.splits)

lemma shape_SetPinDirection:
  "within_domain (SetPinDirection portLetter pinIndex isOutput) \<Longrightarrow> one_command (setPinDirection portLetter pinIndex isOutput) (hd (wire_format (SetPinDirection portLetter pinIndex isOutput)))"
  by (simp add: setPinDirection_def wire_simps split: option.splits)

lemma shape_PulseGo:
  "within_domain (PulseGo enabled) \<Longrightarrow> one_command (pulseGo enabled) (hd (wire_format (PulseGo enabled)))"
  by (simp add: pulseGo_def wire_simps split: option.splits)

lemma shape_PinInput:
  "within_domain (PinInput portLetter pinIndex) \<Longrightarrow> one_command (pinInput portLetter pinIndex) (hd (wire_format (PinInput portLetter pinIndex)))"
  by (simp add: pinInput_def wire_simps split: option.splits)

lemma shape_PinOutput:
  "within_domain (PinOutput portLetter pinIndex setPinHigh) \<Longrightarrow> one_command (pinOutput portLetter pinIndex setPinHigh) (hd (wire_format (PinOutput portLetter pinIndex setPinHigh)))"
  by (simp add: pinOutput_def wire_simps split: option.splits)

lemma shape_QueryButton:
  "within_domain QueryButton \<Longrightarrow> one_command queryButton (hd (wire_format QueryButton))"
  by (simp add: queryButton_def wire_simps split: option.splits)

lemma shape_QueryCurrent:
  "within_domain (QueryCurrent oldBoard) \<Longrightarrow> one_command (queryCurrent oldBoard) (hd (wire_format (QueryCurrent oldBoard)))"
  by (simp add: queryCurrent_def wire_simps split: option.splits)

lemma shape_QueryMotorConfig:
  "within_domain QueryMotorConfig \<Longrightarrow> one_command queryMotorConfig (hd (wire_format QueryMotorConfig))"
  by (simp add: queryMotorConfig_def wire_simps split: option.splits)

lemma shape_QueryGeneral:
  "within_domain QueryGeneral \<Longrightarrow> one_command queryGeneral (hd (wire_format QueryGeneral))"
  by (simp add: queryGeneral_def wire_simps split: option.splits)

lemma shape_QueryLayer:
  "within_domain QueryLayer \<Longrightarrow> one_command queryLayer (hd (wire_format QueryLayer))"
  by (simp add: queryLayer_def wire_simps split: option.splits)

lemma shape_QueryMotors:
  "within_domain QueryMotors \<Longrightarrow> one_command queryMotors (hd (wire_format QueryMotors))"
  by (simp add: queryMotors_def wire_simps split: option.splits)

lemma shape_QueryPen:
  "within_domain QueryPen \<Longrightarrow> one_command queryPen (hd (wire_format QueryPen))"
  by (simp add: queryPen_def wire_simps split: option.splits)

lemma shape_QueryServoPower:
  "within_domain QueryServoPower \<Longrightarrow> one_command queryServoPower (hd (wire_format QueryServoPower))"
  by (simp add: queryServoPower_def wire_simps split: option.splits)

lemma shape_QueryStepPosition:
  "within_domain QueryStepPosition \<Longrightarrow> one_command queryStepPosition (hd (wire_format QueryStepPosition))"
  by (simp add: queryStepPosition_def wire_simps split: option.splits)

lemma shape_QueryNickname:
  "within_domain QueryNickname \<Longrightarrow> one_command queryNickname (hd (wire_format QueryNickname))"
  by (simp add: queryNickname_def wire_simps split: option.splits)

lemma shape_Reboot:
  "within_domain Reboot \<Longrightarrow> one_command reboot (hd (wire_format Reboot))"
  by (simp add: reboot_def wire_simps split: option.splits)

lemma shape_Reset:
  "within_domain Reset \<Longrightarrow> one_command reset (hd (wire_format Reset))"
  by (simp add: reset_def wire_simps split: option.splits)

lemma shape_ServoOutput:
  "within_domain (ServoOutput position pinIndex rate delay) \<Longrightarrow> one_command (servoOutput position pinIndex rate delay) (hd (wire_format (ServoOutput position pinIndex rate delay)))"
  by (simp add: servoOutput_def wire_simps split: option.splits)

lemma shape_StepperAndServoModeConfigure:
  "within_domain (StepperAndServoModeConfigure paramIndex paramValue) \<Longrightarrow> one_command (stepperAndServoModeConfigure paramIndex paramValue) (hd (wire_format (StepperAndServoModeConfigure paramIndex paramValue)))"
  by (auto simp: stepperAndServoModeConfigure_def stepperAndServoModeConfigure_command_def wire_simps index_strings split: if_splits)

lemma shape_SetEngraver:
  "within_domain (SetEngraver enableEngraver pwr useMotionQueue) \<Longrightarrow> one_command (setEngraver enableEngraver pwr useMotionQueue) (hd (wire_format (SetEngraver enableEngraver pwr useMotionQueue)))"
  by (simp add: setEngraver_def wire_simps split: option.splits)

lemma shape_SetLayer:
  "within_domain (SetLayer layerValue) \<Longrightarrow> one_command (setLayer layerValue) (hd (wire_format (SetLayer layerValue)))"
  by (simp add: setLayer_def wire_simps split: option.splits)

lemma shape_StepperMove:
  "within_domain (StepperMove duration m1Steps m2Steps) \<Longrightarrow> one_command (stepperMove duration m1Steps m2Steps) (hd (wire_format (StepperMove duration m1Steps m2Steps)))"
  by (simp add: stepperMove_def wire_simps split: option.splits)

lemma shape_SetNodeCount:
  "within_domain (SetNodeCount val) \<Longrightarrow> one_command (setNodeCount val) (hd (wire_format (SetNodeCount val)))"
  by (simp add: setNodeCount_def wire_simps split: option.splits)

lemma shape_SetPenState:
  "within_domain (SetPenState down duration portBPin) \<Longrightarrow> one_command (setPenState down duration portBPin) (hd (wire_format (SetPenState down duration portBPin)))"
  by (simp add: setPenState_def wire_simps split: option.splits)

lemma shape_SetServoPowerTimeout:
  "within_domain (SetServoPowerTimeout duration setPowerOn) \<Longrightarrow> one_command (setServoPowerTimeout duration setPowerOn) (hd (wire_format (SetServoPowerTimeout duration setPowerOn)))"
  by (simp add: setServoPowerTimeout_def wire_simps split: option.splits)

lemma shape_SetNickname:
  "within_domain (SetNickname nickname) \<Longrightarrow> one_command (setNickname nickname) (hd (wire_format (SetNickname nickname)))"
  by (simp add: setNickname_def wire_simps split: option.splits)

lemma shape_TimedRead:
  "within_domain (TimedRead duration digitalMode) \<Longrightarrow> one_command (timedRead duration digitalMode) (hd (wire_format (TimedRead duration digitalMode)))"
  by (simp add: timedRead_def wire_simps split: option.splits)

lemma shape_TogglePen:
  "within_domain (TogglePen duration) \<Longrightarrow> one_command (togglePen duration) (hd (wire_format (TogglePen duration)))"
  by (simp add: togglePen_def wire_simps split: option.splits)

lemma shape_QueryNodeCount:
  "within_domain QueryNodeCount \<Longrightarrow> one_command queryNodeCount (hd (wire_format QueryNodeCount))"
  by (simp add: queryNodeCount_def wire_simps split: option.splits)

lemma shape_QueryVersion:
  "within_domain QueryVersion \<Longrightarrow> one_command queryVersion (hd (wire_format QueryVersion))"
  by (simp add: queryVersion_def wire_simps split: option.splits)

lemma shape_StepperMoveMixedAxis:
  "within_domain (StepperMoveMixedAxis durationMs stepsA stepsB) \<Longrightarrow> one_command (stepperMoveMixedAxis durationMs stepsA stepsB) (hd (wire_format (StepperMoveMixedAxis durationMs stepsA stepsB)))"
  by (simp add: stepperMoveMixedAxis_def wire_simps split: option.splits)

lemma print_resolved_returned:
  "returned (store (print_resolved c b) ! i) = returned (store b ! i)"
  by (auto simp: print_resolved_def nth_list_update)

lemma continuation_settles:
  assumes "returned (store b ! i) = Pending" "returned (store (continuation i b) ! i) = Fulfilled r"
    "pending b = [i]"
  shows "pending (continuation i b) = []"
  using assms
  by (auto simp: continuation_def Let_def split: promise.splits if_splits)

lemma perform_Await_idle:
  assumes "pending b = []"
  shows "(\<exists>r b'. pending b' = [] \<and> port_written b' = port_written b @ [c @ [CR]] \<and>
            perform (Await c n k) device b = perform (k r) device b') \<or>
         port_written (snd (perform (Await c n k) device b)) = port_written b @ [c @ [CR]]"
proof -
  let ?i = "length (store b)"
  let ?b1 = "command c n 3000 b"
  let ?b2 = "print_resolved ?i (foldl (\<lambda>s l. on_line l s) ?b1 (device (c @ [CR])))"
  let ?b3 = "continuation ?i ?b2"
  have eq: "perform (Await c n k) device b =
      (case returned (store ?b3 ! ?i) of
         Fulfilled response \<Rightarrow> perform (k response) device ?b3
       | _ \<Rightarrow> (NeverSettles, on_timeout ?i ?b3))"
    by (simp add: Let_def command_idle[OF assms])
  have w2: "port_written ?b2 = port_written b @ [c @ [CR]]" and p2: "pending ?b2 = [?i]"
    using assms by (simp_all add: print_resolved_frame lines_frame command_idle)
  have w3: "port_written ?b3 = port_written b @ [c @ [CR]]"
    using continuation_last[OF p2] w2 by simp
  have r1: "returned (store ?b1 ! ?i) = Pending"
    using assms by (simp add: command_def executeCommand_def Let_def)
  have r2: "returned (store ?b2 ! ?i) = Pending"
    by (simp add: print_resolved_returned lines_frame r1)
  show ?thesis
  proof (cases "returned (store ?b3 ! ?i)")
    case Pending
    then show ?thesis by (simp only: eq promise.case snd_conv timeout_frame w3) simp
  next
    case (Rejected m)
    then show ?thesis by (simp only: eq promise.case snd_conv timeout_frame w3) simp
  next
    case (Fulfilled r)
    have "pending ?b3 = []" by (rule continuation_settles[OF r2 Fulfilled p2])
    moreover have "perform (Await c n k) device b = perform (k r) device ?b3"
      by (simp only: eq Fulfilled promise.case)
    ultimately show ?thesis using w3 by blast
  qed
qed

lemma sends_only_prefix:
  "pending b = [] \<Longrightarrow> sends_only p cs \<Longrightarrow>
   prefix (port_written (snd (perform p device b))) (port_written b @ map (\<lambda>c. c @ [CR]) cs)"
proof (induction p arbitrary: b cs)
  case (Return x)
  then show ?case by simp
next
  case (Throw x)
  then show ?case by simp
next
  case (Await c n k)
  from Await.prems(2) obtain rest where cs: "cs = c # rest"
    and rest: "\<And>response. sends_only (k response) rest"
    by (auto split: list.splits)
  from perform_Await_idle[OF Await.prems(1), of c n k device]
  show ?case
  proof
    assume "\<exists>r b'. pending b' = [] \<and> port_written b' = port_written b @ [c @ [CR]] \<and>
            perform (Await c n k) device b = perform (k r) device b'"
    then obtain r b' where b': "pending b' = []" "port_written b' = port_written b @ [c @ [CR]]"
      "perform (Await c n k) device b = perform (k r) device b'" by blast
    have "prefix (port_written (snd (perform (k r) device b'))) (port_written b' @ map (\<lambda>c. c @ [CR]) rest)"
      by (rule Await.IH[OF _ b'(1) rest]) simp
    then show ?thesis by (simp only: b'(3)) (simp add: b'(2) cs)
  next
    assume "port_written (snd (perform (Await c n k) device b)) = port_written b @ [c @ [CR]]"
    then show ?thesis by (simp only:) (simp add: cs)
  qed
qed

lemma perform_Await_answered:
  assumes "pending b = []" "responseHandlers b = []" "\<forall>w. length (device w) = 1"
  shows "\<exists>l b'. pending b' = [] \<and> responseHandlers b' = [] \<and>
            port_written b' = port_written b @ [c @ [CR]] \<and>
            (\<forall>k. perform (Await c 1 k) device b = perform (k l) device b')"
proof -
  from assms(3) have "length (device (c @ [CR])) = 1" by blast
  then obtain l where l: "device (c @ [CR]) = [l]" by (cases "device (c @ [CR])") simp_all
  let ?i = "length (store b)"
  let ?b' = "continuation ?i (print_resolved ?i (on_line l (command c 1 3000 b)))"
  have "pending ?b' = []" "responseHandlers ?b' = []" "port_written ?b' = port_written b @ [c @ [CR]]"
    using assms(1,2)
    by (simp_all add: Let_def command_def executeCommand_def on_line_def handleResponse_def
          print_resolved_def continuation_def settle_def)
  moreover have "\<forall>k. perform (Await c 1 k) device b = perform (k l) device ?b'"
    using assms(1,2) l
    by (simp add: Let_def command_def executeCommand_def on_line_def handleResponse_def
          print_resolved_def continuation_def settle_def)
  ultimately show ?thesis by blast
qed

lemma one_command_sends_only: "one_command p c \<Longrightarrow> sends_only p [c]"
proof -
  assume "one_command p c"
  then obtain n k where p: "p = Await c n k" and f: "\<forall>response. final (k response)"
    by (auto simp: one_command_def)
  have "\<And>response. sends_only (k response) []"
  proof -
    fix response
    from f have "final (k response)" by blast
    then show "sends_only (k response) []" by (cases "k response") simp_all
  qed
  then show ?thesis by (simp add: p)
qed

lemma configureUserOptions_written:
  assumes "\<forall>w. length (device w) = 1"
  shows "port_written (snd (perform (configureUserOptions ok limits led) device new_board))
           = map (\<lambda>c. c @ [CR]) (wire_format (ConfigureUserOptions ok limits led))"
proof -
  let ?c1 = "''CU,1,'' @ flag (or_default ok True)"
  let ?c2 = "''CU,2,'' @ flag (or_default limits True)"
  let ?c3 = "''CU,3,'' @ flag (or_default led False)"
  have cu: "configureUserOptions ok limits led =
      Await ?c1 1 (\<lambda>r1. Await ?c2 1 (\<lambda>r2. Await ?c3 1 (\<lambda>r3. Return ())))"
    by (simp add: configureUserOptions_def Let_def Number_toString_flag or_default_def)
  from perform_Await_answered[OF new_board_idle(1,2) assms, of ?c1]
  obtain l1 b1 where b1: "pending b1 = []" "responseHandlers b1 = []"
      "port_written b1 = [?c1 @ [CR]]"
      "\<And>k :: string \<Rightarrow> unit proc. perform (Await ?c1 1 k) device new_board = perform (k l1) device b1"
    by (auto simp: new_board_idle)
  from perform_Await_answered[OF b1(1,2) assms, of ?c2]
  obtain l2 b2 where b2: "pending b2 = []" "responseHandlers b2 = []"
      "port_written b2 = [?c1 @ [CR], ?c2 @ [CR]]"
      "\<And>k :: string \<Rightarrow> unit proc. perform (Await ?c2 1 k) device b1 = perform (k l2) device b2"
    by (auto simp: b1(3))
  from perform_Await_answered[OF b2(1,2) assms, of ?c3]
  obtain l3 b3 where b3: "port_written b3 = [?c1 @ [CR], ?c2 @ [CR], ?c3 @ [CR]]"
      "\<And>k :: string \<Rightarrow> unit proc. perform (Await ?c3 1 k) device b2 = perform (k l3) device b3"
    by (auto simp: b2(3))
  have "perform (configureUserOptions ok limits led) device new_board
          = perform (Await ?c2 1 (\<lambda>r2. Await ?c3 1 (\<lambda>r3. Return ()))) device b1"
    unfolding cu by (rule b1(4))
  also have "\<dots> = perform (Await ?c3 1 (\<lambda>r3. Return ())) device b2"
    by (rule b2(4))
  also have "\<dots> = perform (Return ()) device b3"
    by (rule b3(2))
  finally show ?thesis
    by (simp add: b3(1) comma_separated_def)
qed

lemma configureUserOptions_sends_only:
  "sends_only (configureUserOptions ok limits led) (wire_format (ConfigureUserOptions ok limits led))"
  by (simp add: configureUserOptions_def Let_def Number_toString_flag or_default_def comma_separated_def)

lemma wire_format_single:
  "length (wire_format r) = 1 \<Longrightarrow> wire_format r = [hd (wire_format r)]"
  by (cases "wire_format r") simp_all

lemma invoke_one_command:
  assumes "within_domain r" and "length (wire_format r) = 1"
  shows "one_command (invoke r) (hd (wire_format r))"
proof (cases r)
  case AnalogValueGet
  from assms(1) show ?thesis unfolding AnalogValueGet invoke.simps
    by (intro one_command_effect shape_AnalogValueGet)
next
  case (AnalogConfigure channel enabled)
  from assms(1) show ?thesis unfolding AnalogConfigure invoke.simps
    by (intro one_command_effect shape_AnalogConfigure)
next
  case EnterBootloader
  from assms(1) show ?thesis unfolding EnterBootloader invoke.simps
    by (intro one_command_effect shape_EnterBootloader)
next
  case (ConfigurePinDirections portA portB portC portD portE)
  from assms(1) show ?thesis unfolding ConfigurePinDirections invoke.simps
    by (intro one_command_effect shape_ConfigurePinDirections)
next
  case ClearStepPosition
  from assms(1) show ?thesis unfolding ClearStepPosition invoke.simps
    by (intro one_command_effect shape_ClearStepPosition)
next
  case (ConfigureUserOptions ok limits led)
  with assms(2) show ?thesis by simp
next
  case (EnableMotors m1Mode m2Mode)
  from assms(1) show ?thesis unfolding EnableMotors invoke.simps
    by (intro one_command_effect shape_EnableMotors)
next
  case (EmergencyStop disableMotors)
  from assms(1) show ?thesis unfolding EmergencyStop invoke.simps
    by (intro one_command_effect shape_EmergencyStop)
next
  case (AbsoluteMove stepFrequency position1 position2)
  from assms(1) show ?thesis unfolding AbsoluteMove invoke.simps
    by (intro one_command_effect shape_AbsoluteMove)
next
  case GetInput
  from assms(1) show ?thesis unfolding GetInput invoke.simps
    by (intro one_command_effect shape_GetInput)
next
  case (LowLevelMove m1Rate m1Steps m1Accel m1Clear m2Rate m2Steps m2Accel m2Clear)
  from assms(1) show ?thesis unfolding LowLevelMove invoke.simps
    by (intro one_command_effect shape_LowLevelMove)
next
  case (LowLevelMoveTimeLimited intervals m1Rate m1Accel m1Clear m2Rate m2Accel m2Clear)
  from assms(1) show ?thesis unfolding LowLevelMoveTimeLimited invoke.simps
    by (intro one_command_effect shape_LowLevelMoveTimeLimited)
next
  case (MemoryRead address)
  from assms(1) show ?thesis unfolding MemoryRead invoke.simps
    by (intro one_command_effect shape_MemoryRead)
next
  case (MemoryWrite address val)
  from assms(1) show ?thesis unfolding MemoryWrite invoke.simps
    by (intro one_command_effect shape_MemoryWrite)
next
  case NodeCountDecrement
  from assms(1) show ?thesis unfolding NodeCountDecrement invoke.simps
    by (intro one_command_effect shape_NodeCountDecrement)
next
  case NodeCountIncrement
  from assms(1) show ?thesis unfolding NodeCountIncrement invoke.simps
    by (intro one_command_effect shape_NodeCountIncrement)
next
  case (SetOutputs portA portB portC portD portE)
  from assms(1) show ?thesis unfolding SetOutputs invoke.simps
    by (intro one_command_effect shape_SetOutputs)
next
  case (PulseConfigure duration0 period0 duration1 period1 duration2 period2 duration3 period3)
  from assms(1) show ?thesis unfolding PulseConfigure invoke.simps
    by (intro one_command_effect shape_PulseConfigure)
next
  case (SetPinDirection portLetter pinIndex isOutput)
  from assms(1) show ?thesis unfolding SetPinDirection invoke.simps
    by (intro one_command_effect shape_SetPinDirection)
next
  case (PulseGo enabled)
  from assms(1) show ?thesis unfolding PulseGo invoke.simps
    by (intro one_command_effect shape_PulseGo)
next
  case (PinInput portLetter pinIndex)
  from assms(1) show ?thesis unfolding PinInput invoke.simps
    by (intro one_command_effect shape_PinInput)
next
  case (PinOutput portLetter pinIndex setPinHigh)
  from assms(1) show ?thesis unfolding PinOutput invoke.simps
    by (intro one_command_effect shape_PinOutput)
next
  case QueryButton
  from assms(1) show ?thesis unfolding QueryButton invoke.simps
    by (intro one_command_effect shape_QueryButton)
next
  case (QueryCurrent oldBoard)
  from assms(1) show ?thesis unfolding QueryCurrent invoke.simps
    by (intro one_command_effect shape_QueryCurrent)
next
  case QueryMotorConfig
  from assms(1) show ?thesis unfolding QueryMotorConfig invoke.simps
    by (intro one_command_effect shape_QueryMotorConfig)
next
  case QueryGeneral
  from assms(1) show ?thesis unfolding QueryGeneral invoke.simps
    by (intro one_command_effect shape_QueryGeneral)
next
  case QueryLayer
  from assms(1) show ?thesis unfolding QueryLayer invoke.simps
    by (intro one_command_effect shape_QueryLayer)
next
  case QueryMotors
  from assms(1) show ?thesis unfolding QueryMotors invoke.simps
    by (intro one_command_effect shape_QueryMotors)
next
  case QueryPen
  from assms(1) show ?thesis unfolding QueryPen invoke.simps
    by (intro one_command_effect shape_QueryPen)
next
  case QueryServoPower
  from assms(1) show ?thesis unfolding QueryServoPower invoke.simps
    by (intro one_command_effect shape_QueryServoPower)
next
  case QueryStepPosition
  from assms(1) show ?thesis unfolding QueryStepPosition invoke.simps
    by (intro one_command_effect shape_QueryStepPosition)
next
  case QueryNickname
  from assms(1) show ?thesis unfolding QueryNickname invoke.simps
    by (intro one_command_effect shape_QueryNickname)
next
  case Reboot
  from assms(1) show ?thesis unfolding Reboot invoke.simps
    by (intro one_command_effect shape_Reboot)
next
  case Reset
  from assms(1) show ?thesis unfolding Reset invoke.simps
    by (intro one_command_effect shape_Reset)
next
  case (ServoOutput position pinIndex rate delay)
  from assms(1) show ?thesis unfolding ServoOutput invoke.simps
    by (intro one_command_effect shape_ServoOutput)
next
  case (StepperAndServoModeConfigure paramIndex paramValue)
  from assms(1) show ?thesis unfolding StepperAndServoModeConfigure invoke.simps
    by (intro one_command_effect shape_StepperAndServoModeConfigure)
next
  case (SetEngraver enableEngraver pwr useMotionQueue)
  from assms(1) show ?thesis unfolding SetEngraver invoke.simps
    by (intro one_command_effect shape_SetEngraver)
next
  case (SetLayer layerValue)
  from assms(1) show ?thesis unfolding SetLayer invoke.simps
    by (intro one_command_effect shape_SetLayer)
next
  case (StepperMove duration m1Steps m2Steps)
  from assms(1) show ?thesis unfolding StepperMove invoke.simps
    by (intro one_command_effect shape_StepperMove)
next
  case (SetNodeCount val)
  from assms(1) show ?thesis unfolding SetNodeCount invoke.simps
    by (intro one_command_effect shape_SetNodeCount)
next
  case (SetPenState down duration portBPin)
  from assms(1) show ?thesis unfolding SetPenState invoke.simps
    by (intro one_command_effect shape_SetPenState)
next
  case (SetServoPowerTimeout duration setPowerOn)
  from assms(1) show ?thesis unfolding SetServoPowerTimeout invoke.simps
    by (intro one_command_effect shape_SetServoPowerTimeout)
next
  case (SetNickname nickname)
  from assms(1) show ?thesis unfolding SetNickname invoke.simps
    by (intro one_command_effect shape_SetNickname)
next
  case (TimedRead duration digitalMode)
  from assms(1) show ?thesis unfolding TimedRead invoke.simps
    by (intro one_command_effect shape_TimedRead)
next
  case (TogglePen duration)
  from assms(1) show ?thesis unfolding TogglePen invoke.simps
    by (intro one_command_effect shape_TogglePen)
next
  case QueryNodeCount
  from assms(1) show ?thesis unfolding QueryNodeCount invoke.simps
    by (intro one_command_effect shape_QueryNodeCount)
next
  case QueryVersion
  from assms(1) show ?thesis unfolding QueryVersion invoke.simps
    by (intro one_command_effect shape_QueryVersion)
next
  case (StepperMoveMixedAxis durationMs stepsA stepsB)
  from assms(1) show ?thesis unfolding StepperMoveMixedAxis invoke.simps
    by (intro one_command_effect shape_StepperMoveMixedAxis)
qed

lemma written_nonempty:
  "sends_only p cs \<Longrightarrow> sends p = Some c \<Longrightarrow>
   take 1 (port_written (snd (perform p device new_board))) = [c @ [CR]]"
proof -
  assume "sends p = Some c"
  from perform_first_write[OF this new_board_idle(1), of device]
  show ?thesis by (auto simp: new_board_idle prefix_def)
qed

lemma effect_unit: "effect (p :: unit proc) = p"
proof -
  have "(\<lambda>_ :: unit. ()) = id" by (rule ext) simp
  then show ?thesis by (simp add: effect_def proc.map_id)
qed

lemma invoke_sends_only:
  assumes "within_domain r"
  shows "sends_only (invoke r) (wire_format r)"
proof (cases "length (wire_format r) = 1")
  case True
  from one_command_sends_only[OF invoke_one_command[OF assms True]] wire_format_single[OF True]
  show ?thesis by simp
next
  case False
  then obtain ok limits led where r: "r = ConfigureUserOptions ok limits led"
    by (cases r) simp_all
  show ?thesis unfolding r invoke.simps effect_unit by (rule configureUserOptions_sends_only)
qed



lemma queryGeneral_bits:
  "parseInt line 16 = Num v \<Longrightarrow>
    fst (perform queryGeneral (\<lambda>w. [line]) new_board)
     = Resolved \<lparr>pinRB5 = bit v 7, pinRB2 = bit v 6, buttonPrg = bit v 5, penDown = bit v 4,
                 commandExecuting = bit v 3, motor1Moving = bit v 2, motor2Moving = bit v 1,
                 fifoEmpty = (\<not> bit v 0)\<rparr>"
  unfolding queryGeneral_def
  apply (subst exchange_one_line)
      apply (simp_all add: new_board_idle Let_def)
  apply (simp add: bitSet_Num)
  done

text \<open>
  C6: \<open>queryGeneral\<close> fed the line \<open>3E\<close> resolves with RB5 and RB2 false and every
  other flag true; for every reply line that parses as a status byte \<open>v\<close>, bits 7 down to
  0 of \<open>v\<close> are \<open>pinRB5\<close>, \<open>pinRB2\<close>, \<open>buttonPrg\<close>, \<open>penDown\<close>,
  \<open>commandExecuting\<close>, \<open>motor1Moving\<close>, \<open>motor2Moving\<close> and the negation of
  \<open>fifoEmpty\<close>.
\<close>

theorem queryGeneral_decodes_status_bits:
  "fst (perform queryGeneral (\<lambda>w. [''3E'']) new_board)
     = Resolved \<lparr>pinRB5 = False, pinRB2 = False, buttonPrg = True, penDown = True,
                 commandExecuting = True, motor1Moving = True, motor2Moving = True,
                 fifoEmpty = True\<rparr> \<and>
   (parseInt line 16 = Num v \<and> 0 \<le> v \<and> v < 256 \<longrightarrow>
    fst (perform queryGeneral (\<lambda>w. [line]) new_board)
     = Resolved \<lparr>pinRB5 = bit v 7, pinRB2 = bit v 6, buttonPrg = bit v 5, penDown = bit v 4,
                 commandExecuting = bit v 3, motor1Moving = bit v 2, motor2Moving = bit v 1,
                 fifoEmpty = (\<not> bit v 0)\<rparr>)"
proof -
  have p: "parseInt ''3E'' 16 = Num 62" by (simp add: parse_simps)
  from queryGeneral_bits[OF p] queryGeneral_bits[of line v] show ?thesis by simp
qed

theorem queryGeneral_decodes_status_bits_witness:
  "parseInt ''3E'' 16 = Num 62 \<and> (0 :: int) \<le> 62 \<and> (62 :: int) < 256 \<and>
   fst (perform queryGeneral (\<lambda>w. [''3E'']) new_board)
     = Resolved \<lparr>pinRB5 = bit (62 :: int) 7, pinRB2 = bit (62 :: int) 6, buttonPrg = bit (62 :: int) 5,
                 penDown = bit (62 :: int) 4, commandExecuting = bit (62 :: int) 3,
                 motor1Moving = bit (62 :: int) 2, motor2Moving = bit (62 :: int) 1,
                 fifoEmpty = (\<not> bit (62 :: int) 0)\<rparr>"
proof -
  have p: "parseInt ''3E'' 16 = Num 62" by (simp add: parse_simps)
  from queryGeneral_decodes_status_bits[of "''3E''" 62] p show ?thesis by simp
qed


lemma dom_with_property: "fst ` set (with_property obj k v) = insert k (fst ` set obj)"
  by (simp add: with_property_def dom_update)

lemma dom_reduce:
  "fst ` set (foldl (\<lambda>readings t. with_property readings (f t) (g t)) acc ts)
     = fst ` set acc \<union> f ` set ts"
  by (induction ts arbitrary: acc) (auto simp: dom_with_property)

text \<open>
  C7: \<open>analogValueGet\<close> fed \<open>A,00:0713,02:0241,05:0089,09:1004\<close> resolves with the
  mapping 0 to 713, 2 to 241, 5 to 89, 9 to 1004; for every reply line the keys of the
  result are exactly the channels parsed from the tokens after the first comma.
\<close>

theorem analogValueGet_decodes_channels:
  "fst (perform analogValueGet (\<lambda>w. [''A,00:0713,02:0241,05:0089,09:1004'']) new_board)
     = Resolved [(Some (Num 0), Some (Num 713)), (Some (Num 2), Some (Num 241)),
                 (Some (Num 5), Some (Num 89)), (Some (Num 9), Some (Num 1004))] \<and>
   (\<exists>readings. fst (perform analogValueGet (\<lambda>w. [line]) new_board) = Resolved readings \<and>
      fst ` set readings =
        (\<lambda>channelValueStr. element (map (\<lambda>v. parseInt v 10) (js_split channelValueStr '':'')) 0)
          ` set (drop 1 (js_split line '','')))"
proof -
  have a: "fst (perform analogValueGet (\<lambda>w. [''A,00:0713,02:0241,05:0089,09:1004'']) new_board)
     = Resolved [(Some (Num 0), Some (Num 713)), (Some (Num 2), Some (Num 241)),
                 (Some (Num 5), Some (Num 89)), (Some (Num 9), Some (Num 1004))]"
    by code_simp
  have b: "fst (perform analogValueGet (\<lambda>w. [line]) new_board) =
      Resolved (foldl
         (\<lambda>readings channelValueStr.
            with_property readings
              (element (map (\<lambda>v. parseInt v 10) (js_split channelValueStr '':'')) 0)
              (element (map (\<lambda>v. parseInt v 10) (js_split channelValueStr '':'')) 1))
         [] (drop 1 (js_split line '','')))"
    unfolding analogValueGet_def
    by (subst exchange_one_line) (simp_all add: new_board_idle Let_def)
  show ?thesis
    by (rule conjI[OF a]) (simp add: b dom_reduce)
qed


theorem analogValueGet_decodes_channels_witness:
  "fst ` set [(Some (Num 0), Some (Num 713)), (Some (Num 2), Some (Num 241)),
              (Some (Num 5), Some (Num 89)), (Some (Num 9), Some (Num (1004 :: int)))]
     = {Some (Num 0), Some (Num 2), Some (Num 5), Some (Num 9)} \<and>
   fst (perform analogValueGet (\<lambda>w. [''A,00:0713,02:0241,05:0089,09:1004'']) new_board)
     = Resolved [(Some (Num 0), Some (Num 713)), (Some (Num 2), Some (Num 241)),
                 (Some (Num 5), Some (Num 89)), (Some (Num 9), Some (Num 1004))]"
  using analogValueGet_decodes_channels[of "''A,00:0713''"] by simp

text \<open>
  C8: \<open>setPenState(b)\<close> writes \<open>SP,0\r\<close> for pen down and \<open>SP,1\r\<close> for pen up;
  \<open>queryPen\<close> resolves with true for a first line \<open>0\<close> and false for \<open>1\<close>; so
  \<open>queryPen\<close>, fed the pen-state field that \<open>setPenState(b)\<close> wrote, resolves with \<open>b\<close>.
\<close>

theorem pen_state_round_trip:
  "port_written (snd (perform (setPenState b None None) device new_board))
     = [''SP,'' @ (if b then ''0'' else ''1'') @ [CR]] \<and>
   fst (perform queryPen (\<lambda>w. [''0'', ''OK'']) new_board) = Resolved True \<and>
   fst (perform queryPen (\<lambda>w. [''1'', ''OK'']) new_board) = Resolved False \<and>
   (let written = hd (port_written (snd (perform (setPenState b None None) device new_board)));
        field = take 1 (drop 3 written)
    in fst (perform queryPen (\<lambda>w. [field, ''OK'']) new_board) = Resolved b)"
proof -
  have n: "Number_toString 0 = ''0''" "Number_toString 1 = ''1''"
    by (simp_all add: number_simps)
  have "setPenState b None None =
      Await (''SP,'' @ (if b then ''0'' else ''1'')) 1
        (\<lambda>response. if response \<noteq> ''OK'' then Throw (''Unexpected response: '' @ response)
                     else Return ())"
    by (simp add: setPenState_def Let_def PEN_DOWN_def PEN_UP_def n)
  then have enc: "port_written (snd (perform (setPenState b None None) device new_board))
     = [''SP,'' @ (if b then ''0'' else ''1'') @ [CR]]"
    by (simp only:) (subst perform_writes, simp_all add: new_board_idle)
  have d0: "fst (perform queryPen (\<lambda>w. [''0'', ''OK'']) new_board) = Resolved True"
    by code_simp
  have d1: "fst (perform queryPen (\<lambda>w. [''1'', ''OK'']) new_board) = Resolved False"
    by code_simp
  from enc d0 d1 show ?thesis by (cases b) (simp_all add: Let_def)
qed

text \<open>
  C9: For a port letter among A to E and a pin index from 0 to 7,
  \<open>setPinDirection(portLetter, pinIndex, isOutput)\<close> writes
  \<open>PD,portLetter,pinIndex,0\r\<close> when \<open>isOutput\<close> is true and
  \<open>PD,portLetter,pinIndex,1\r\<close> when it is false.
\<close>

theorem setPinDirection_sends_TRIS_bit:
  "portLetter \<in> set [''A'', ''B'', ''C'', ''D'', ''E''] \<and> 0 \<le> pinIndex \<and> pinIndex \<le> 7 \<longrightarrow>
   port_written (snd (perform (setPinDirection portLetter pinIndex isOutput) device new_board))
     = [''PD,'' @ portLetter @ '','' @ Number_toString pinIndex @ '','' @
        (if isOutput then ''0'' else ''1'') @ [CR]]"
proof
  assume h: "portLetter \<in> set [''A'', ''B'', ''C'', ''D'', ''E''] \<and> 0 \<le> pinIndex \<and> pinIndex \<le> 7"
  have n: "Number_toString 0 = ''0''" "Number_toString 1 = ''1''"
    by (simp_all add: number_simps)
  from h have "setPinDirection portLetter pinIndex isOutput =
      Await (''PD,'' @ portLetter @ '','' @ Number_toString pinIndex @ '','' @
             (if isOutput then ''0'' else ''1'')) 1
        (\<lambda>response. if response \<noteq> ''OK'' then Throw (''Received unexpected response: '' @ response)
                     else Return ())"
    by (auto simp: setPinDirection_def asserting_def assertValidPortLetter_def n)
  then show "port_written (snd (perform (setPinDirection portLetter pinIndex isOutput) device new_board))
     = [''PD,'' @ portLetter @ '','' @ Number_toString pinIndex @ '','' @
        (if isOutput then ''0'' else ''1'') @ [CR]]"
    by (simp only:) (subst perform_writes, simp_all add: new_board_idle)
qed

theorem setPinDirection_sends_TRIS_bit_witness:
  "''A'' \<in> set [''A'', ''B'', ''C'', ''D'', ''E''] \<and> (0 :: int) \<le> 2 \<and> (2 :: int) \<le> 7 \<and>
   port_written (snd (perform (setPinDirection ''A'' 2 True) (\<lambda>w. [''OK'']) new_board))
     = [''PD,A,2,0'' @ [CR]]"
  using setPinDirection_sends_TRIS_bit[of "''A''" 2 True "\<lambda>w. [''OK'']"]
  by (simp add: number_simps)

text \<open>
  C10: \<open>togglePen(0)\<close> does not throw: it skips the range check, sends the bare command
  \<open>TP\r\<close> with no duration field, and then requires the reply to equal \<open>OK\<close>.
\<close>

theorem togglePen_zero_skips_range_check:
  "togglePen (Some 0) =
     Await ''TP'' 1 (\<lambda>response. if response \<noteq> ''OK''
                                  then Throw (''Unexpected response: '' @ response)
                                  else Return ()) \<and>
   port_written (snd (perform (togglePen (Some 0)) device new_board)) = [''TP'' @ [CR]] \<and>
   fst (perform (togglePen (Some 0)) (\<lambda>w. [response]) new_board)
     = (if response = ''OK'' then Resolved ()
        else RejectedWith (''Unexpected response: '' @ response))"
proof -
  have t: "togglePen (Some 0) =
     Await ''TP'' 1 (\<lambda>response. if response \<noteq> ''OK''
                                  then Throw (''Unexpected response: '' @ response)
                                  else Return ())"
    by (simp add: togglePen_def truthy_def)
  have w: "port_written (snd (perform (togglePen (Some 0)) device new_board)) = [''TP'' @ [CR]]"
    unfolding t by (subst perform_writes) (simp_all add: new_board_idle)
  have r: "fst (perform (togglePen (Some 0)) (\<lambda>w. [response]) new_board)
     = (if response = ''OK'' then Resolved ()
        else RejectedWith (''Unexpected response: '' @ response))"
    unfolding t by (subst exchange_one_line) (auto simp: new_board_idle)
  from t w r show ?thesis by blast
qed

theorem pen_state_round_trip_witness:
  "port_written (snd (perform (setPenState True None None) (\<lambda>w. [''OK'']) new_board))
     = [''SP,0'' @ [CR]] \<and>
   fst (perform queryPen (\<lambda>w. [''0'', ''OK'']) new_board) = Resolved True"
  using pen_state_round_trip[of True "\<lambda>w. [''OK'']"] by simp

section \<open>Properties of the replies and of the parameter checks\<close>

lemma split_from_no_sep:
  "\<not> js_contains s sep \<Longrightarrow> js_split_from sep acc s = [rev acc @ s]"
  by (induction s arbitrary: acc) auto

lemma split_from_first:
  "sep \<noteq> [] \<Longrightarrow> \<not> js_contains (l1 @ butlast sep) sep \<Longrightarrow>
   js_split_from sep acc (l1 @ sep @ rest) = (rev acc @ l1) # js_split_from sep [] rest"
proof (induction l1 arbitrary: acc)
  case Nil
  then show ?case by (cases sep) auto
next
  case (Cons c cs)
  from Cons.prems have np: "\<not> prefix sep (c # cs @ butlast sep)" and nc: "\<not> js_contains (cs @ butlast sep) sep"
    by auto
  have "\<not> prefix sep (c # cs @ sep @ rest)"
  proof
    assume p: "prefix sep (c # cs @ sep @ rest)"
    have "length sep \<le> length (c # cs @ butlast sep)" using Cons.prems(1) by (cases sep) auto
    moreover have "c # cs @ sep @ rest = (c # cs @ butlast sep) @ ([last sep] @ rest)"
      using Cons.prems(1) by simp
    ultimately have "prefix sep (c # cs @ butlast sep)"
      using p by (metis prefix_length_prefix prefixI)
    with np show False by simp
  qed
  with Cons.IH[OF Cons.prems(1) nc, of "c # acc"] show ?case by simp
qed

lemma contains_prefix: "prefix sub s \<Longrightarrow> js_contains s sub"
  by (cases s) auto

lemma contains_append: "js_contains (l1 @ sep @ rest) sep"
  by (induction l1) (auto simp: contains_prefix)

lemma contains_CRLF_butlast:
  "\<not> js_contains l [CR, LF] \<Longrightarrow> \<not> js_contains (l @ [CR]) [CR, LF]"
  by (induction l) auto

lemma split_two_lines:
  assumes "\<not> js_contains l1 [CR, LF]" "\<not> js_contains l2 [CR, LF]"
  shows "js_split (l1 @ [CR, LF] @ l2) [CR, LF] = [l1, l2]"
proof -
  have "\<not> js_contains (l1 @ butlast [CR, LF]) [CR, LF]"
    using contains_CRLF_butlast[OF assms(1)] by simp
  from split_from_first[OF _ this, of "[]" l2] split_from_no_sep[OF assms(2), of "[]"]
  show ?thesis by (simp add: js_split_def)
qed


lemma split_from_head:
  "\<exists>t ts. js_split_from sep acc s = (rev acc @ t) # ts \<and> prefix t s"
proof (induction sep acc s rule: js_split_from.induct)
  case (1 sep acc)
  then show ?case by simp
next
  case (2 sep acc c cs)
  show ?case
  proof (cases "sep \<noteq> [] \<and> prefix sep (c # cs)")
    case True
    then show ?thesis by auto
  next
    case False
    with 2(2) obtain t ts where "js_split_from sep (c # acc) cs = (rev (c # acc) @ t) # ts" "prefix t cs"
      by blast
    with False show ?thesis by (intro exI[of _ "c # t"] exI[of _ ts]) auto
  qed
qed

lemma split_head_prefix: "\<exists>t ts. js_split s sep = t # ts \<and> prefix t s"
  using split_from_head[of sep "[]" s] by (simp add: js_split_def)

lemma first_field_tag:
  assumes "\<not> prefix tag line"
  shows "element (js_split line sep) 0 \<noteq> Some tag"
proof -
  from split_head_prefix[of line sep] obtain t ts where "js_split line sep = t # ts" "prefix t line"
    by blast
  with assms show ?thesis by (auto simp: element_def)
qed

lemma perform_effect:
  "perform (effect p) device b = (map_outcome (\<lambda>_. ()) (fst (perform p device b)), snd (perform p device b))"
  unfolding effect_def
proof (induction p arbitrary: b)
  case (Return x)
  then show ?case by simp
next
  case (Throw x)
  then show ?case by simp
next
  case (Await c n k)
  show ?case
    by (simp add: Let_def Await.IH split: promise.splits)
qed

lemma names_response_map [simp]: "names_response t (map_outcome f out) = names_response t out"
  by (cases out) (simp_all add: names_response_def)

lemma names_response_Rejected [simp]: "names_response t (RejectedWith (pre @ t))"
  by (simp add: names_response_def suffix_def)

lemmas op_defs =
  analogValueGet_def analogConfigure_def enterBootloader_def configurePinDirections_def
  clearStepPosition_def configureUserOptions_def enableMotors_def emergencyStop_def
  absoluteMove_def getInput_def lowLevelMove_def lowLevelMoveTimeLimited_def memoryRead_def
  memoryWrite_def nodeCountDecrement_def nodeCountIncrement_def setOutputs_def
  pulseConfigure_def setPinDirection_def pulseGo_def pinInput_def pinOutput_def
  queryButton_def queryCurrent_def queryMotorConfig_def queryGeneral_def queryLayer_def
  queryMotors_def queryPen_def queryServoPower_def queryStepPosition_def queryNickname_def
  reboot_def reset_def servoOutput_def stepperAndServoModeConfigure_def setEngraver_def
  setLayer_def stepperMove_def setNodeCount_def setPenState_def setServoPowerTimeout_def
  setNickname_def timedRead_def togglePen_def queryNodeCount_def queryVersion_def
  stepperMoveMixedAxis_def

lemma exchange_line:
  "final (k l) \<Longrightarrow> fst (perform (Await c 1 k) (\<lambda>w. [l]) new_board) = verdict (k l)"
  using exchange_one_line[of new_board "\<lambda>w. [l]" c l k] by (simp add: new_board_idle)

lemma exchange_lines:
  "final (k (l1 @ [CR, LF] @ l2)) \<Longrightarrow>
   fst (perform (Await c 2 k) (\<lambda>w. [l1, l2]) new_board) = verdict (k (l1 @ [CR, LF] @ l2))"
  using exchange_two_lines[of new_board "\<lambda>w. [l1, l2]" c l1 l2 k] by (simp add: new_board_idle)

lemma names_response_effect:
  "names_response t (fst (perform (effect p) device b)) = names_response t (fst (perform p device b))"
  by (simp add: perform_effect del: perform.simps)

lemma passes_effect: "passes (effect p) = passes p"
  by (cases p) (simp_all add: passes_def effect_def)

lemma ack_shape_Throw: "ack_shape (Throw e)"
  by (simp add: ack_shape_def)

lemma ack_shape_Await:
  "ack_shape (Await c 1 (\<lambda>response. if response \<noteq> ''OK'' then Throw (pre @ response)
                                      else Return ()))"
  unfolding ack_shape_def by blast

lemma ack_shape_if: "ack_shape p \<Longrightarrow> ack_shape q \<Longrightarrow> ack_shape (if g then p else q)"
  by simp

lemma ack_shape_asserting: "ack_shape p \<Longrightarrow> ack_shape (asserting chk p)"
  by (cases chk) (simp_all add: asserting_def ack_shape_Throw)

lemma ack_shape_sum:
  "(\<And>e. ack_shape (f e)) \<Longrightarrow> (\<And>c. ack_shape (g c)) \<Longrightarrow>
   ack_shape (case x of Inl e \<Rightarrow> f e | Inr c \<Rightarrow> g c)"
  by (cases x) simp_all

lemmas ack_shape_intros =
  ack_shape_Throw ack_shape_Await ack_shape_if ack_shape_asserting ack_shape_sum

lemma ack_shape_rejects:
  assumes "ack_shape p" "passes p" "line \<noteq> ''OK''"
  shows "names_response line (fst (perform p (\<lambda>w. [line]) new_board))"
proof -
  from assms(1,2) obtain c pre where
    p: "p = Await c 1 (\<lambda>response. if response \<noteq> ''OK'' then Throw (pre @ response) else Return ())"
    by (auto simp: ack_shape_def passes_def)
  show ?thesis
    unfolding p by (subst exchange_line) (use assms(3) in simp_all)
qed

lemma ack_shape_ops:
  "ack_shape (analogConfigure a1 a2)"
  "ack_shape (configurePinDirections b1 b2 b3 b4 b5)"
  "ack_shape (clearStepPosition)"
  "ack_shape (enableMotors d1 d2)"
  "ack_shape (absoluteMove e1 e2 e3)"
  "ack_shape (lowLevelMove f1 f2 f3 f4 f5 f6 f7 f8)"
  "ack_shape (lowLevelMoveTimeLimited g1 g2 g3 g4 g5 g6 g7)"
  "ack_shape (memoryWrite h1 h2)"
  "ack_shape (nodeCountDecrement)"
  "ack_shape (nodeCountIncrement)"
  "ack_shape (setOutputs k1 k2 k3 k4 k5)"
  "ack_shape (pulseConfigure l1 l2 l3 l4 l5 l6 l7 l8)"
  "ack_shape (setPinDirection m1 m2 m3)"
  "ack_shape (pulseGo n1)"
  "ack_shape (pinOutput o1 o2 o3)"
  "ack_shape (reset)"
  "ack_shape (servoOutput q1 q2 q3 q4)"
  "ack_shape (stepperAndServoModeConfigure r1 r2)"
  "ack_shape (setEngraver s1 s2 s3)"
  "ack_shape (setLayer t1)"
  "ack_shape (stepperMove u1 u2 u3)"
  "ack_shape (setNodeCount v1)"
  "ack_shape (setPenState w1 w2 w3)"
  "ack_shape (setServoPowerTimeout x1 x2)"
  "ack_shape (setNickname y1)"
  "ack_shape (timedRead z1 z2)"
  "ack_shape (stepperMoveMixedAxis ax1 ax2 ax3)"
  unfolding analogConfigure_def configurePinDirections_def clearStepPosition_def enableMotors_def absoluteMove_def lowLevelMove_def lowLevelMoveTimeLimited_def memoryWrite_def nodeCountDecrement_def nodeCountIncrement_def setOutputs_def pulseConfigure_def setPinDirection_def pulseGo_def pinOutput_def reset_def servoOutput_def stepperAndServoModeConfigure_def setEngraver_def setLayer_def stepperMove_def setNodeCount_def setPenState_def setServoPowerTimeout_def setNickname_def timedRead_def stepperMoveMixedAxis_def Let_def
  by (intro ack_shape_intros)+

lemma ack_shape_togglePen:
  assumes "\<not> truthy d"
  shows "ack_shape (togglePen d)"
proof -
  from assms have "togglePen d =
      Await ''TP'' 1 (\<lambda>response. if response \<noteq> ''OK''
                                   then Throw (''Unexpected response: '' @ response)
                                   else Return ())"
    by (simp add: togglePen_def)
  then show ?thesis by (simp only: ack_shape_Await)
qed

lemma replies_must_be_OK:
  assumes "acknowledged r" "accepted r" "line \<noteq> ''OK''"
  shows "names_response line (fst (perform (invoke r) (\<lambda>w. [line]) new_board))"
proof -
  have "ack_shape (invoke r)"
    using assms(1)
    by (cases r) (simp_all add: acknowledged_def effect_unit ack_shape_ops ack_shape_togglePen)
  moreover have "passes (invoke r)" using assms(2) by (simp add: accepted_def passes_def)
  ultimately show ?thesis using assms(3) by (rule ack_shape_rejects)
qed


lemma names_response_Cons:
  "names_response t (RejectedWith (c # m) :: 'a outcome) \<longleftrightarrow>
     t = c # m \<or> names_response t (RejectedWith m :: 'a outcome)"
  by (simp add: names_response_def suffix_Cons)

lemma names_response_self: "names_response t (RejectedWith t)"
  by (simp add: names_response_def)

lemmas names_simps = names_response_Cons names_response_self

lemma tagged_getInput:
  assumes "\<not> prefix ''I'' line"
  shows "names_response line (fst (perform getInput (\<lambda>w. [line]) new_board))"
  unfolding getInput_def
  by (subst exchange_line) (use assms in \<open>simp_all add: startsWith_def Let_def names_simps\<close>)

lemma tagged_queryMotors:
  assumes "\<not> prefix ''QM,'' line"
  shows "names_response line (fst (perform queryMotors (\<lambda>w. [line]) new_board))"
  unfolding queryMotors_def
  by (subst exchange_line) (use assms in \<open>simp_all add: startsWith_def Let_def names_simps\<close>)

lemma tagged_memoryRead:
  assumes "passes (memoryRead a)" "\<not> prefix ''MR'' line"
  shows "names_response line (fst (perform (memoryRead a) (\<lambda>w. [line]) new_board))"
proof -
  from assms(1) have "memoryRead a = Await (''MR,'' @ Number_toString a) 1 (\<lambda>response.
        (let fields = js_split response '','';
             cmdName = element fields 0;
             val = element fields 1
         in if cmdName \<noteq> Some ''MR'' then Throw (''Received unexpected response: '' @ response)
            else Return (parseInt_element val 10)))"
    by (simp add: memoryRead_def passes_def split: if_splits)
  then show ?thesis
    using first_field_tag[OF assms(2), of "'',''"]
    by (simp only:) (subst exchange_line, simp_all add: Let_def names_simps)
qed

lemma tagged_pinInput:
  assumes "passes (pinInput p i)" "\<not> prefix ''PI'' line"
  shows "names_response line (fst (perform (pinInput p i) (\<lambda>w. [line]) new_board))"
proof -
  from assms(1) have "pinInput p i = Await (''PI,'' @ p @ '','' @ Number_toString i) 1 (\<lambda>response.
         (let fields = js_split response '','';
              cmd' = element fields 0;
              val = element fields 1
          in if cmd' \<noteq> Some ''PI'' then Throw (''Received unexpected response: '' @ response)
             else Return (val = Some ''1'')))"
    by (simp add: pinInput_def passes_def asserting_def split: if_splits option.splits)
  then show ?thesis
    using first_field_tag[OF assms(2), of "'',''"]
    by (simp only:) (subst exchange_line, simp_all add: Let_def names_simps)
qed

lemma replies_must_carry_tag:
  assumes "reply_tag r = Some tag" "accepted r" "\<not> prefix tag line"
  shows "names_response line (fst (perform (invoke r) (\<lambda>w. [line]) new_board))"
proof (cases r)
  case GetInput
  with assms show ?thesis by (simp add: reply_tag_def names_response_effect tagged_getInput del: perform.simps)
next
  case (MemoryRead a)
  with assms show ?thesis
    by (simp add: reply_tag_def accepted_def names_response_effect tagged_memoryRead
          passes_effect passes_def[symmetric] del: perform.simps)
next
  case (PinInput p i)
  with assms show ?thesis
    by (simp add: reply_tag_def accepted_def names_response_effect tagged_pinInput
          passes_effect passes_def[symmetric] del: perform.simps)
next
  case QueryMotors
  with assms show ?thesis by (simp add: reply_tag_def names_response_effect tagged_queryMotors del: perform.simps)
qed (use assms(1) in \<open>simp_all add: reply_tag_def\<close>)


lemma data_and_OK_rejects:
  assumes "\<not> js_contains l1 [CR, LF]" "\<not> js_contains l2 [CR, LF]" "l2 \<noteq> ''OK''"
  shows "data_and_OK (l1 @ [CR, LF] @ l2) k = Throw (''Unexpected response: '' @ l1 @ [CR, LF] @ l2)"
  using contains_append[of l1 "[CR, LF]" l2] split_two_lines[OF assms(1,2)] assms(3)
  unfolding data_and_OK_def Let_def element_def
  by (simp only: not_True_eq_False if_False) simp

lemma two_lines_rejected:
  assumes "k (l1 @ [CR, LF] @ l2) = Throw (''Unexpected response: '' @ l1 @ [CR, LF] @ l2)"
  shows "names_response (l1 @ [CR, LF] @ l2) (fst (perform (Await c 2 k) (\<lambda>w. [l1, l2]) new_board))"
proof -
  have "final (k (l1 @ [CR, LF] @ l2))" by (simp only: assms final.simps)
  then have "fst (perform (Await c 2 k) (\<lambda>w. [l1, l2]) new_board) = verdict (k (l1 @ [CR, LF] @ l2))"
    by (rule exchange_lines)
  also have "\<dots> = RejectedWith (''Unexpected response: '' @ l1 @ [CR, LF] @ l2)"
    by (simp only: assms verdict.simps)
  finally show ?thesis by (simp only: names_response_Rejected)
qed

lemma second_line_must_be_OK:
  assumes "\<not> js_contains l1 [CR, LF]" "\<not> js_contains l2 [CR, LF]" "l2 \<noteq> ''OK''"
  shows "names_response (l1 @ [CR, LF] @ l2) (fst (perform queryButton (\<lambda>w. [l1, l2]) new_board))"
    and "names_response (l1 @ [CR, LF] @ l2) (fst (perform (queryCurrent old) (\<lambda>w. [l1, l2]) new_board))"
    and "names_response (l1 @ [CR, LF] @ l2) (fst (perform queryMotorConfig (\<lambda>w. [l1, l2]) new_board))"
    and "names_response (l1 @ [CR, LF] @ l2) (fst (perform queryPen (\<lambda>w. [l1, l2]) new_board))"
    and "names_response (l1 @ [CR, LF] @ l2) (fst (perform queryServoPower (\<lambda>w. [l1, l2]) new_board))"
    and "names_response (l1 @ [CR, LF] @ l2) (fst (perform queryStepPosition (\<lambda>w. [l1, l2]) new_board))"
    and "names_response (l1 @ [CR, LF] @ l2) (fst (perform queryNickname (\<lambda>w. [l1, l2]) new_board))"
    and "names_response (l1 @ [CR, LF] @ l2) (fst (perform queryNodeCount (\<lambda>w. [l1, l2]) new_board))"
  unfolding queryButton_def queryCurrent_def queryMotorConfig_def queryPen_def queryServoPower_def
    queryStepPosition_def queryNickname_def queryNodeCount_def Let_def
  by (rule two_lines_rejected, rule data_and_OK_rejects[OF assms])+

lemma second_line_must_be_OK_emergencyStop:
  assumes "\<not> js_contains l1 [CR, LF]" "\<not> js_contains l2 [CR, LF]" "l2 \<noteq> ''OK''"
  shows "names_response (l1 @ [CR, LF] @ l2) (fst (perform (emergencyStop d) (\<lambda>w. [l1, l2]) new_board))"
  unfolding emergencyStop_def
  apply (rule two_lines_rejected)
  using contains_append[of l1 "[CR, LF]" l2] split_two_lines[OF assms(1,2)] assms(3)
  apply (simp only: Let_def not_True_eq_False if_False element_def)
  apply simp
  done

lemma second_line_must_be_OK_queryLayer:
  assumes "\<not> js_contains l1 [CR, LF]" "\<not> js_contains l2 [CR, LF]" "l2 \<noteq> ''OK''"
  shows "names_response (l1 @ [CR, LF] @ l2) (fst (perform queryLayer (\<lambda>w. [l1, l2]) new_board))"
  unfolding queryLayer_def
  apply (rule two_lines_rejected)
  using split_two_lines[OF assms(1,2)] assms(3)
  apply (simp only: Let_def element_def)
  apply simp
  done

lemma replies_must_end_with_OK:
  assumes "data_then_ack r" "\<not> js_contains l1 [CR, LF]" "\<not> js_contains l2 [CR, LF]" "l2 \<noteq> ''OK''"
  shows "names_response (l1 @ [CR, LF] @ l2) (fst (perform (invoke r) (\<lambda>w. [l1, l2]) new_board))"
proof (cases r)
  case (EmergencyStop d)
  show ?thesis unfolding EmergencyStop invoke.simps names_response_effect
    by (rule second_line_must_be_OK_emergencyStop[OF assms(2-4)])
next
  case QueryButton
  show ?thesis unfolding QueryButton invoke.simps names_response_effect
    by (rule second_line_must_be_OK[OF assms(2-4)])
next
  case (QueryCurrent old)
  show ?thesis unfolding QueryCurrent invoke.simps names_response_effect
    by (rule second_line_must_be_OK[OF assms(2-4)])
next
  case QueryMotorConfig
  show ?thesis unfolding QueryMotorConfig invoke.simps names_response_effect
    by (rule second_line_must_be_OK[OF assms(2-4)])
next
  case QueryLayer
  show ?thesis unfolding QueryLayer invoke.simps names_response_effect
    by (rule second_line_must_be_OK_queryLayer[OF assms(2-4)])
next
  case QueryPen
  show ?thesis unfolding QueryPen invoke.simps names_response_effect
    by (rule second_line_must_be_OK[OF assms(2-4)])
next
  case QueryServoPower
  show ?thesis unfolding QueryServoPower invoke.simps names_response_effect
    by (rule second_line_must_be_OK[OF assms(2-4)])
next
  case QueryStepPosition
  show ?thesis unfolding QueryStepPosition invoke.simps names_response_effect
    by (rule second_line_must_be_OK[OF assms(2-4)])
next
  case QueryNickname
  show ?thesis unfolding QueryNickname invoke.simps names_response_effect
    by (rule second_line_must_be_OK[OF assms(2-4)])
next
  case QueryNodeCount
  show ?thesis unfolding QueryNodeCount invoke.simps names_response_effect
    by (rule second_line_must_be_OK[OF assms(2-4)])
qed (use assms(1) in \<open>simp_all add: data_then_ack_def\<close>)

lemma queryGeneral_NaN:
  assumes "parseInt line 16 = NaN"
  shows "fst (perform queryGeneral (\<lambda>w. [line]) new_board)
     = Resolved \<lparr>pinRB5 = False, pinRB2 = False, buttonPrg = False, penDown = False,
                 commandExecuting = False, motor1Moving = False, motor2Moving = False,
                 fifoEmpty = True\<rparr>"
  unfolding queryGeneral_def
  by (subst exchange_line) (simp_all add: assms Let_def bitSet_NaN)

lemma line_resolved:
  "k l = Return v \<Longrightarrow> fst (perform (Await c 1 k) (\<lambda>w. [l]) new_board) = Resolved v"
  by (subst exchange_line) simp_all

lemma line_rejected:
  "k l = Throw (pre @ l) \<Longrightarrow> names_response l (fst (perform (Await c 1 k) (\<lambda>w. [l]) new_board))"
  by (subst exchange_line) simp_all

lemma two_lines_resolved:
  assumes "k (l1 @ [CR, LF] @ l2) = Return v"
  shows "fst (perform (Await c 2 k) (\<lambda>w. [l1, l2]) new_board) = Resolved v"
proof -
  have "final (k (l1 @ [CR, LF] @ l2))" by (simp only: assms final.simps)
  then have "fst (perform (Await c 2 k) (\<lambda>w. [l1, l2]) new_board) = verdict (k (l1 @ [CR, LF] @ l2))"
    by (rule exchange_lines)
  then show ?thesis by (simp only: assms verdict.simps)
qed

lemma ack_shape_accepts:
  assumes "ack_shape p" "passes p"
  shows "fst (perform p (\<lambda>w. [''OK'']) new_board) = Resolved ()"
proof -
  from assms obtain c pre where
    p: "p = Await c 1 (\<lambda>response. if response \<noteq> ''OK'' then Throw (pre @ response) else Return ())"
    by (auto simp: ack_shape_def passes_def)
  show ?thesis unfolding p by (rule line_resolved) simp
qed

lemma acknowledged_ack_shape: "acknowledged r \<Longrightarrow> ack_shape (invoke r)"
  by (cases r) (simp_all add: acknowledged_def effect_unit ack_shape_ops ack_shape_togglePen)

lemma acknowledged_accepts:
  assumes "acknowledged r" "accepted r"
  shows "fst (perform (invoke r) (\<lambda>w. [''OK'']) new_board) = Resolved ()"
proof -
  have "passes (invoke r)" using assms(2) by (simp add: accepted_def passes_def)
  with acknowledged_ack_shape[OF assms(1)] show ?thesis by (rule ack_shape_accepts)
qed

lemma resolved_effect:
  "fst (perform p device b) = Resolved v \<Longrightarrow> fst (perform (effect p) device b) = Resolved ()"
  by (simp add: perform_effect del: perform.simps)

lemma unchecked_replies:
  "\<exists>v. fst (perform analogValueGet (\<lambda>w. [l]) new_board) = Resolved v"
  "\<exists>v. fst (perform enterBootloader (\<lambda>w. [l]) new_board) = Resolved v"
  "\<exists>v. fst (perform queryGeneral (\<lambda>w. [l]) new_board) = Resolved v"
  "\<exists>v. fst (perform reboot (\<lambda>w. [l]) new_board) = Resolved v"
  "\<exists>v. fst (perform queryVersion (\<lambda>w. [l]) new_board) = Resolved v"
  unfolding analogValueGet_def enterBootloader_def queryGeneral_def reboot_def queryVersion_def
  by (rule exI, rule line_resolved, simp add: Let_def)+

lemma unchecked_togglePen:
  assumes "truthy d" "passes (togglePen d)"
  shows "fst (perform (togglePen d) (\<lambda>w. [l]) new_board) = Resolved ()"
proof -
  from assms have "togglePen d = Await (''TP,'' @ Number_toString (Math_floor (the d))) 1
                (\<lambda>response. Return ())"
    by (simp add: togglePen_def passes_def split: if_splits)
  then show ?thesis by (simp only:) (rule line_resolved, simp)
qed

lemma unchecked_configureUserOptions:
  "fst (perform (configureUserOptions ok limits led) (\<lambda>w. [l]) new_board) = Resolved ()"
proof -
  let ?device = "\<lambda>w :: string. [l]"
  let ?c1 = "''CU,1,'' @ flag (or_default ok True)"
  let ?c2 = "''CU,2,'' @ flag (or_default limits True)"
  let ?c3 = "''CU,3,'' @ flag (or_default led False)"
  have d: "\<forall>w. length (?device w) = 1" by simp
  have cu: "configureUserOptions ok limits led =
      Await ?c1 1 (\<lambda>r1. Await ?c2 1 (\<lambda>r2. Await ?c3 1 (\<lambda>r3. Return ())))"
    by (simp add: configureUserOptions_def Let_def Number_toString_flag or_default_def)
  from perform_Await_answered[OF new_board_idle(1,2) d, of ?c1]
  obtain l1 b1 where b1: "pending b1 = []" "responseHandlers b1 = []"
      "\<And>k :: string \<Rightarrow> unit proc. perform (Await ?c1 1 k) ?device new_board = perform (k l1) ?device b1"
    by auto
  from perform_Await_answered[OF b1(1,2) d, of ?c2]
  obtain l2 b2 where b2: "pending b2 = []" "responseHandlers b2 = []"
      "\<And>k :: string \<Rightarrow> unit proc. perform (Await ?c2 1 k) ?device b1 = perform (k l2) ?device b2"
    by auto
  from perform_Await_answered[OF b2(1,2) d, of ?c3]
  obtain l3 b3 where b3:
      "\<And>k :: string \<Rightarrow> unit proc. perform (Await ?c3 1 k) ?device b2 = perform (k l3) ?device b3"
    by auto
  have "perform (configureUserOptions ok limits led) ?device new_board
          = perform (Await ?c2 1 (\<lambda>r2. Await ?c3 1 (\<lambda>r3. Return ()))) ?device b1"
    unfolding cu by (rule b1(3))
  also have "\<dots> = perform (Await ?c3 1 (\<lambda>r3. Return ())) ?device b2"
    by (rule b2(3))
  also have "\<dots> = perform (Return ()) ?device b3"
    by (rule b3)
  finally show ?thesis by simp
qed

lemma tag_replies:
  "fst (perform getInput (\<lambda>w. [l]) new_board) =
     (if prefix ''I'' l then Resolved (map (\<lambda>state. parseInt state 10) (drop 1 (js_split l '','')))
      else RejectedWith (''Received unexpected response: '' @ l))"
  "fst (perform queryMotors (\<lambda>w. [l]) new_board) =
     (if prefix ''QM,'' l
      then Resolved \<lparr>executingMotion = number_greater (numeric_field l 1) 0,
                     motorMoving = [element (js_split l '','') 2 = Some ''1'',
                                    element (js_split l '','') 3 = Some ''1''],
                     motorFifoEmpty = number_equals (numeric_field l 4) 0\<rparr>
      else RejectedWith (''Unexpected response: '' @ l))"
  unfolding getInput_def queryMotors_def
  by (subst exchange_line; simp add: startsWith_def Let_def numeric_field_def)+

lemma tag_replies_memoryRead:
  assumes "passes (memoryRead a)"
  shows "fst (perform (memoryRead a) (\<lambda>w. [l]) new_board) =
     (if element (js_split l '','') 0 = Some ''MR'' then Resolved (numeric_field l 1)
      else RejectedWith (''Received unexpected response: '' @ l))"
proof -
  from assms have "memoryRead a = Await (''MR,'' @ Number_toString a) 1 (\<lambda>response.
        (let fields = js_split response '','';
             cmdName = element fields 0;
             val = element fields 1
         in if cmdName \<noteq> Some ''MR'' then Throw (''Received unexpected response: '' @ response)
            else Return (parseInt_element val 10)))"
    by (simp add: memoryRead_def passes_def split: if_splits)
  then show ?thesis
    by (simp only:) (subst exchange_line, simp_all add: Let_def numeric_field_def)
qed

lemma tag_replies_pinInput:
  assumes "passes (pinInput p i)"
  shows "fst (perform (pinInput p i) (\<lambda>w. [l]) new_board) =
     (if element (js_split l '','') 0 = Some ''PI''
      then Resolved (element (js_split l '','') 1 = Some ''1'')
      else RejectedWith (''Received unexpected response: '' @ l))"
proof -
  from assms have "pinInput p i = Await (''PI,'' @ p @ '','' @ Number_toString i) 1 (\<lambda>response.
         (let fields = js_split response '','';
              cmd' = element fields 0;
              val = element fields 1
          in if cmd' \<noteq> Some ''PI'' then Throw (''Received unexpected response: '' @ response)
             else Return (val = Some ''1'')))"
    by (simp add: pinInput_def passes_def asserting_def split: if_splits option.splits)
  then show ?thesis
    by (simp only:) (subst exchange_line, simp_all add: Let_def)
qed


lemma OK_one_line: "\<not> js_contains ''OK'' [CR, LF]"
  by simp

lemma data_and_OK_accepts:
  assumes "\<not> js_contains l1 [CR, LF]"
  shows "data_and_OK (l1 @ [CR, LF] @ ''OK'') k = k (Some l1)"
  using contains_append[of l1 "[CR, LF]" "''OK''"] split_two_lines[OF assms OK_one_line]
  unfolding data_and_OK_def Let_def element_def
  by (simp only: not_True_eq_False if_False) simp

lemma data_replies:
  assumes "\<not> js_contains l1 [CR, LF]"
  shows "\<exists>v. fst (perform queryButton (\<lambda>w. [l1, ''OK'']) new_board) = Resolved v"
    and "\<exists>v. fst (perform (queryCurrent old) (\<lambda>w. [l1, ''OK'']) new_board) = Resolved v"
    and "\<exists>v. fst (perform queryPen (\<lambda>w. [l1, ''OK'']) new_board) = Resolved v"
    and "\<exists>v. fst (perform queryServoPower (\<lambda>w. [l1, ''OK'']) new_board) = Resolved v"
    and "\<exists>v. fst (perform queryStepPosition (\<lambda>w. [l1, ''OK'']) new_board) = Resolved v"
    and "\<exists>v. fst (perform queryNickname (\<lambda>w. [l1, ''OK'']) new_board) = Resolved v"
    and "\<exists>v. fst (perform queryNodeCount (\<lambda>w. [l1, ''OK'']) new_board) = Resolved v"
  unfolding queryButton_def queryCurrent_def queryPen_def queryServoPower_def
    queryStepPosition_def queryNickname_def queryNodeCount_def Let_def
  by (rule exI, rule two_lines_resolved, simp only: data_and_OK_accepts[OF assms] option.case)+

lemma data_replies_emergencyStop:
  assumes "\<not> js_contains l1 [CR, LF]"
  shows "\<exists>v. fst (perform (emergencyStop d) (\<lambda>w. [l1, ''OK'']) new_board) = Resolved v"
  unfolding emergencyStop_def
  apply (rule exI)
  apply (rule two_lines_resolved)
  using contains_append[of l1 "[CR, LF]" "''OK''"] split_two_lines[OF assms OK_one_line]
  apply (simp only: Let_def not_True_eq_False if_False element_def)
  apply simp
  done

lemma data_replies_queryLayer:
  assumes "\<not> js_contains l1 [CR, LF]"
  shows "\<exists>v. fst (perform queryLayer (\<lambda>w. [l1, ''OK'']) new_board) = Resolved v"
  unfolding queryLayer_def
  apply (rule exI)
  apply (rule two_lines_resolved)
  using split_two_lines[OF assms OK_one_line]
  apply (simp only: Let_def element_def)
  apply simp
  done

lemma motorStates_None:
  "motorStates (element (map (\<lambda>mode. parseInt mode 10) (js_split l '','')) i) = None
     \<longleftrightarrow> numeric_field l i \<notin> set mode_numbers"
  by (auto simp: motorStates_def element_def numeric_field_def parseInt_element_def mode_numbers_def)

lemma data_replies_queryMotorConfig:
  assumes "\<not> js_contains l1 [CR, LF]"
  shows "numeric_field l1 0 \<in> set mode_numbers \<and> numeric_field l1 1 \<in> set mode_numbers \<Longrightarrow>
           \<exists>v. fst (perform queryMotorConfig (\<lambda>w. [l1, ''OK'']) new_board) = Resolved v"
    and "\<not> (numeric_field l1 0 \<in> set mode_numbers \<and> numeric_field l1 1 \<in> set mode_numbers) \<Longrightarrow>
           names_response (l1 @ [CR, LF] @ ''OK'')
             (fst (perform queryMotorConfig (\<lambda>w. [l1, ''OK'']) new_board))"
proof -
  have k: "(\<lambda>response. data_and_OK response (\<lambda>motorStatus.
         case motorStatus of
           None \<Rightarrow> Throw TypeError_split
         | Some motorStatus' \<Rightarrow>
             (let modes = map (\<lambda>mode. parseInt mode 10) (js_split motorStatus' '','');
                  m1Mode = element modes 0;
                  m2Mode = element modes 1
              in if motorStates m1Mode = None \<or> motorStates m2Mode = None
                 then Throw (''Unexpected response: '' @ response)
                 else Return [motorStates m1Mode, motorStates m2Mode])))
       (l1 @ [CR, LF] @ ''OK'')
     = (if numeric_field l1 0 \<notin> set mode_numbers \<or> numeric_field l1 1 \<notin> set mode_numbers
        then Throw (''Unexpected response: '' @ (l1 @ [CR, LF] @ ''OK''))
        else Return [motorStates (element (map (\<lambda>mode. parseInt mode 10) (js_split l1 '','')) 0),
                     motorStates (element (map (\<lambda>mode. parseInt mode 10) (js_split l1 '','')) 1)])"
    by (simp only: data_and_OK_accepts[OF assms] option.case Let_def motorStates_None)
  {
    assume a: "numeric_field l1 0 \<in> set mode_numbers \<and> numeric_field l1 1 \<in> set mode_numbers"
    show "\<exists>v. fst (perform queryMotorConfig (\<lambda>w. [l1, ''OK'']) new_board) = Resolved v"
      unfolding queryMotorConfig_def
      apply (rule exI)
      apply (rule two_lines_resolved)
      apply (subst k)
      using a apply (simp only: simp_thms if_False)
      done
  }
  {
    assume a: "\<not> (numeric_field l1 0 \<in> set mode_numbers \<and> numeric_field l1 1 \<in> set mode_numbers)"
    show "names_response (l1 @ [CR, LF] @ ''OK'')
             (fst (perform queryMotorConfig (\<lambda>w. [l1, ''OK'']) new_board))"
      unfolding queryMotorConfig_def
      apply (rule two_lines_rejected)
      apply (subst k)
      using a apply (simp only: de_Morgan_conj simp_thms if_True)
      done
  }
qed

lemma accepted_passes: "accepted r \<Longrightarrow> invoke r = effect p \<Longrightarrow> passes p"
  by (cases p) (simp_all add: accepted_def passes_def effect_def)

lemma conforms_acknowledged:
  assumes "acknowledged r" "accepted r"
  shows "if reply_conforms r [l] then fst (perform (invoke r) (\<lambda>w. [l]) new_board) = Resolved ()
         else names_response (js_join [l] [CR, LF]) (fst (perform (invoke r) (\<lambda>w. [l]) new_board))"
proof (cases "l = ''OK''")
  case True
  with assms(1) acknowledged_accepts[OF assms] show ?thesis
    by (simp only: reply_conforms_def if_True nth_Cons_0 simp_thms)
next
  case False
  with assms(1) replies_must_be_OK[OF assms False] show ?thesis
    by (simp only: reply_conforms_def if_True if_False nth_Cons_0 js_join.simps)
qed

lemma outcome_effect:
  "fst (perform (effect p) device b) = map_outcome (\<lambda>_. ()) (fst (perform p device b))"
  by (simp add: perform_effect del: perform.simps)

lemma conforms_tagged:
  assumes "accepted r"
  shows "r = GetInput \<or> r = QueryMotors \<or> r = MemoryRead a \<or> r = PinInput p i \<Longrightarrow>
         if reply_conforms r [l] then fst (perform (invoke r) (\<lambda>w. [l]) new_board) = Resolved ()
         else names_response (js_join [l] [CR, LF]) (fst (perform (invoke r) (\<lambda>w. [l]) new_board))"
proof (elim disjE)
  assume r: "r = GetInput"
  show ?thesis unfolding r invoke.simps outcome_effect tag_replies
    by (simp add: reply_conforms_def acknowledged_def data_then_ack_def names_simps)
next
  assume r: "r = QueryMotors"
  show ?thesis unfolding r invoke.simps outcome_effect tag_replies
    by (simp add: reply_conforms_def acknowledged_def data_then_ack_def names_simps)
next
  assume r: "r = MemoryRead a"
  from accepted_passes[OF assms, of "memoryRead a"] r have "passes (memoryRead a)" by simp
  from tag_replies_memoryRead[OF this] show ?thesis unfolding r invoke.simps outcome_effect
    by (simp add: reply_conforms_def acknowledged_def data_then_ack_def names_simps)
next
  assume r: "r = PinInput p i"
  from accepted_passes[OF assms, of "pinInput p i"] r have "passes (pinInput p i)" by simp
  from tag_replies_pinInput[OF this] show ?thesis unfolding r invoke.simps outcome_effect
    by (simp add: reply_conforms_def acknowledged_def data_then_ack_def names_simps)
qed

lemma conforms_unchecked:
  "r = AnalogValueGet \<or> r = EnterBootloader \<or> r = QueryGeneral \<or> r = Reboot \<or> r = QueryVersion \<or>
   r = ConfigureUserOptions ok limits led \<Longrightarrow>
   reply_conforms r [l] \<and> fst (perform (invoke r) (\<lambda>w. [l]) new_board) = Resolved ()"
  using unchecked_replies[of l] unchecked_configureUserOptions[of ok limits led l]
  by (elim disjE)
     (auto simp: reply_conforms_def acknowledged_def data_then_ack_def outcome_effect effect_unit
           simp del: perform.simps)

lemma conforms_togglePen:
  assumes "accepted (TogglePen d)" "truthy d"
  shows "reply_conforms (TogglePen d) [l] \<and>
         fst (perform (invoke (TogglePen d)) (\<lambda>w. [l]) new_board) = Resolved ()"
proof -
  from accepted_passes[OF assms(1), of "togglePen d"] have "passes (togglePen d)" by simp
  from unchecked_togglePen[OF assms(2) this, of l] assms(2) show ?thesis
    by (simp add: reply_conforms_def acknowledged_def data_then_ack_def effect_unit
          del: perform.simps)
qed

lemma conforms_data:
  assumes "data_then_ack r" "\<not> js_contains l1 [CR, LF]" "\<not> js_contains l2 [CR, LF]"
  shows "if reply_conforms r [l1, l2]
         then fst (perform (invoke r) (\<lambda>w. [l1, l2]) new_board) = Resolved ()
         else names_response (js_join [l1, l2] [CR, LF])
                (fst (perform (invoke r) (\<lambda>w. [l1, l2]) new_board))"
proof (cases "l2 = ''OK''")
  case False
  have na: "\<not> acknowledged r" using assms(1) by (cases r) (simp_all add: data_then_ack_def acknowledged_def)
  have nc: "\<not> reply_conforms r [l1, l2]" using na assms(1) False by (simp add: reply_conforms_def)
  from replies_must_end_with_OK[OF assms False] nc show ?thesis
    by (simp only: if_False js_join.simps)
next
  case True
  have na: "\<not> acknowledged r" using assms(1) by (cases r) (simp_all add: data_then_ack_def acknowledged_def)
  show ?thesis
  proof (cases "r = QueryMotorConfig")
    case m: True
    have c: "reply_conforms r [l1, l2] \<longleftrightarrow>
        numeric_field l1 0 \<in> set mode_numbers \<and> numeric_field l1 1 \<in> set mode_numbers"
      using na assms(1) True m by (simp add: reply_conforms_def)
    show ?thesis
    proof (cases "numeric_field l1 0 \<in> set mode_numbers \<and> numeric_field l1 1 \<in> set mode_numbers")
      case k: True
      from data_replies_queryMotorConfig(1)[OF assms(2) k]
      obtain v where "fst (perform queryMotorConfig (\<lambda>w. [l1, ''OK'']) new_board) = Resolved v" ..
      then have "fst (perform (invoke r) (\<lambda>w. [l1, l2]) new_board) = Resolved ()"
        unfolding m True invoke.simps by (rule resolved_effect)
      with c k show ?thesis by (simp only: if_True simp_thms)
    next
      case k: False
      from data_replies_queryMotorConfig(2)[OF assms(2) k]
      have "names_response (js_join [l1, l2] [CR, LF])
                (fst (perform (invoke r) (\<lambda>w. [l1, l2]) new_board))"
        unfolding m True invoke.simps names_response_effect by (simp only: js_join.simps)
      with c k show ?thesis by (simp only: if_False simp_thms)
    qed
  next
    case m: False
    have c: "reply_conforms r [l1, l2]"
      using na assms(1) True m by (simp add: reply_conforms_def)
    have "\<exists>v. fst (perform (invoke r) (\<lambda>w. [l1, l2]) new_board) = Resolved v"
      using assms(1) m
    proof (cases r)
      case (EmergencyStop disableMotors)
      from data_replies_emergencyStop[OF assms(2)] show ?thesis unfolding EmergencyStop True invoke.simps
        by (blast intro: resolved_effect)
    next
      case QueryButton
      from data_replies[OF assms(2)] show ?thesis unfolding QueryButton True invoke.simps
        by (blast intro: resolved_effect)
    next
      case (QueryCurrent oldBoard)
      from data_replies[OF assms(2)] show ?thesis unfolding QueryCurrent True invoke.simps
        by (blast intro: resolved_effect)
    next
      case QueryLayer
      from data_replies_queryLayer[OF assms(2)] show ?thesis unfolding QueryLayer True invoke.simps
        by (blast intro: resolved_effect)
    next
      case QueryPen
      from data_replies[OF assms(2)] show ?thesis unfolding QueryPen True invoke.simps
        by (blast intro: resolved_effect)
    next
      case QueryServoPower
      from data_replies[OF assms(2)] show ?thesis unfolding QueryServoPower True invoke.simps
        by (blast intro: resolved_effect)
    next
      case QueryStepPosition
      from data_replies[OF assms(2)] show ?thesis unfolding QueryStepPosition True invoke.simps
        by (blast intro: resolved_effect)
    next
      case QueryNickname
      from data_replies[OF assms(2)] show ?thesis unfolding QueryNickname True invoke.simps
        by (blast intro: resolved_effect)
    next
      case QueryNodeCount
      from data_replies[OF assms(2)] show ?thesis unfolding QueryNodeCount True invoke.simps
        by (blast intro: resolved_effect)
    qed (simp_all add: data_then_ack_def)
    then have "fst (perform (invoke r) (\<lambda>w. [l1, l2]) new_board) = Resolved ()"
      by (cases "fst (perform (invoke r) (\<lambda>w. [l1, l2]) new_board)") simp_all
    with c show ?thesis by (simp only: if_True simp_thms)
  qed
qed

lemma reply_characterised:
  assumes "accepted r" "length ls = reply_lines r" "list_all (\<lambda>l. \<not> js_contains l [CR, LF]) ls"
  shows "if reply_conforms r ls then fst (perform (invoke r) (\<lambda>w. ls) new_board) = Resolved ()
         else names_response (js_join ls [CR, LF]) (fst (perform (invoke r) (\<lambda>w. ls) new_board))"
proof (cases "data_then_ack r")
  case True
  with assms(2) obtain l1 l2 where ls: "ls = [l1, l2]"
    by (cases ls; cases "tl ls") (auto simp: reply_lines_def)
  from assms(3) have "\<not> js_contains l1 [CR, LF]" "\<not> js_contains l2 [CR, LF]" by (simp_all add: ls)
  from conforms_data[OF True this] show ?thesis unfolding ls .
next
  case False
  with assms(2) obtain l where ls: "ls = [l]"
    by (cases ls) (auto simp: reply_lines_def)
  show ?thesis
  proof (cases "acknowledged r")
    case True
    from conforms_acknowledged[OF True assms(1)] show ?thesis unfolding ls .
  next
    case na: False
    show ?thesis
    proof (cases r)
      case AnalogValueGet
      with conforms_unchecked[of r _ _ _ l] show ?thesis unfolding ls
        by (simp only: if_True simp_thms)
    next
      case (AnalogConfigure channel enabled)
      with na show ?thesis by (simp add: acknowledged_def)
    next
      case EnterBootloader
      with conforms_unchecked[of r _ _ _ l] show ?thesis unfolding ls
        by (simp only: if_True simp_thms)
    next
      case (ConfigurePinDirections portA portB portC portD portE)
      with na show ?thesis by (simp add: acknowledged_def)
    next
      case ClearStepPosition
      with na show ?thesis by (simp add: acknowledged_def)
    next
      case (ConfigureUserOptions ok limits led)
      with conforms_unchecked[of r ok limits led l] show ?thesis unfolding ls
        by (simp only: if_True simp_thms)
    next
      case (EnableMotors m1Mode m2Mode)
      with na show ?thesis by (simp add: acknowledged_def)
    next
      case (EmergencyStop disableMotors)
      with False show ?thesis by (simp add: data_then_ack_def)
    next
      case (AbsoluteMove stepFrequency position1 position2)
      with na show ?thesis by (simp add: acknowledged_def)
    next
      case GetInput
      with conforms_tagged[OF assms(1), of _ _ _] show ?thesis unfolding ls by blast
    next
      case (LowLevelMove m1Rate m1Steps m1Accel m1Clear m2Rate m2Steps m2Accel m2Clear)
      with na show ?thesis by (simp add: acknowledged_def)
    next
      case (LowLevelMoveTimeLimited intervals m1Rate m1Accel m1Clear m2Rate m2Accel m2Clear)
      with na show ?thesis by (simp add: acknowledged_def)
    next
      case (MemoryRead address)
      with conforms_tagged[OF assms(1), of address] show ?thesis unfolding ls by blast
    next
      case (MemoryWrite address val)
      with na show ?thesis by (simp add: acknowledged_def)
    next
      case NodeCountDecrement
      with na show ?thesis by (simp add: acknowledged_def)
    next
      case NodeCountIncrement
      with na show ?thesis by (simp add: acknowledged_def)
    next
      case (SetOutputs portA portB portC portD portE)
      with na show ?thesis by (simp add: acknowledged_def)
    next
      case (PulseConfigure duration0 period0 duration1 period1 duration2 period2 duration3 period3)
      with na show ?thesis by (simp add: acknowledged_def)
    next
      case (SetPinDirection portLetter pinIndex isOutput)
      with na show ?thesis by (simp add: acknowledged_def)
    next
      case (PulseGo enabled)
      with na show ?thesis by (simp add: acknowledged_def)
    next
      case (PinInput portLetter pinIndex)
      with conforms_tagged[OF assms(1), of _ portLetter pinIndex] show ?thesis unfolding ls by blast
    next
      case (PinOutput portLetter pinIndex setPinHigh)
      with na show ?thesis by (simp add: acknowledged_def)
    next
      case QueryButton
      with False show ?thesis by (simp add: data_then_ack_def)
    next
      case (QueryCurrent oldBoard)
      with False show ?thesis by (simp add: data_then_ack_def)
    next
      case QueryMotorConfig
      with False show ?thesis by (simp add: data_then_ack_def)
    next
      case QueryGeneral
      with conforms_unchecked[of r _ _ _ l] show ?thesis unfolding ls
        by (simp only: if_True simp_thms)
    next
      case QueryLayer
      with False show ?thesis by (simp add: data_then_ack_def)
    next
      case QueryMotors
      with conforms_tagged[OF assms(1), of _ _ _] show ?thesis unfolding ls by blast
    next
      case QueryPen
      with False show ?thesis by (simp add: data_then_ack_def)
    next
      case QueryServoPower
      with False show ?thesis by (simp add: data_then_ack_def)
    next
      case QueryStepPosition
      with False show ?thesis by (simp add: data_then_ack_def)
    next
      case QueryNickname
      with False show ?thesis by (simp add: data_then_ack_def)
    next
      case Reboot
      with conforms_unchecked[of r _ _ _ l] show ?thesis unfolding ls
        by (simp only: if_True simp_thms)
    next
      case Reset
      with na show ?thesis by (simp add: acknowledged_def)
    next
      case (ServoOutput position pinIndex rate delay)
      with na show ?thesis by (simp add: acknowledged_def)
    next
      case (StepperAndServoModeConfigure paramIndex paramValue)
      with na show ?thesis by (simp add: acknowledged_def)
    next
      case (SetEngraver enableEngraver pwr useMotionQueue)
      with na show ?thesis by (simp add: acknowledged_def)
    next
      case (SetLayer layerValue)
      with na show ?thesis by (simp add: acknowledged_def)
    next
      case (StepperMove duration m1Steps m2Steps)
      with na show ?thesis by (simp add: acknowledged_def)
    next
      case (SetNodeCount val)
      with na show ?thesis by (simp add: acknowledged_def)
    next
      case (SetPenState down duration portBPin)
      with na show ?thesis by (simp add: acknowledged_def)
    next
      case (SetServoPowerTimeout duration setPowerOn)
      with na show ?thesis by (simp add: acknowledged_def)
    next
      case (SetNickname nickname)
      with na show ?thesis by (simp add: acknowledged_def)
    next
      case (TimedRead duration digitalMode)
      with na show ?thesis by (simp add: acknowledged_def)
    next
      case (TogglePen duration)
      with na have t: "truthy duration" by (simp add: acknowledged_def)
      from conforms_togglePen[OF _ t, of l] assms(1) show ?thesis unfolding ls TogglePen
        by (simp only: if_True simp_thms)
    next
      case QueryNodeCount
      with False show ?thesis by (simp add: data_then_ack_def)
    next
      case QueryVersion
      with conforms_unchecked[of r _ _ _ l] show ?thesis unfolding ls
        by (simp only: if_True simp_thms)
    next
      case (StepperMoveMixedAxis durationMs stepsA stepsB)
      with na show ?thesis by (simp add: acknowledged_def)
    qed
  qed
qed




lemmas domain_simps = in_range_def byte_def port_letter_def optional_def asserting_def
  assertByte_def assertValidPortLetter_def Number_isInteger_def truthy_def Let_def

lemma outside_AnalogValueGet:
  "\<not> within_domain AnalogValueGet \<Longrightarrow> \<exists>e. analogValueGet = Throw e"
  by (auto simp: analogValueGet_def domain_simps split: option.splits if_splits)

lemma outside_AnalogConfigure:
  "\<not> within_domain (AnalogConfigure channel enabled) \<Longrightarrow> \<exists>e. (analogConfigure channel enabled) = Throw e"
  by (auto simp: analogConfigure_def domain_simps split: option.splits if_splits)

lemma outside_EnterBootloader:
  "\<not> within_domain EnterBootloader \<Longrightarrow> \<exists>e. enterBootloader = Throw e"
  by (auto simp: enterBootloader_def domain_simps split: option.splits if_splits)

lemma outside_ConfigurePinDirections:
  "\<not> within_domain (ConfigurePinDirections portA portB portC portD portE) \<Longrightarrow> \<exists>e. (configurePinDirections portA portB portC portD portE) = Throw e"
  by (auto simp: configurePinDirections_def domain_simps split: option.splits if_splits)

lemma outside_ClearStepPosition:
  "\<not> within_domain ClearStepPosition \<Longrightarrow> \<exists>e. clearStepPosition = Throw e"
  by (auto simp: clearStepPosition_def domain_simps split: option.splits if_splits)

lemma outside_ConfigureUserOptions:
  "\<not> within_domain (ConfigureUserOptions ok limits led) \<Longrightarrow> \<exists>e. (configureUserOptions ok limits led) = Throw e"
  by (auto simp: configureUserOptions_def domain_simps split: option.splits if_splits)

lemma outside_EnableMotors:
  "\<not> within_domain (EnableMotors m1Mode m2Mode) \<Longrightarrow> \<exists>e. (enableMotors m1Mode m2Mode) = Throw e"
  by (auto simp: enableMotors_def domain_simps split: option.splits if_splits)

lemma outside_EmergencyStop:
  "\<not> within_domain (EmergencyStop disableMotors) \<Longrightarrow> \<exists>e. (emergencyStop disableMotors) = Throw e"
  by (auto simp: emergencyStop_def domain_simps split: option.splits if_splits)

lemma outside_AbsoluteMove:
  "\<not> within_domain (AbsoluteMove stepFrequency position1 position2) \<Longrightarrow> \<exists>e. (absoluteMove stepFrequency position1 position2) = Throw e"
  by (auto simp: absoluteMove_def domain_simps split: option.splits if_splits)

lemma outside_GetInput:
  "\<not> within_domain GetInput \<Longrightarrow> \<exists>e. getInput = Throw e"
  by (auto simp: getInput_def domain_simps split: option.splits if_splits)

lemma outside_LowLevelMove:
  "\<not> within_domain (LowLevelMove m1Rate m1Steps m1Accel m1Clear m2Rate m2Steps m2Accel m2Clear) \<Longrightarrow> \<exists>e. (lowLevelMove m1Rate m1Steps m1Accel m1Clear m2Rate m2Steps m2Accel m2Clear) = Throw e"
  by (auto simp: lowLevelMove_def domain_simps split: option.splits if_splits)

lemma outside_LowLevelMoveTimeLimited:
  "\<not> within_domain (LowLevelMoveTimeLimited intervals m1Rate m1Accel m1Clear m2Rate m2Accel m2Clear) \<Longrightarrow> \<exists>e. (lowLevelMoveTimeLimited intervals m1Rate m1Accel m1Clear m2Rate m2Accel m2Clear) = Throw e"
  by (auto simp: lowLevelMoveTimeLimited_def domain_simps split: option.splits if_splits)

lemma outside_MemoryRead:
  "\<not> within_domain (MemoryRead address) \<Longrightarrow> \<exists>e. (memoryRead address) = Throw e"
  by (auto simp: memoryRead_def domain_simps split: option.splits if_splits)

lemma outside_MemoryWrite:
  "\<not> within_domain (MemoryWrite address val) \<Longrightarrow> \<exists>e. (memoryWrite address val) = Throw e"
  by (auto simp: memoryWrite_def domain_simps split: option.splits if_splits)

lemma outside_NodeCountDecrement:
  "\<not> within_domain NodeCountDecrement \<Longrightarrow> \<exists>e. nodeCountDecrement = Throw e"
  by (auto simp: nodeCountDecrement_def domain_simps split: option.splits if_splits)

lemma outside_NodeCountIncrement:
  "\<not> within_domain NodeCountIncrement \<Longrightarrow> \<exists>e. nodeCountIncrement = Throw e"
  by (auto simp: nodeCountIncrement_def domain_simps split: option.splits if_splits)

lemma outside_SetOutputs:
  "\<not> within_domain (SetOutputs portA portB portC portD portE) \<Longrightarrow> \<exists>e. (setOutputs portA portB portC portD portE) = Throw e"
  by (auto simp: setOutputs_def domain_simps split: option.splits if_splits)

lemma outside_PulseConfigure:
  "\<not> within_domain (PulseConfigure duration0 period0 duration1 period1 duration2 period2 duration3 period3) \<Longrightarrow> \<exists>e. (pulseConfigure duration0 period0 duration1 period1 duration2 period2 duration3 period3) = Throw e"
  by (auto simp: pulseConfigure_def domain_simps split: option.splits if_splits)

lemma outside_SetPinDirection:
  "\<not> within_domain (SetPinDirection portLetter pinIndex isOutput) \<Longrightarrow> \<exists>e. (setPinDirection portLetter pinIndex isOutput) = Throw e"
  by (auto simp: setPinDirection_def domain_simps split: option.splits if_splits)

lemma outside_PulseGo:
  "\<not> within_domain (PulseGo enabled) \<Longrightarrow> \<exists>e. (pulseGo enabled) = Throw e"
  by (auto simp: pulseGo_def domain_simps split: option.splits if_splits)

lemma outside_PinInput:
  "\<not> within_domain (PinInput portLetter pinIndex) \<Longrightarrow> \<exists>e. (pinInput portLetter pinIndex) = Throw e"
  by (auto simp: pinInput_def domain_simps split: option.splits if_splits)

lemma outside_PinOutput:
  "\<not> within_domain (PinOutput portLetter pinIndex setPinHigh) \<Longrightarrow> \<exists>e. (pinOutput portLetter pinIndex setPinHigh) = Throw e"
  by (auto simp: pinOutput_def domain_simps split: option.splits if_splits)

lemma outside_QueryButton:
  "\<not> within_domain QueryButton \<Longrightarrow> \<exists>e. queryButton = Throw e"
  by (auto simp: queryButton_def domain_simps split: option.splits if_splits)

lemma outside_QueryCurrent:
  "\<not> within_domain (QueryCurrent oldBoard) \<Longrightarrow> \<exists>e. (queryCurrent oldBoard) = Throw e"
  by (auto simp: queryCurrent_def domain_simps split: option.splits if_splits)

lemma outside_QueryMotorConfig:
  "\<not> within_domain QueryMotorConfig \<Longrightarrow> \<exists>e. queryMotorConfig = Throw e"
  by (auto simp: queryMotorConfig_def domain_simps split: option.splits if_splits)

lemma outside_QueryGeneral:
  "\<not> within_domain QueryGeneral \<Longrightarrow> \<exists>e. queryGeneral = Throw e"
  by (auto simp: queryGeneral_def domain_simps split: option.splits if_splits)

lemma outside_QueryLayer:
  "\<not> within_domain QueryLayer \<Longrightarrow> \<exists>e. queryLayer = Throw e"
  by (auto simp: queryLayer_def domain_simps split: option.splits if_splits)

lemma outside_QueryMotors:
  "\<not> within_domain QueryMotors \<Longrightarrow> \<exists>e. queryMotors = Throw e"
  by (auto simp: queryMotors_def domain_simps split: option.splits if_splits)

lemma outside_QueryPen:
  "\<not> within_domain QueryPen \<Longrightarrow> \<exists>e. queryPen = Throw e"
  by (auto simp: queryPen_def domain_simps split: option.splits if_splits)

lemma outside_QueryServoPower:
  "\<not> within_domain QueryServoPower \<Longrightarrow> \<exists>e. queryServoPower = Throw e"
  by (auto simp: queryServoPower_def domain_simps split: option.splits if_splits)

lemma outside_QueryStepPosition:
  "\<not> within_domain QueryStepPosition \<Longrightarrow> \<exists>e. queryStepPosition = Throw e"
  by (auto simp: queryStepPosition_def domain_simps split: option.splits if_splits)

lemma outside_QueryNickname:
  "\<not> within_domain QueryNickname \<Longrightarrow> \<exists>e. queryNickname = Throw e"
  by (auto simp: queryNickname_def domain_simps split: option.splits if_splits)

lemma outside_Reboot:
  "\<not> within_domain Reboot \<Longrightarrow> \<exists>e. reboot = Throw e"
  by (auto simp: reboot_def domain_simps split: option.splits if_splits)

lemma outside_Reset:
  "\<not> within_domain Reset \<Longrightarrow> \<exists>e. reset = Throw e"
  by (auto simp: reset_def domain_simps split: option.splits if_splits)

lemma outside_ServoOutput:
  "\<not> within_domain (ServoOutput position pinIndex rate delay) \<Longrightarrow> \<exists>e. (servoOutput position pinIndex rate delay) = Throw e"
  by (auto simp: servoOutput_def domain_simps split: option.splits if_splits)

lemma outside_StepperAndServoModeConfigure:
  "\<not> within_domain (StepperAndServoModeConfigure paramIndex paramValue) \<Longrightarrow> \<exists>e. (stepperAndServoModeConfigure paramIndex paramValue) = Throw e"
  by (auto simp: stepperAndServoModeConfigure_def stepperAndServoModeConfigure_command_def domain_simps split: option.splits if_splits)

lemma outside_SetEngraver:
  "\<not> within_domain (SetEngraver enableEngraver pwr useMotionQueue) \<Longrightarrow> \<exists>e. (setEngraver enableEngraver pwr useMotionQueue) = Throw e"
  by (auto simp: setEngraver_def domain_simps split: option.splits if_splits)

lemma outside_SetLayer:
  "\<not> within_domain (SetLayer layerValue) \<Longrightarrow> \<exists>e. (setLayer layerValue) = Throw e"
  by (auto simp: setLayer_def domain_simps split: option.splits if_splits)

lemma outside_StepperMove:
  "\<not> within_domain (StepperMove duration m1Steps m2Steps) \<Longrightarrow> \<exists>e. (stepperMove duration m1Steps m2Steps) = Throw e"
  by (auto simp: stepperMove_def domain_simps split: option.splits if_splits)

lemma outside_SetNodeCount:
  "\<not> within_domain (SetNodeCount val) \<Longrightarrow> \<exists>e. (setNodeCount val) = Throw e"
  by (auto simp: setNodeCount_def domain_simps split: option.splits if_splits)

lemma outside_SetPenState:
  "\<not> within_domain (SetPenState down duration portBPin) \<Longrightarrow> \<exists>e. (setPenState down duration portBPin) = Throw e"
  by (auto simp: setPenState_def domain_simps split: option.splits if_splits)

lemma outside_SetServoPowerTimeout:
  "\<not> within_domain (SetServoPowerTimeout duration setPowerOn) \<Longrightarrow> \<exists>e. (setServoPowerTimeout duration setPowerOn) = Throw e"
  by (auto simp: setServoPowerTimeout_def domain_simps split: option.splits if_splits)

lemma outside_SetNickname:
  "\<not> within_domain (SetNickname nickname) \<Longrightarrow> \<exists>e. (setNickname nickname) = Throw e"
  by (auto simp: setNickname_def domain_simps split: option.splits if_splits)

lemma outside_TimedRead:
  "\<not> within_domain (TimedRead duration digitalMode) \<Longrightarrow> \<exists>e. (timedRead duration digitalMode) = Throw e"
  by (auto simp: timedRead_def domain_simps split: option.splits if_splits)

lemma outside_TogglePen:
  "\<not> within_domain (TogglePen duration) \<Longrightarrow> duration \<noteq> Some 0 \<Longrightarrow> \<exists>e. (togglePen duration) = Throw e"
  by (auto simp: togglePen_def domain_simps split: option.splits if_splits)

lemma outside_QueryNodeCount:
  "\<not> within_domain QueryNodeCount \<Longrightarrow> \<exists>e. queryNodeCount = Throw e"
  by (auto simp: queryNodeCount_def domain_simps split: option.splits if_splits)

lemma outside_QueryVersion:
  "\<not> within_domain QueryVersion \<Longrightarrow> \<exists>e. queryVersion = Throw e"
  by (auto simp: queryVersion_def domain_simps split: option.splits if_splits)

lemma outside_StepperMoveMixedAxis:
  "\<not> within_domain (StepperMoveMixedAxis durationMs stepsA stepsB) \<Longrightarrow> \<exists>e. (stepperMoveMixedAxis durationMs stepsA stepsB) = Throw e"
  by (auto simp: stepperMoveMixedAxis_def domain_simps split: option.splits if_splits)

lemma effect_Throw: "\<exists>e. p = Throw e \<Longrightarrow> \<exists>e. effect p = Throw e"
  by (auto simp: effect_def)

lemma outside_domain_throws:
  assumes "\<not> within_domain r" "r \<noteq> TogglePen (Some 0)"
  shows "\<exists>e. invoke r = Throw e"
proof (cases r)
  case AnalogValueGet
  with assms(1) show ?thesis by simp
next
  case (AnalogConfigure channel enabled)
  with assms(1) have "\<not> within_domain (AnalogConfigure channel enabled)" by simp
  then show ?thesis unfolding AnalogConfigure invoke.simps
    by (intro effect_Throw outside_AnalogConfigure)
next
  case EnterBootloader
  with assms(1) show ?thesis by simp
next
  case (ConfigurePinDirections portA portB portC portD portE)
  with assms(1) have "\<not> within_domain (ConfigurePinDirections portA portB portC portD portE)" by simp
  then show ?thesis unfolding ConfigurePinDirections invoke.simps
    by (intro effect_Throw outside_ConfigurePinDirections)
next
  case ClearStepPosition
  with assms(1) show ?thesis by simp
next
  case (ConfigureUserOptions ok limits led)
  with assms(1) have "\<not> within_domain (ConfigureUserOptions ok limits led)" by simp
  then show ?thesis unfolding ConfigureUserOptions invoke.simps
    by (intro effect_Throw outside_ConfigureUserOptions)
next
  case (EnableMotors m1Mode m2Mode)
  with assms(1) have "\<not> within_domain (EnableMotors m1Mode m2Mode)" by simp
  then show ?thesis unfolding EnableMotors invoke.simps
    by (intro effect_Throw outside_EnableMotors)
next
  case (EmergencyStop disableMotors)
  with assms(1) have "\<not> within_domain (EmergencyStop disableMotors)" by simp
  then show ?thesis unfolding EmergencyStop invoke.simps
    by (intro effect_Throw outside_EmergencyStop)
next
  case (AbsoluteMove stepFrequency position1 position2)
  with assms(1) have "\<not> within_domain (AbsoluteMove stepFrequency position1 position2)" by simp
  then show ?thesis unfolding AbsoluteMove invoke.simps
    by (intro effect_Throw outside_AbsoluteMove)
next
  case GetInput
  with assms(1) show ?thesis by simp
next
  case (LowLevelMove m1Rate m1Steps m1Accel m1Clear m2Rate m2Steps m2Accel m2Clear)
  with assms(1) have "\<not> within_domain (LowLevelMove m1Rate m1Steps m1Accel m1Clear m2Rate m2Steps m2Accel m2Clear)" by simp
  then show ?thesis unfolding LowLevelMove invoke.simps
    by (intro effect_Throw outside_LowLevelMove)
next
  case (LowLevelMoveTimeLimited intervals m1Rate m1Accel m1Clear m2Rate m2Accel m2Clear)
  with assms(1) have "\<not> within_domain (LowLevelMoveTimeLimited intervals m1Rate m1Accel m1Clear m2Rate m2Accel m2Clear)" by simp
  then show ?thesis unfolding LowLevelMoveTimeLimited invoke.simps
    by (intro effect_Throw outside_LowLevelMoveTimeLimited)
next
  case (MemoryRead address)
  with assms(1) have "\<not> within_domain (MemoryRead address)" by simp
  then show ?thesis unfolding MemoryRead invoke.simps
    by (intro effect_Throw outside_MemoryRead)
next
  case (MemoryWrite address val)
  with assms(1) have "\<not> within_domain (MemoryWrite address val)" by simp
  then show ?thesis unfolding MemoryWrite invoke.simps
    by (intro effect_Throw outside_MemoryWrite)
next
  case NodeCountDecrement
  with assms(1) show ?thesis by simp
next
  case NodeCountIncrement
  with assms(1) show ?thesis by simp
next
  case (SetOutputs portA portB portC portD portE)
  with assms(1) have "\<not> within_domain (SetOutputs portA portB portC portD portE)" by simp
  then show ?thesis unfolding SetOutputs invoke.simps
    by (intro effect_Throw outside_SetOutputs)
next
  case (PulseConfigure duration0 period0 duration1 period1 duration2 period2 duration3 period3)
  with assms(1) have "\<not> within_domain (PulseConfigure duration0 period0 duration1 period1 duration2 period2 duration3 period3)" by simp
  then show ?thesis unfolding PulseConfigure invoke.simps
    by (intro effect_Throw outside_PulseConfigure)
next
  case (SetPinDirection portLetter pinIndex isOutput)
  with assms(1) have "\<not> within_domain (SetPinDirection portLetter pinIndex isOutput)" by simp
  then show ?thesis unfolding SetPinDirection invoke.simps
    by (intro effect_Throw outside_SetPinDirection)
next
  case (PulseGo enabled)
  with assms(1) have "\<not> within_domain (PulseGo enabled)" by simp
  then show ?thesis unfolding PulseGo invoke.simps
    by (intro effect_Throw outside_PulseGo)
next
  case (PinInput portLetter pinIndex)
  with assms(1) have "\<not> within_domain (PinInput portLetter pinIndex)" by simp
  then show ?thesis unfolding PinInput invoke.simps
    by (intro effect_Throw outside_PinInput)
next
  case (PinOutput portLetter pinIndex setPinHigh)
  with assms(1) have "\<not> within_domain (PinOutput portLetter pinIndex setPinHigh)" by simp
  then show ?thesis unfolding PinOutput invoke.simps
    by (intro effect_Throw outside_PinOutput)
next
  case QueryButton
  with assms(1) show ?thesis by simp
next
  case (QueryCurrent oldBoard)
  with assms(1) have "\<not> within_domain (QueryCurrent oldBoard)" by simp
  then show ?thesis unfolding QueryCurrent invoke.simps
    by (intro effect_Throw outside_QueryCurrent)
next
  case QueryMotorConfig
  with assms(1) show ?thesis by simp
next
  case QueryGeneral
  with assms(1) show ?thesis by simp
next
  case QueryLayer
  with assms(1) show ?thesis by simp
next
  case QueryMotors
  with assms(1) show ?thesis by simp
next
  case QueryPen
  with assms(1) show ?thesis by simp
next
  case QueryServoPower
  with assms(1) show ?thesis by simp
next
  case QueryStepPosition
  with assms(1) show ?thesis by simp
next
  case QueryNickname
  with assms(1) show ?thesis by simp
next
  case Reboot
  with assms(1) show ?thesis by simp
next
  case Reset
  with assms(1) show ?thesis by simp
next
  case (ServoOutput position pinIndex rate delay)
  with assms(1) have "\<not> within_domain (ServoOutput position pinIndex rate delay)" by simp
  then show ?thesis unfolding ServoOutput invoke.simps
    by (intro effect_Throw outside_ServoOutput)
next
  case (StepperAndServoModeConfigure paramIndex paramValue)
  with assms(1) have "\<not> within_domain (StepperAndServoModeConfigure paramIndex paramValue)" by simp
  then show ?thesis unfolding StepperAndServoModeConfigure invoke.simps
    by (intro effect_Throw outside_StepperAndServoModeConfigure)
next
  case (SetEngraver enableEngraver pwr useMotionQueue)
  with assms(1) have "\<not> within_domain (SetEngraver enableEngraver pwr useMotionQueue)" by simp
  then show ?thesis unfolding SetEngraver invoke.simps
    by (intro effect_Throw outside_SetEngraver)
next
  case (SetLayer layerValue)
  with assms(1) have "\<not> within_domain (SetLayer layerValue)" by simp
  then show ?thesis unfolding SetLayer invoke.simps
    by (intro effect_Throw outside_SetLayer)
next
  case (StepperMove duration m1Steps m2Steps)
  with assms(1) have "\<not> within_domain (StepperMove duration m1Steps m2Steps)" by simp
  then show ?thesis unfolding StepperMove invoke.simps
    by (intro effect_Throw outside_StepperMove)
next
  case (SetNodeCount val)
  with assms(1) have "\<not> within_domain (SetNodeCount val)" by simp
  then show ?thesis unfolding SetNodeCount invoke.simps
    by (intro effect_Throw outside_SetNodeCount)
next
  case (SetPenState down duration portBPin)
  with assms(1) have "\<not> within_domain (SetPenState down duration portBPin)" by simp
  then show ?thesis unfolding SetPenState invoke.simps
    by (intro effect_Throw outside_SetPenState)
next
  case (SetServoPowerTimeout duration setPowerOn)
  with assms(1) have "\<not> within_domain (SetServoPowerTimeout duration setPowerOn)" by simp
  then show ?thesis unfolding SetServoPowerTimeout invoke.simps
    by (intro effect_Throw outside_SetServoPowerTimeout)
next
  case (SetNickname nickname)
  with assms(1) have "\<not> within_domain (SetNickname nickname)" by simp
  then show ?thesis unfolding SetNickname invoke.simps
    by (intro effect_Throw outside_SetNickname)
next
  case (TimedRead duration digitalMode)
  with assms(1) have "\<not> within_domain (TimedRead duration digitalMode)" by simp
  then show ?thesis unfolding TimedRead invoke.simps
    by (intro effect_Throw outside_TimedRead)
next
  case (TogglePen duration)
  with assms have "\<not> within_domain (TogglePen duration)" "duration \<noteq> Some 0" by simp_all
  then show ?thesis unfolding TogglePen invoke.simps
    by (intro effect_Throw outside_TogglePen)
next
  case QueryNodeCount
  with assms(1) show ?thesis by simp
next
  case QueryVersion
  with assms(1) show ?thesis by simp
next
  case (StepperMoveMixedAxis durationMs stepsA stepsB)
  with assms(1) have "\<not> within_domain (StepperMoveMixedAxis durationMs stepsA stepsB)" by simp
  then show ?thesis unfolding StepperMoveMixedAxis invoke.simps
    by (intro effect_Throw outside_StepperMoveMixedAxis)
qed

lemma within_domain_accepted: "within_domain r \<Longrightarrow> accepted r"
proof -
  assume "within_domain r"
  from invoke_sends_only[OF this] have "sends_only (invoke r) (wire_format r)" .
  show ?thesis
  proof (cases "length (wire_format r) = 1")
    case True
    from invoke_one_command[OF \<open>within_domain r\<close> True] show ?thesis
      by (auto simp: one_command_def accepted_def)
  next
    case False
    then obtain ok limits led where r: "r = ConfigureUserOptions ok limits led"
      by (cases r) simp_all
    show ?thesis unfolding r
      by (simp add: accepted_def effect_unit configureUserOptions_def Let_def)
  qed
qed




subsection \<open>Well-formed analog replies\<close>

text \<open>
  \<open>analogValueGet\<close> inverts the reply format: fed the line that lists the readings
  of distinct channels, it resolves with exactly these readings, in the order of the line.
\<close>

lemma digit_char_is_digit: "d < 10 \<Longrightarrow> is_digit (digit_char d)"
proof -
  assume "d < 10"
  then have "d \<in> {0,1,2,3,4,5,6,7,8,9}" by auto
  then show ?thesis by (auto simp: is_digit_def digit_char_def)
qed

lemma digit_value_digit_char: "d < 10 \<Longrightarrow> radix_digit 10 (digit_char d) = Some d"
proof -
  assume "d < 10"
  then have "d \<in> {0,1,2,3,4,5,6,7,8,9}" by auto
  then show ?thesis by (auto simp: radix_digit_def digit_value_def digit_char_def)
qed

lemma digit_chars_digits: "\<forall>c \<in> set (digit_chars n). is_digit c"
proof (induction n rule: digit_chars.induct)
  case (1 n)
  show ?case
  proof (cases "n < 10")
    case True
    then show ?thesis by (subst digit_chars.simps) (simp add: digit_char_is_digit)
  next
    case False
    with 1 show ?thesis by (subst digit_chars.simps) (simp add: digit_char_is_digit)
  qed
qed

lemma digit_chars_nonempty: "digit_chars n \<noteq> []"
  by (subst digit_chars.simps) simp

lemma radix_digits_append:
  "\<forall>c \<in> set s. radix_digit R c \<noteq> None \<Longrightarrow>
   radix_digits R (s @ t) = map (\<lambda>c. the (radix_digit R c)) s @ radix_digits R t"
  by (induction s) (auto split: option.splits)

lemma digits_are_radix_digits:
  "\<forall>c \<in> set s. is_digit c \<Longrightarrow> \<forall>c \<in> set s. radix_digit 10 c \<noteq> None"
proof
  fix c assume a: "\<forall>c \<in> set s. is_digit c" "c \<in> set s"
  then have "is_digit c" by blast
  then show "radix_digit 10 c \<noteq> None"
    by (auto simp: is_digit_def radix_digit_def digit_value_def)
qed

lemma value_digit_chars:
  "foldl (\<lambda>a d. a * 10 + d) a (map (\<lambda>c. the (radix_digit 10 c)) (digit_chars n))
     = a * 10 ^ length (digit_chars n) + n"
proof (induction n arbitrary: a rule: digit_chars.induct)
  case (1 n)
  show ?case
  proof (cases "n < 10")
    case True
    then show ?thesis by (subst (1 2) digit_chars.simps) (simp add: digit_value_digit_char)
  next
    case False
    then have l: "length (digit_chars n) = Suc (length (digit_chars (n div 10)))"
      by (subst digit_chars.simps) simp
    from False have "foldl (\<lambda>a d. a * 10 + d) a (map (\<lambda>c. the (radix_digit 10 c)) (digit_chars n))
        = (a * 10 ^ length (digit_chars (n div 10)) + n div 10) * 10 + n mod 10"
      by (subst digit_chars.simps) (simp add: 1 digit_value_digit_char)
    also have "\<dots> = a * 10 ^ length (digit_chars n) + n"
      by (simp add: l algebra_simps)
    finally show ?thesis .
  qed
qed

lemma is_digit_not_special:
  assumes "is_digit c"
  shows "\<not> js_whitespace c" "c \<noteq> CHR ''-''" "c \<noteq> CHR ''+''" "c \<noteq> CHR '',''" "c \<noteq> CHR '':''"
  using assms by (auto simp: is_digit_def js_whitespace_def)

lemma parseInt_digits:
  assumes "\<forall>c \<in> set s. is_digit c" "s \<noteq> []"
  shows "parseInt s 10 = Num (int (foldl (\<lambda>a d. a * 10 + d) 0 (map (\<lambda>c. the (radix_digit 10 c)) s)))"
proof -
  from assms obtain c cs where s: "s = c # cs" by (cases s) auto
  with assms(1) have c: "is_digit c" by simp
  have dw: "dropWhile js_whitespace s = s" using is_digit_not_special(1)[OF c] by (simp add: s)
  have t1: "take 1 s \<noteq> ''-''" "take 1 s \<noteq> ''+''"
    using is_digit_not_special(2,3)[OF c] by (simp_all add: s)
  have z: "radix_digits 10 s = map (\<lambda>c. the (radix_digit 10 c)) s"
    using radix_digits_append[OF digits_are_radix_digits[OF assms(1)], of "[]"] by simp
  have nz: "radix_digits 10 s \<noteq> []" using z assms(2) by simp
  show ?thesis
    unfolding parseInt_def Let_def dw
    using t1 nz by (simp add: z)
qed

lemma value_zeros:
  "foldl (\<lambda>a d. a * 10 + d) 0 (map (\<lambda>c. the (radix_digit 10 c)) (replicate k (CHR ''0''))) = (0 :: nat)"
  by (induction k) (simp_all add: radix_digit_def digit_value_def)

lemma pad_digits: "\<forall>c \<in> set (pad w n). is_digit c"
proof -
  have z: "is_digit (CHR ''0'')" by (simp add: is_digit_def)
  with digit_chars_digits[of n] show ?thesis by (auto simp: pad_def)
qed

lemma pad_nonempty: "pad w n \<noteq> []"
  by (simp add: pad_def digit_chars_nonempty)

lemma parseInt_pad: "parseInt (pad w n) 10 = Num (int n)"
proof -
  have "foldl (\<lambda>a d. a * 10 + d) 0 (map (\<lambda>c. the (radix_digit 10 c)) (pad w n)) = n"
    unfolding pad_def map_append foldl_append value_zeros
    by (simp add: value_digit_chars)
  with parseInt_digits[OF pad_digits pad_nonempty, of w n] show ?thesis by simp
qed

lemma contains_char: "js_contains s [c] \<longleftrightarrow> c \<in> set s"
  by (induction s) auto

lemma split_char_first:
  "c \<notin> set l1 \<Longrightarrow> js_split_from [c] acc (l1 @ c # rest) = (rev acc @ l1) # js_split_from [c] [] rest"
  by (induction l1 arbitrary: acc) auto

lemma split_tokens:
  assumes "c \<notin> set t" "\<forall>u \<in> set ts. c \<notin> set u"
  shows "js_split_from [c] [] (t @ concat (map (\<lambda>u. c # u) ts)) = t # ts"
  using assms
proof (induction ts arbitrary: t)
  case Nil
  then show ?case by (simp add: split_from_no_sep contains_char)
next
  case (Cons u us)
  have "js_split_from [c] [] (t @ c # (u @ concat (map (\<lambda>u. c # u) us)))
          = t # js_split_from [c] [] (u @ concat (map (\<lambda>u. c # u) us))"
    using split_char_first[OF Cons.prems(1), of "[]"] by simp
  with Cons.IH[of u] Cons.prems(2) show ?case by simp
qed

lemma update_new: "k \<notin> fst ` set al \<Longrightarrow> AList.update k v al = al @ [(k, v)]"
  by (induction al) auto

lemma reduce_distinct:
  "distinct (map f ts) \<Longrightarrow> \<forall>t \<in> set ts. f t \<notin> fst ` set acc \<Longrightarrow>
   foldl (\<lambda>readings t. with_property readings (f t) (g t)) acc ts = acc @ map (\<lambda>t. (f t, g t)) ts"
proof (induction ts arbitrary: acc)
  case Nil
  then show ?case by simp
next
  case (Cons t ts)
  have u: "with_property acc (f t) (g t) = acc @ [(f t, g t)]"
    using Cons.prems(2) by (simp add: with_property_def update_new)
  have "\<forall>t' \<in> set ts. f t' \<notin> fst ` set (acc @ [(f t, g t)])"
  proof
    fix t' assume t': "t' \<in> set ts"
    with Cons.prems(1) have "f t' \<noteq> f t" by (metis distinct.simps(2) image_eqI list.simps(9) set_map)
    moreover from t' Cons.prems(2) have "f t' \<notin> fst ` set acc" by simp
    ultimately show "f t' \<notin> fst ` set (acc @ [(f t, g t)])" by auto
  qed
  with Cons.IH[of "acc @ [(f t, g t)]"] Cons.prems(1) u show ?case by simp
qed

lemma analog_reply_tokens:
  "analog_reply rs = ''A'' @ concat (map (\<lambda>u. CHR '','' # u) (map analog_token rs))"
  by (simp add: analog_reply_def analog_token_def comp_def case_prod_unfold)

lemma pad_no_char:
  assumes "\<not> is_digit c"
  shows "c \<notin> set (pad w n)"
  using pad_digits[of w n] assms by blast

lemma not_digits: "\<not> is_digit (CHR '','')" "\<not> is_digit (CHR '':'')"
  by (simp_all add: is_digit_def)

lemma token_no_comma: "CHR '','' \<notin> set (analog_token r)"
  using pad_no_char[OF not_digits(1)] by (simp add: analog_token_def)

lemma split_reply: "js_split (analog_reply rs) '','' = ''A'' # map analog_token rs"
  unfolding js_split_def analog_reply_tokens
  by (rule split_tokens) (simp_all add: token_no_comma)

lemma split_token: "js_split (analog_token r) '':'' = [pad 2 (fst r), pad 4 (snd r)]"
proof -
  have "js_split_from '':'' [] (pad 2 (fst r) @ concat (map (\<lambda>u. CHR '':'' # u) [pad 4 (snd r)]))
          = [pad 2 (fst r), pad 4 (snd r)]"
    by (rule split_tokens) (simp_all add: pad_no_char[OF not_digits(2)])
  then show ?thesis by (simp add: js_split_def analog_token_def)
qed

lemma token_channel:
  "element (map (\<lambda>v. parseInt v 10) (js_split (analog_token r) '':'')) 0 = Some (Num (int (fst r)))"
  "element (map (\<lambda>v. parseInt v 10) (js_split (analog_token r) '':'')) (Suc 0)
     = Some (Num (int (snd r)))"
  by (simp_all add: split_token element_def parseInt_pad)

lemma analog_round_trip:
  assumes "distinct (map fst rs)"
  shows "fst (perform analogValueGet (\<lambda>w. [analog_reply rs]) new_board)
           = Resolved (map (\<lambda>r. (Some (Num (int (fst r))), Some (Num (int (snd r))))) rs)"
proof -
  have d: "distinct (map (\<lambda>r. Some (Num (int (fst r)))) rs)"
    using assms by (simp add: distinct_map inj_on_def)
  have "fst (perform analogValueGet (\<lambda>w. [analog_reply rs]) new_board) =
      Resolved (foldl
         (\<lambda>readings channelValueStr.
            with_property readings
              (element (map (\<lambda>v. parseInt v 10) (js_split channelValueStr '':'')) 0)
              (element (map (\<lambda>v. parseInt v 10) (js_split channelValueStr '':'')) 1))
         [] (drop 1 (js_split (analog_reply rs) '','')))"
    unfolding analogValueGet_def
    by (subst exchange_one_line) (simp_all add: new_board_idle Let_def)
  also have "\<dots> = Resolved (foldl
         (\<lambda>readings r. with_property readings (Some (Num (int (fst r)))) (Some (Num (int (snd r)))))
         [] rs)"
    by (simp add: split_reply foldl_map token_channel)
  also have "\<dots> = Resolved (map (\<lambda>r. (Some (Num (int (fst r))), Some (Num (int (snd r))))) rs)"
    using reduce_distinct[OF d, of "[]" "\<lambda>r. Some (Num (int (snd r)))"] by simp
  finally show ?thesis .
qed

lemma example_reply:
  "analog_reply [(0, 713), (2, 241), (5, 89), (9, 1004)] = ''A,00:0713,02:0241,05:0089,09:1004''"
  by code_simp

section \<open>The exchanges of the test suite\<close>

text \<open>
  The test suite of the repository gives, for every operation, a call together with the
  string it expects on the port, and for every decoder a reply together with the value it
  expects. The model agrees with each of them.
\<close>

lemmas constant_defs = PEN_DOWN_def PEN_UP_def MOTOR_DISABLE_def MOTOR_STEP_DIV16_def
  MOTOR_STEP_DIV8_def MOTOR_STEP_DIV4_def MOTOR_STEP_DIV2_def MOTOR_STEP_DIV1_def
  SERVO_POWER_ON_def MODE_DIGITAL_def MODE_ANALOG_def

text \<open>The wire format gives the strings the test suite expects.\<close>

lemma wire_format_test_suite:
  "wire_format (AnalogValueGet) = [''A'']"
  "wire_format (AnalogConfigure 0 True) = [''AC,0,1'']"
  "wire_format (EnterBootloader) = [''BL'']"
  "wire_format (ConfigurePinDirections 0 1 2 3 4) = [''C,0,1,2,3,4'']"
  "wire_format (ClearStepPosition) = [''CS'']"
  "wire_format (ConfigureUserOptions None None None) = [''CU,1,1'', ''CU,2,1'', ''CU,3,0'']"
  "wire_format (EnableMotors MOTOR_STEP_DIV16 MOTOR_STEP_DIV16) = [''EM,1,1'']"
  "wire_format (EmergencyStop True) = [''ES,1'']"
  "wire_format (AbsoluteMove 1337 (Some 1000) (Some 2000)) = [''HM,1337,1000,2000'']"
  "wire_format (GetInput) = [''I'']"
  "wire_format (LowLevelMove 3865471 60 1732 False 0 0 0 False) = [''LM,3865471,60,1732,0,0,0,0'']"
  "wire_format (LowLevelMoveTimeLimited 10169 3865471 1732 True 0 0 True) = [''LT,10169,3865471,1732,0,0,3'']"
  "wire_format (MemoryRead 1337) = [''MR,1337'']"
  "wire_format (MemoryWrite 1337 123) = [''MW,1337,123'']"
  "wire_format (NodeCountDecrement) = [''ND'']"
  "wire_format (NodeCountIncrement) = [''NI'']"
  "wire_format (SetOutputs 1 2 3 4 5) = [''O,1,2,3,4,5'']"
  "wire_format (PulseConfigure 1 2 3 4 5 6 7 8) = [''PC,1,2,3,4,5,6,7,8'']"
  "wire_format (SetPinDirection ''A'' 2 True) = [''PD,A,2,0'']"
  "wire_format (PulseGo True) = [''PG,1'']"
  "wire_format (PulseGo False) = [''PG,0'']"
  "wire_format (PinInput ''A'' 0) = [''PI,A,0'']"
  "wire_format (PinOutput ''A'' 0 True) = [''PO,A,0,1'']"
  "wire_format (QueryButton) = [''QB'']"
  "wire_format (QueryCurrent None) = [''QC'']"
  "wire_format (QueryMotorConfig) = [''QE'']"
  "wire_format (QueryGeneral) = [''QG'']"
  "wire_format (QueryLayer) = [''QL'']"
  "wire_format (QueryMotors) = [''QM'']"
  "wire_format (QueryPen) = [''QP'']"
  "wire_format (QueryServoPower) = [''QR'']"
  "wire_format (QueryStepPosition) = [''QS'']"
  "wire_format (QueryNickname) = [''QT'']"
  "wire_format (Reboot) = [''RB'']"
  "wire_format (Reset) = [''R'']"
  "wire_format (ServoOutput 12000 3 5000 1337) = [''S2,12000,3,5000,1337'']"
  "wire_format (StepperAndServoModeConfigure 1 2) = [''SC,1,2'']"
  "wire_format (SetEngraver True 123 True) = [''SE,1,123,1'']"
  "wire_format (SetLayer 125) = [''SL,125'']"
  "wire_format (StepperMove 1337 100 200) = [''SM,1337,100,200'']"
  "wire_format (SetNodeCount 123) = [''SN,123'']"
  "wire_format (SetPenState True (Some 1000) (Some 0)) = [''SP,0,1000,0'']"
  "wire_format (SetServoPowerTimeout 1000 True) = [''SR,1000,1'']"
  "wire_format (SetNickname ''MyCoolRobot'') = [''ST,MyCoolRobot'']"
  "wire_format (TimedRead 1000 True) = [''T,1000,0'']"
  "wire_format (TogglePen (Some 5000)) = [''TP,5000'']"
  "wire_format (QueryNodeCount) = [''QN'']"
  "wire_format (QueryVersion) = [''V'']"
  "wire_format (StepperMoveMixedAxis 1337 100 200) = [''XM,1337,100,200'']"
  by (simp_all add: comma_separated_def flag_def or_default_def number_simps MOTOR_STEP_DIV16_def)

lemma test_suite_commands:
  "sends (analogValueGet) = Some ''A''"
  "sends (analogConfigure 0 True) = Some ''AC,0,1''"
  "sends (enterBootloader) = Some ''BL''"
  "sends (configurePinDirections 0 1 2 3 4) = Some ''C,0,1,2,3,4''"
  "sends (clearStepPosition) = Some ''CS''"
  "sends (configureUserOptions None None None) = Some ''CU,1,1''"
  "sends (enableMotors MOTOR_STEP_DIV16 MOTOR_STEP_DIV16) = Some ''EM,1,1''"
  "sends (emergencyStop True) = Some ''ES,1''"
  "sends (absoluteMove 1337 (Some 1000) (Some 2000)) = Some ''HM,1337,1000,2000''"
  "sends (getInput) = Some ''I''"
  "sends (lowLevelMove 3865471 60 1732 False 0 0 0 False) = Some ''LM,3865471,60,1732,0,0,0,0''"
  "sends (lowLevelMoveTimeLimited 10169 3865471 1732 True 0 0 True) = Some ''LT,10169,3865471,1732,0,0,3''"
  "sends (memoryRead 1337) = Some ''MR,1337''"
  "sends (memoryWrite 1337 123) = Some ''MW,1337,123''"
  "sends (nodeCountDecrement) = Some ''ND''"
  "sends (nodeCountIncrement) = Some ''NI''"
  "sends (setOutputs 1 2 3 4 5) = Some ''O,1,2,3,4,5''"
  "sends (pulseConfigure 1 2 3 4 5 6 7 8) = Some ''PC,1,2,3,4,5,6,7,8''"
  "sends (setPinDirection ''A'' 2 True) = Some ''PD,A,2,0''"
  "sends (pulseGo True) = Some ''PG,1''"
  "sends (pulseGo False) = Some ''PG,0''"
  "sends (pinInput ''A'' 0) = Some ''PI,A,0''"
  "sends (pinOutput ''A'' 0 True) = Some ''PO,A,0,1''"
  "sends (queryButton) = Some ''QB''"
  "sends (queryCurrent None) = Some ''QC''"
  "sends (queryMotorConfig) = Some ''QE''"
  "sends (queryGeneral) = Some ''QG''"
  "sends (queryLayer) = Some ''QL''"
  "sends (queryMotors) = Some ''QM''"
  "sends (queryPen) = Some ''QP''"
  "sends (queryServoPower) = Some ''QR''"
  "sends (queryStepPosition) = Some ''QS''"
  "sends (queryNickname) = Some ''QT''"
  "sends (reboot) = Some ''RB''"
  "sends (reset) = Some ''R''"
  "sends (servoOutput 12000 3 5000 1337) = Some ''S2,12000,3,5000,1337''"
  "sends (stepperAndServoModeConfigure 1 2) = Some ''SC,1,2''"
  "sends (setEngraver True 123 True) = Some ''SE,1,123,1''"
  "sends (setLayer 125) = Some ''SL,125''"
  "sends (stepperMove 1337 100 200) = Some ''SM,1337,100,200''"
  "sends (setNodeCount 123) = Some ''SN,123''"
  "sends (setPenState True (Some 1000) (Some 0)) = Some ''SP,0,1000,0''"
  "sends (setServoPowerTimeout 1000 True) = Some ''SR,1000,1''"
  "sends (setNickname ''MyCoolRobot'') = Some ''ST,MyCoolRobot''"
  "sends (timedRead 1000 True) = Some ''T,1000,0''"
  "sends (togglePen (Some 5000)) = Some ''TP,5000''"
  "sends (queryNodeCount) = Some ''QN''"
  "sends (queryVersion) = Some ''V''"
  "sends (stepperMoveMixedAxis 1337 100 200) = Some ''XM,1337,100,200''"
  by (simp_all add: sends_def op_defs stepperAndServoModeConfigure_command_def constant_defs
        number_simps asserting_def assertByte_def assertValidPortLetter_def
        Number_isInteger_def truthy_def Let_def)

lemma test_suite_rejections:
  "\<exists>e. memoryRead (- 1) = Throw e"
  "\<exists>e. memoryRead 4096 = Throw e"
  "\<exists>e. memoryWrite (- 1) 0 = Throw e"
  "\<exists>e. memoryWrite 4096 0 = Throw e"
  "\<exists>e. memoryWrite 0 (- 1) = Throw e"
  "\<exists>e. memoryWrite 0 256 = Throw e"
  "\<exists>e. setPinDirection ''Z'' 0 True = Throw e"
  "\<exists>e. setPinDirection ''A'' (- 1) True = Throw e"
  "\<exists>e. setPinDirection ''A'' 8 True = Throw e"
  "\<exists>e. pinInput ''Z'' 0 = Throw e"
  "\<exists>e. pinInput ''A'' (- 1) = Throw e"
  "\<exists>e. pinInput ''A'' 8 = Throw e"
  "\<exists>e. pinOutput ''Z'' 0 True = Throw e"
  "\<exists>e. pinOutput ''A'' (- 1) True = Throw e"
  "\<exists>e. pinOutput ''A'' 8 True = Throw e"
  by (simp_all add: memoryRead_def memoryWrite_def setPinDirection_def pinInput_def pinOutput_def
        asserting_def assertByte_def assertValidPortLetter_def)

lemma test_suite_reply_analogValueGet_0:
  "fst (perform (analogValueGet) (\<lambda>w. [''A,00:0713,02:0241,05:0089,09:1004'']) new_board) =
     Resolved [(Some (Num 0), Some (Num 713)), (Some (Num 2), Some (Num 241)), (Some (Num 5), Some (Num 89)), (Some (Num 9), Some (Num 1004))]"
  by code_simp

lemma test_suite_reply_analogValueGet_1:
  "fst (perform (analogValueGet) (\<lambda>w. [''A,00:0000'']) new_board) =
     Resolved [(Some (Num 0), Some (Num 0))]"
  by code_simp

lemma test_suite_reply_analogValueGet_2:
  "fst (perform (analogValueGet) (\<lambda>w. [''A,00:1023'']) new_board) =
     Resolved [(Some (Num 0), Some (Num 1023))]"
  by code_simp

lemma test_suite_reply_emergencyStop:
  "fst (perform (emergencyStop True) (\<lambda>w. [''1,13,37,42,57'', ''OK'']) new_board) =
     Resolved \<lparr>interrupted = True, fifoSteps = [Num 13, Num 37], stepsRemaining = [Num 42, Num 57]\<rparr>"
  by code_simp

lemma test_suite_reply_getInput:
  "fst (perform (getInput) (\<lambda>w. [''I,128,255,130,000,007'']) new_board) =
     Resolved [Num 128, Num 255, Num 130, Num 0, Num 7]"
  by code_simp

lemma test_suite_reply_memoryRead:
  "fst (perform (memoryRead 1337) (\<lambda>w. [''MR,1234'']) new_board) =
     Resolved (Num 1234)"
  by code_simp

lemma test_suite_reply_pinInput:
  "fst (perform (pinInput ''A'' 0) (\<lambda>w. [''PI,1'']) new_board) =
     Resolved True"
  by code_simp

lemma test_suite_reply_queryButton:
  "fst (perform (queryButton) (\<lambda>w. [''1'', ''OK'']) new_board) =
     Resolved True"
  by code_simp

lemma test_suite_reply_queryCurrent:
  "fst (perform (queryCurrent None) (\<lambda>w. [''1023,1023'', ''OK'']) new_board) =
     Resolved (False, Some (Num 1023), Some (Num 1023))"
  by code_simp

lemma test_suite_reply_queryMotorConfig:
  "fst (perform (queryMotorConfig) (\<lambda>w. [''4,16'', ''OK'']) new_board) =
     Resolved [Some MOTOR_STEP_DIV4, Some MOTOR_STEP_DIV16]"
  by code_simp

lemma test_suite_reply_queryGeneral:
  "fst (perform (queryGeneral) (\<lambda>w. [''3E'']) new_board) =
     Resolved \<lparr>pinRB5 = False, pinRB2 = False, buttonPrg = True, penDown = True, commandExecuting = True, motor1Moving = True, motor2Moving = True, fifoEmpty = True\<rparr>"
  by code_simp

lemma test_suite_reply_queryLayer:
  "fst (perform (queryLayer) (\<lambda>w. [''1'', ''OK'']) new_board) =
     Resolved (Num 1)"
  by code_simp

lemma test_suite_reply_queryMotors:
  "fst (perform (queryMotors) (\<lambda>w. [''QM,1,1,1,1'']) new_board) =
     Resolved \<lparr>executingMotion = True, motorMoving = [True, True], motorFifoEmpty = False\<rparr>"
  by code_simp

lemma test_suite_reply_queryPen:
  "fst (perform (queryPen) (\<lambda>w. [''1'', ''OK'']) new_board) =
     Resolved False"
  by code_simp

lemma test_suite_reply_queryServoPower:
  "fst (perform (queryServoPower) (\<lambda>w. [''1'', ''OK'']) new_board) =
     Resolved True"
  by code_simp

lemma test_suite_reply_queryStepPosition:
  "fst (perform (queryStepPosition) (\<lambda>w. [''1421,-429'', ''OK'']) new_board) =
     Resolved [Num 1421, Num (- 429)]"
  by code_simp

lemma test_suite_reply_queryNickname:
  "fst (perform (queryNickname) (\<lambda>w. [''MyCoolRobot'', ''OK'']) new_board) =
     Resolved (Some ''MyCoolRobot'')"
  by code_simp

lemma test_suite_reply_queryNodeCount:
  "fst (perform (queryNodeCount) (\<lambda>w. [''123'', ''OK'']) new_board) =
     Resolved (Num 123)"
  by code_simp

lemma test_suite_reply_queryVersion:
  "fst (perform (queryVersion) (\<lambda>w. [''EBBv13'', ''OK'']) new_board) =
     Resolved ''EBBv13''"
  by code_simp

end
